(* ===== verification/Prelude.thy ===== *)
theory Prelude
  imports
    Main
    "HOL-Library.Word"
    "HOL-Library.List_Lexorder"
    "HOL-Library.Char_ord"
    "HOL-Library.AList"
    "HOL-Library.Multiset"
begin

text \<open>
  Shared vocabulary of the development: the Go integer, byte, error and map types, the lemma
  collections, and generic facts about association lists, sorting and machine words that the
  component theories use.

  A Go string is a sequence of bytes and is modelled by \<^typ>\<open>string\<close>; the order on strings
  and on byte slices is the bytewise lexicographic one of \<open>bytes.Compare\<close> and of \<open><\<close> on
  Go strings. A Go map is an association list with distinct keys. The position of an entry
  stands for the order in which a \<open>range\<close> loop happens to visit it, which Go leaves open, so a
  fact about \<^emph>\<open>every\<close> list with the same lookups is a fact about every iteration order.
\<close>

section \<open>Types\<close>

type_synonym u8 = "8 word"
type_synonym u32 = "32 word"
type_synonym u64 = "64 word"
type_synonym i64 = "64 word"    \<comment> \<open>a Go \<open>int64\<close>, read with \<^const>\<open>sint\<close>\<close>
type_synonym byte = "8 word"
type_synonym bytes = "byte list"
type_synonym ('k, 'v) gomap = "('k \<times> 'v) list"
type_synonym 'a result = "string + 'a"   \<comment> \<open>\<open>Inl\<close> is a Go \<open>error\<close>, named by its message\<close>

named_theorems gomap_simps \<open>lookups and well-formedness of updated Go maps\<close>
named_theorems u64_simps \<open>reading wrapped unsigned arithmetic as natural numbers\<close>

definition zero32 :: bytes where
  "zero32 = replicate 32 0"

lemma length_zero32 [simp]: "length zero32 = 32"
  by (simp add: zero32_def)

definition byte_of :: "char \<Rightarrow> byte" where
  "byte_of c = of_nat (of_char c)"

lemma unat_byte_of [simp]: "unat (byte_of c) = of_char c"
  using nat_of_char_less_256 [of c] by (simp add: byte_of_def unat_of_nat)

lemma byte_of_inject [simp]: "byte_of c = byte_of d \<longleftrightarrow> c = d"
  by (metis of_char_eq_iff unat_byte_of)

definition bytes_of :: "string \<Rightarrow> bytes" where
  "bytes_of s = map byte_of s"

lemma bytes_of_append [simp]: "bytes_of (s @ t) = bytes_of s @ bytes_of t"
  by (simp add: bytes_of_def)

lemma length_bytes_of [simp]: "length (bytes_of s) = length s"
  by (simp add: bytes_of_def)

lemma bytes_of_inject [simp]: "bytes_of s = bytes_of t \<longleftrightarrow> s = t"
  by (simp add: bytes_of_def inj_map_eq_map inj_def)

text \<open>Splitting a list at its first or last separator.\<close>

lemma first_sep_inject:
  assumes "xs @ c # as = ys @ c # bs" and "c \<notin> set xs" and "c \<notin> set ys"
  shows "xs = ys \<and> as = bs"
proof -
  have "takeWhile ((\<noteq>) c) (zs @ c # cs) = zs" if "c \<notin> set zs" for zs cs
    using that by (subst takeWhile_append2) auto
  with assms have "xs = ys" by metis
  with assms(1) show ?thesis by simp
qed

lemma last_sep_inject:
  assumes "as @ c # xs = bs @ c # ys" and "c \<notin> set xs" and "c \<notin> set ys"
  shows "as = bs \<and> xs = ys"
proof -
  have "rev xs @ c # rev as = rev ys @ c # rev bs"
    using arg_cong [OF assms(1), of rev] by simp
  then show ?thesis using first_sep_inject [of "rev xs" c "rev as" "rev ys" "rev bs"] assms(2,3) by simp
qed

section \<open>Go maps as association lists\<close>

abbreviation gm_wf :: "('k, 'v) gomap \<Rightarrow> bool" where
  "gm_wf m \<equiv> distinct (map fst m)"

lemmas gm_laws [gomap_simps] =
  update_conv' delete_conv' distinct_update distinct_delete dom_update

text \<open>The contract of a keyed store: what a lookup returns after a write or a removal.\<close>

locale keyed_store =
  fixes lookup :: "'s \<Rightarrow> 'k \<Rightarrow> 'v option"
    and put :: "'k \<Rightarrow> 'v \<Rightarrow> 's \<Rightarrow> 's"
    and remove :: "'k \<Rightarrow> 's \<Rightarrow> 's"
    and invar :: "'s \<Rightarrow> bool"
  assumes lookup_put: "lookup (put k v s) = (lookup s)(k \<mapsto> v)"
    and lookup_remove: "invar s \<Longrightarrow> lookup (remove k s) = (lookup s)(k := None)"
    and invar_put: "invar s \<Longrightarrow> invar (put k v s)"
    and invar_remove: "invar s \<Longrightarrow> invar (remove k s)"
begin

lemma lookup_put_same: "lookup (put k v s) k = Some v"
  by (simp add: lookup_put)

lemma lookup_put_other: "j \<noteq> k \<Longrightarrow> lookup (put k v s) j = lookup s j"
  by (simp add: lookup_put)

lemma put_put: "lookup (put k w (put k v s)) = lookup (put k w s)"
  by (simp add: lookup_put)

lemma lookup_fold_put:
  "lookup (fold (\<lambda>(k, v). put k v) kvs s) = (lookup s) ++ map_of (rev kvs)"
  by (induction kvs arbitrary: s) (auto simp: lookup_put map_add_def fun_eq_iff split: option.splits)

lemma invar_fold_put: "invar s \<Longrightarrow> invar (fold (\<lambda>(k, v). put k v) kvs s)"
  by (induction kvs arbitrary: s) (auto intro: invar_put)

lemma lookup_remove_same: "invar s \<Longrightarrow> lookup (remove k (put k v s)) k = None"
  by (simp add: lookup_remove invar_put)

end

interpretation gm: keyed_store map_of AList.update AList.delete gm_wf
  by unfold_locales (simp_all add: gomap_simps)

text \<open>Adding up a quantity over the entries of a map.\<close>

definition gm_total :: "('v \<Rightarrow> nat) \<Rightarrow> ('k, 'v) gomap \<Rightarrow> nat" where
  "gm_total w m = sum_list (map (w \<circ> snd) m)"

lemma gm_total_Nil [simp]: "gm_total w [] = 0"
  and gm_total_Cons [simp]: "gm_total w ((k, v) # m) = w v + gm_total w m"
  by (simp_all add: gm_total_def)

lemma gm_total_ge: "map_of m k = Some v \<Longrightarrow> w v \<le> gm_total w m"
  by (induction m) (auto split: if_splits)

lemma gm_total_update:
  "gm_total w (AList.update k v m) + (case map_of m k of None \<Rightarrow> 0 | Some u \<Rightarrow> w u)
   = gm_total w m + w v"
  by (induction m) auto

lemma gm_total_update_Some:
  "map_of m k = Some u \<Longrightarrow> gm_total w (AList.update k v m) = gm_total w m - w u + w v"
  using gm_total_update [of w k v m] gm_total_ge [of m k u w] by simp

lemma gm_total_update_None:
  "map_of m k = None \<Longrightarrow> gm_total w (AList.update k v m) = gm_total w m + w v"
  using gm_total_update [of w k v m] by simp

text \<open>Two well-formed maps with the same lookups hold the same entries.\<close>

lemma gm_mset_eqI:
  assumes "gm_wf m" "gm_wf m'" "map_of m = map_of m'"
  shows "mset m = mset m'"
proof -
  have "set m = set m'"
    using assms by (metis map_of_eq_Some_iff subset_antisym subsetI surj_pair)
  with assms(1,2) show ?thesis
    by (metis distinct_map set_eq_iff_mset_eq_distinct)
qed

section \<open>Sorting\<close>

text \<open>
  \<open>sort.Slice\<close> and \<open>slices.SortFunc\<close> fix the result only up to the order of elements with
  equal keys. They are modelled by \<^const>\<open>sort_key\<close>; every determinism statement below assumes
  distinct keys, where any sorting function gives the same list.
\<close>

lemma sort_key_cong_mset:
  assumes eq: "mset xs = mset ys" and inj: "inj_on f (set xs)"
  shows "sort_key f xs = sort_key f ys"
proof -
  have set_eq: "set xs = set ys" using eq by (metis set_mset_mset)
  have filt: "filter (\<lambda>x. f k = f x) zs = replicate (count (mset zs) k) k"
    if "k \<in> set zs" "set zs = set xs" for k zs
  proof -
    have "filter (\<lambda>x. f k = f x) zs = filter ((=) k) zs"
      using that inj by (intro filter_cong) (auto simp: inj_on_def)
    then show ?thesis by (simp add: replicate_count_mset_eq_filter_eq)
  qed
  show ?thesis
  proof (rule properties_for_sort_key)
    show "mset (sort_key f ys) = mset xs" by (simp add: eq)
    show "filter (\<lambda>x. f k = f x) (sort_key f ys) = filter (\<lambda>x. f k = f x) xs"
      if "k \<in> set (sort_key f ys)" for k
      using that filt [of k "sort_key f ys"] filt [of k xs] set_eq eq by simp
    show "sorted (map f (sort_key f ys))" by simp
  qed
qed

lemma sort_key_map_of_eq:
  assumes "gm_wf m" "gm_wf m'" "map_of m = map_of m'"
  shows "sort_key fst m = sort_key fst m'"
  using assms by (intro sort_key_cong_mset gm_mset_eqI) (auto simp: distinct_map)

text \<open>Injectivity on the elements of a list, in a form that evaluates.\<close>

lemma inj_on_set_iff: "inj_on f (set xs) \<longleftrightarrow> distinct (map f (remdups xs))"
  by (simp add: distinct_map)

section \<open>Machine words\<close>

lemma unat_u64_lt [simp]: "unat (x :: u64) < 18446744073709551616"
  using unsigned_less [of x] by simp

lemma u64_add_exact [u64_simps]:
  "unat a + unat b < 18446744073709551616 \<Longrightarrow> unat (a + b :: u64) = unat a + unat b"
  by (simp add: unat_word_ariths)

lemma u64_sub_exact [u64_simps]: "b \<le> a \<Longrightarrow> unat (a - b :: u64) = unat a - unat b"
  by (rule unat_sub)

lemma u64_mult_exact [u64_simps]:
  "unat a * unat b < 18446744073709551616 \<Longrightarrow> unat (a * b :: u64) = unat a * unat b"
  by (simp add: unat_word_ariths)

lemma u64_le_iff: "(a :: u64) \<le> b \<longleftrightarrow> unat a \<le> unat b"
  by (rule word_le_nat_alt)

lemma u64_less_iff: "(a :: u64) < b \<longleftrightarrow> unat a < unat b"
  by (rule word_less_nat_alt)

lemma u64_eq_iff: "(a :: u64) = b \<longleftrightarrow> unat a = unat b"
  by (rule word_unat_eq_iff)

lemma unat_ucast_u32 [simp]: "unat (ucast (a :: u32) :: u64) = unat a"
  by transfer simp

lemma unat_ucast_u8 [simp]: "unat (ucast (a :: u8) :: u64) = unat a"
  by transfer simp

lemma u64_of_nat_exact [u64_simps]:
  "n < 18446744073709551616 \<Longrightarrow> unat (of_nat n :: u64) = n"
  by (simp add: unat_of_nat)

section \<open>Transition systems\<close>

text \<open>
  A component that runs: its initial states, its steps, and an invariant that holds while a
  measure of the state stays within a bound. Steps never leave the bound downwards, so a state within
  the bound has only seen states within it. A component without such a limit takes the trivial bound.
\<close>

locale transition_system =
  fixes init :: "'s \<Rightarrow> bool" and step :: "'s \<Rightarrow> 's \<Rightarrow> bool" and bound :: "'s \<Rightarrow> bool"
  assumes bound_back: "step s t \<Longrightarrow> bound t \<Longrightarrow> bound s"
begin

definition reachable :: "'s \<Rightarrow> bool" where
  "reachable t \<longleftrightarrow> (\<exists>s. init s \<and> step\<^sup>*\<^sup>* s t)"

lemma reachable_init: "init s \<Longrightarrow> reachable s"
  by (auto simp: reachable_def)

lemma reachable_step: "reachable s \<Longrightarrow> step s t \<Longrightarrow> reachable t"
  by (auto simp: reachable_def intro: rtranclp.rtrancl_into_rtrancl)

lemma reachable_induct [consumes 1, case_names start step]:
  assumes "reachable t" and "\<And>s. init s \<Longrightarrow> P s"
    and "\<And>s t. reachable s \<Longrightarrow> P s \<Longrightarrow> step s t \<Longrightarrow> P t"
  shows "P t"
proof -
  from assms(1) obtain s where s: "init s" and run: "step\<^sup>*\<^sup>* s t" by (auto simp: reachable_def)
  from run show ?thesis
    by (induction rule: rtranclp_induct) (use s assms(2,3) in \<open>auto simp: reachable_def\<close>)
qed

end

locale invariant_system = transition_system +
  fixes inv :: "'a \<Rightarrow> bool"
  assumes inv_init: "init s \<Longrightarrow> inv s"
    and inv_step: "step s t \<Longrightarrow> inv s \<Longrightarrow> bound t \<Longrightarrow> inv t"
begin

lemma reachable_inv: "reachable t \<Longrightarrow> bound t \<Longrightarrow> inv t"
  by (induction rule: reachable_induct) (auto intro: inv_init inv_step dest: bound_back)

end

text \<open>
  A detailed system simulated by an abstract one: every detailed step is a sequence of abstract
  steps on the image of the state.
\<close>

locale simulation =
  fixes cinit :: "'c \<Rightarrow> bool" and cstep :: "'c \<Rightarrow> 'c \<Rightarrow> bool"
    and ainit :: "'a \<Rightarrow> bool" and astep :: "'a \<Rightarrow> 'a \<Rightarrow> bool" and abs :: "'c \<Rightarrow> 'a"
  assumes init_sim: "cinit s \<Longrightarrow> ainit (abs s)"
    and step_sim: "cstep s t \<Longrightarrow> astep\<^sup>*\<^sup>* (abs s) (abs t)"
begin

lemma run_sim: "cstep\<^sup>*\<^sup>* s t \<Longrightarrow> astep\<^sup>*\<^sup>* (abs s) (abs t)"
  by (induction rule: rtranclp_induct) (auto dest: step_sim)

lemma reachable_sim: "cinit s \<Longrightarrow> cstep\<^sup>*\<^sup>* s t \<Longrightarrow> \<exists>a. ainit a \<and> astep\<^sup>*\<^sup>* a (abs t)"
  using init_sim run_sim by blast

end

end
