(* ===== verification/Float64.thy ===== *)
theory Float64
  imports Prelude
begin

text \<open>
  The part of IEEE binary64 arithmetic that the reward code uses: non-negative numbers, with
  multiplication rounded to nearest even, \<open>math.Pow\<close> with a positive base and a non-negative
  integral exponent (the loop of the Go standard library), \<open>math.Ldexp\<close>, \<open>math.Round\<close> and the
  conversion to \<open>uint64\<close>. \<open>Fin m e\<close> is the number \<open>m * 2^e\<close>. Conversions out of the range of
  the target are left open by the language and are a parameter \<open>oob\<close>.
\<close>

datatype f64 = Fin nat int | PInf

fun blen :: "nat \<Rightarrow> nat" where
  "blen n = (if n = 0 then 0 else Suc (blen (n div 2)))"

declare blen.simps [simp del]

text \<open>\<open>p / 2^k\<close> rounded to nearest, ties to even.\<close>

definition rne :: "nat \<Rightarrow> nat \<Rightarrow> nat" where
  "rne p k =
     (let q = p div 2 ^ k; r = p mod 2 ^ k
      in if 2 ^ k < 2 * r \<or> (2 ^ k = 2 * r \<and> odd q) then q + 1 else q)"

text \<open>The binary64 number nearest to \<open>p * 2^e\<close>, for results above the subnormal range.\<close>

definition fl :: "nat \<Rightarrow> int \<Rightarrow> f64" where
  "fl p e = (let k = blen p - 53 in Fin (rne p k) (e + int k))"

fun fmul :: "f64 \<Rightarrow> f64 \<Rightarrow> f64" where
  "fmul (Fin m e) (Fin n f) = fl (m * n) (e + f)"
| "fmul _ _ = PInf"

text \<open>\<open>math.Frexp\<close>: a fraction in \<open>[1/2, 1)\<close> and an exponent.\<close>

fun frexp :: "f64 \<Rightarrow> f64 \<times> int" where
  "frexp (Fin m e) = (Fin m (- int (blen m)), e + int (blen m))"
| "frexp PInf = (PInf, 0)"

fun below_half :: "f64 \<Rightarrow> bool" where
  "below_half (Fin m e) \<longleftrightarrow> int (blen m) + e < 0"
| "below_half PInf = False"

fun fdouble :: "f64 \<Rightarrow> f64" where
  "fdouble (Fin m e) = Fin m (e + 1)"
| "fdouble PInf = PInf"

fun ldexp :: "f64 \<Rightarrow> int \<Rightarrow> f64" where
  "ldexp (Fin m e) ae =
     (let e' = e + ae; x = e' + int (blen m) - 1
      in if m = 0 then Fin 0 0
         else if x < - 1075 then Fin 0 0
         else if 1023 < x then PInf
         else if x < - 1022 then Fin (rne m (nat (- 1074 - e'))) (- 1074)
         else Fin m e')"
| "ldexp PInf ae = PInf"

function pow_loop :: "f64 \<Rightarrow> int \<Rightarrow> f64 \<Rightarrow> int \<Rightarrow> nat \<Rightarrow> f64 \<times> int" where
  "pow_loop a1 ae x1 xe i =
     (if i = 0 then (a1, ae)
      else if xe < - 4096 \<or> 4096 < xe then (a1, ae + xe)
      else
        let (a1', ae') = (if odd i then (fmul a1 x1, ae + xe) else (a1, ae));
            x2 = fmul x1 x1
        in if below_half x2 then pow_loop a1' ae' (fdouble x2) (2 * xe - 1) (i div 2)
           else pow_loop a1' ae' x2 (2 * xe) (i div 2))"
  by pat_completeness auto
termination
  by (relation "measure (\<lambda>(a1, ae, x1, xe, i). i)") auto

declare pow_loop.simps [simp del]

definition fone :: f64 where "fone = Fin (2 ^ 52) (- 52)"

definition fpow :: "f64 \<Rightarrow> nat \<Rightarrow> f64" where
  "fpow x n = (let (x1, xe) = frexp x; (a1, ae) = pow_loop fone 0 x1 xe n in ldexp a1 ae)"

fun fround :: "f64 \<Rightarrow> nat option" where
  "fround (Fin m e) =
     Some (if 0 \<le> e then m * 2 ^ nat e else (2 * m + 2 ^ nat (- e)) div 2 ^ (nat (- e) + 1))"
| "fround PInf = None"

fun ftrunc :: "f64 \<Rightarrow> nat option" where
  "ftrunc (Fin m e) = Some (if 0 \<le> e then m * 2 ^ nat e else m div 2 ^ nat (- e))"
| "ftrunc PInf = None"

text \<open>\<open>uint64(x)\<close> for an integral or truncated value.\<close>

definition to_u64 :: "u64 \<Rightarrow> nat option \<Rightarrow> u64" where
  "to_u64 oob v = (case v of None \<Rightarrow> oob | Some n \<Rightarrow> if n < 2 ^ 64 then of_nat n else oob)"

definition f64_of_u64 :: "u64 \<Rightarrow> f64" where
  "f64_of_u64 n = fl (unat n) 0"

section \<open>Numbers up to one\<close>

fun le_one :: "f64 \<Rightarrow> bool" where
  "le_one (Fin m e) \<longleftrightarrow> e \<le> 0 \<and> m \<le> 2 ^ nat (- e)"
| "le_one PInf = False"

lemma blen_bounds: "0 < n \<Longrightarrow> 2 ^ (blen n - 1) \<le> n \<and> n < 2 ^ blen n \<and> 0 < blen n"
proof (induction n rule: blen.induct)
  case (1 n)
  show ?case
  proof (cases "n = 1")
    case True
    then show ?thesis by (simp add: blen.simps)
  next
    case False
    with 1 have "2 ^ (blen (n div 2) - 1) \<le> n div 2" "n div 2 < 2 ^ blen (n div 2)" "0 < blen (n div 2)"
      by auto
    moreover have blen: "blen n = Suc (blen (n div 2))" using "1.prems" by (subst blen.simps) simp
    moreover from calculation obtain l where "blen (n div 2) = Suc l" by (metis Suc_pred')
    ultimately have "2 ^ l \<le> n div 2" "n div 2 < 2 * 2 ^ l" and "blen n = Suc (Suc l)" by simp_all
    moreover have "2 * P \<le> n \<and> n < 4 * P" if "P \<le> n div 2" "n div 2 < 2 * P" for P
      using that by presburger
    ultimately show ?thesis by simp
  qed
qed

lemma blen_le: "n \<le> 2 ^ k \<Longrightarrow> blen n \<le> k + 1"
proof (cases "n = 0")
  case False
  assume "n \<le> 2 ^ k"
  with False blen_bounds [of n] have "(2::nat) ^ (blen n - 1) \<le> 2 ^ k" by (meson le_trans neq0_conv)
  then have "blen n - 1 \<le> k" by (rule power_le_imp_le_exp [rotated]) simp
  then show ?thesis by simp
qed (simp add: blen.simps)

lemma rne_le:
  assumes "p \<le> N * 2 ^ k"
  shows "rne p k \<le> N"
proof -
  have "p div 2 ^ k \<le> N" using div_le_mono [OF assms, of "2 ^ k"] by simp
  moreover have "p mod 2 ^ k = 0" if "p div 2 ^ k = N"
    using div_mult_mod_eq [of p "2 ^ k"] that assms by simp
  ultimately show ?thesis by (auto simp: rne_def Let_def le_less)
qed

lemma le_one_fl:
  assumes "e \<le> 0" "p \<le> 2 ^ nat (- e)"
  shows "le_one (fl p e)"
proof -
  define k where "k = blen p - 53"
  have "k \<le> nat (- e)" using blen_le [OF assms(2)] by (simp add: k_def)
  then have split: "nat (- e) = nat (- e - int k) + k" and e: "e + int k \<le> 0"
    using assms(1) by simp_all
  from assms(2) have "rne p k \<le> 2 ^ nat (- e - int k)"
    by (intro rne_le) (simp add: split power_add)
  with e show ?thesis by (simp add: fl_def k_def Let_def algebra_simps)
qed

lemma le_one_fmul: "le_one x \<Longrightarrow> le_one y \<Longrightarrow> le_one (fmul x y)"
proof (cases x; cases y)
  fix m e n f
  assume "le_one x" "le_one y" and xy: "x = Fin m e" "y = Fin n f"
  then have *: "e \<le> 0" "f \<le> 0" "m \<le> 2 ^ nat (- e)" "n \<le> 2 ^ nat (- f)" by simp_all
  then have "nat (- (e + f)) = nat (- e) + nat (- f)" by simp
  then have "m * n \<le> 2 ^ nat (- (e + f))"
    using mult_le_mono [OF *(3,4)] by (simp only: power_add)
  with * show ?thesis by (simp add: xy le_one_fl)
qed auto

lemma le_one_fdouble: "below_half x \<Longrightarrow> le_one (fdouble x)"
proof (cases x)
  case (Fin m e)
  assume "below_half x"
  with Fin have e: "int (blen m) \<le> - (e + 1)" by simp
  have "m \<le> 2 ^ blen m" using blen_bounds [of m] by (cases "m = 0") auto
  also have "\<dots> \<le> 2 ^ nat (- (e + 1))" using e by (intro power_increasing) auto
  finally show ?thesis using e Fin by simp
qed simp

lemma le_one_pow_loop:
  "le_one a1 \<Longrightarrow> ae \<le> 0 \<Longrightarrow> le_one x1 \<Longrightarrow> xe \<le> 0 \<Longrightarrow>
   le_one (fst (pow_loop a1 ae x1 xe i)) \<and> snd (pow_loop a1 ae x1 xe i) \<le> 0"
proof (induction a1 ae x1 xe i rule: pow_loop.induct)
  case (1 a1 ae x1 xe i)
  show ?case
  proof (cases "i = 0 \<or> xe < - 4096 \<or> 4096 < xe")
    case True
    with "1.prems" show ?thesis by (subst (1 2) pow_loop.simps) auto
  next
    case False
    define a1' ae' where "a1' = (if odd i then fmul a1 x1 else a1)" "ae' = (if odd i then ae + xe else ae)"
    have acc: "(if odd i then (fmul a1 x1, ae + xe) else (a1, ae)) = (a1', ae')"
      by (simp add: a1'_ae'_def)
    have "le_one a1'" "ae' \<le> 0" "le_one (fmul x1 x1)"
      using "1.prems" by (simp_all add: a1'_ae'_def le_one_fmul)
    with False "1.prems" le_one_fdouble [of "fmul x1 x1"]
      "1.IH"(1) [OF _ _ acc [symmetric] refl refl] "1.IH"(2) [OF _ _ acc [symmetric] refl refl]
    show ?thesis by (subst (1 2) pow_loop.simps) (auto simp: acc Let_def)
  qed
qed

lemma le_one_ldexp: "le_one x \<Longrightarrow> ae \<le> 0 \<Longrightarrow> le_one (ldexp x ae)"
proof (cases x)
  case (Fin m e)
  assume "le_one x" "ae \<le> 0"
  with Fin have *: "e \<le> 0" "m \<le> 2 ^ nat (- e)" "ae \<le> 0" by simp_all
  then have m: "m \<le> 2 ^ nat (- (e + ae))"
    by (intro order_trans [OF *(2)] power_increasing) auto
  have len: "int (blen m) \<le> - (e + ae) + 1" using blen_le [OF m] * by simp
  have "rne m (nat (- 1074 - (e + ae))) \<le> 2 ^ 1074" if "e + ae + int (blen m) - 1 < - 1022"
  proof (rule rne_le)
    have "m \<le> 2 ^ blen m" using blen_bounds [of m] by (cases "m = 0") auto
    also have "\<dots> \<le> 2 ^ (1074 + nat (- 1074 - (e + ae)))"
      using that by (intro power_increasing) auto
    finally show "m \<le> 2 ^ 1074 * 2 ^ nat (- 1074 - (e + ae))" by (simp only: power_add)
  qed
  with * m len show ?thesis by (simp add: Fin Let_def)
qed simp

lemma le_one_fpow:
  assumes "x = Fin m e" "e + int (blen m) \<le> 0"
  shows "le_one (fpow x n)"
proof -
  obtain a1 ae where loop: "pow_loop fone 0 (Fin m (- int (blen m))) (e + int (blen m)) n = (a1, ae)"
    by fastforce
  have "le_one (Fin m (- int (blen m)))" using blen_bounds [of m] by (cases "m = 0") auto
  moreover have "le_one fone" by (simp add: fone_def)
  ultimately have "le_one a1 \<and> ae \<le> 0"
    using le_one_pow_loop [of fone 0 "Fin m (- int (blen m))" "e + int (blen m)" n] assms(2)
    by (simp add: loop)
  then show ?thesis by (simp add: fpow_def assms(1) loop le_one_ldexp)
qed

end
