(* ===== verification/Go_Strings.thy ===== *)
theory Go_Strings
  imports Prelude
begin

text \<open>
  The parts of Go's \<open>strings\<close>, \<open>strconv\<close>, \<open>fmt\<close>, \<open>encoding/hex\<close> and
  \<open>encoding/json\<close> that the program uses on short ASCII keys, addresses and numbers.
  Letters and white space are the ASCII ones: on bytes above 127 \<open>ToLower\<close> and \<open>TrimSpace\<close>
  of the model are the identity. Numbers are printed in decimal as \<open>%d\<close>,
  \<open>strconv.FormatUint\<close> and \<open>json.Marshal\<close> do.
\<close>

named_theorems str_simps \<open>unfolding the string helpers\<close>

section \<open>Prefixes, suffixes, case and white space\<close>

definition has_prefix :: "string \<Rightarrow> string \<Rightarrow> bool" where
  [str_simps]: "has_prefix s p \<longleftrightarrow> take (length p) s = p"

definition trim_prefix :: "string \<Rightarrow> string \<Rightarrow> string" where
  [str_simps]: "trim_prefix s p = (if has_prefix s p then drop (length p) s else s)"

definition has_suffix :: "string \<Rightarrow> string \<Rightarrow> bool" where
  [str_simps]: "has_suffix s p \<longleftrightarrow> length p \<le> length s \<and> drop (length s - length p) s = p"

definition trim_suffix :: "string \<Rightarrow> string \<Rightarrow> string" where
  [str_simps]: "trim_suffix s p = (if has_suffix s p then take (length s - length p) s else s)"

definition is_space :: "char \<Rightarrow> bool" where
  [str_simps]: "is_space c \<longleftrightarrow> c \<in> set [CHR 0x09, CHR 0x0A, CHR 0x0B, CHR 0x0C, CHR 0x0D, CHR 0x20]"

definition trim_space :: "string \<Rightarrow> string" where
  [str_simps]: "trim_space s = rev (dropWhile is_space (rev (dropWhile is_space s)))"

definition lower_char :: "char \<Rightarrow> char" where
  [str_simps]: "lower_char c =
     (let n = of_char c :: nat in if 65 \<le> n \<and> n \<le> 90 then char_of (n + 32) else c)"

definition to_lower :: "string \<Rightarrow> string" where
  [str_simps]: "to_lower s = map lower_char s"

lemma has_prefix_append [simp]: "has_prefix (p @ s) p"
  by (simp add: has_prefix_def)

lemma has_prefix_iff: "has_prefix s p \<longleftrightarrow> (\<exists>t. s = p @ t)"
  by (metis append_eq_conv_conj append_take_drop_id has_prefix_def)

lemma trim_prefix_append [simp]: "trim_prefix (p @ s) p = s"
  by (simp add: trim_prefix_def)

lemma trim_suffix_append [simp]: "trim_suffix (s @ p) p = s"
  by (simp add: trim_suffix_def has_suffix_def)

lemma lower_char_idem [simp]: "lower_char (lower_char c) = lower_char c"
  by (simp add: lower_char_def Let_def)

lemma to_lower_idem [simp]: "to_lower (to_lower s) = to_lower s"
  by (simp add: to_lower_def)

section \<open>Decimal numbers\<close>

definition digit_char :: "nat \<Rightarrow> char" where
  "digit_char n = char_of (48 + n)"

definition digit_val :: "char \<Rightarrow> nat option" where
  "digit_val c = (let n = of_char c in if 48 \<le> n \<and> n \<le> 57 then Some (n - 48) else None)"

fun dec_nat :: "nat \<Rightarrow> string" where
  "dec_nat n = (if n < 10 then [digit_char n] else dec_nat (n div 10) @ [digit_char (n mod 10)])"

declare dec_nat.simps [simp del]

fun parse_digits :: "nat \<Rightarrow> string \<Rightarrow> nat option" where
  "parse_digits acc [] = Some acc"
| "parse_digits acc (c # cs) =
     (case digit_val c of None \<Rightarrow> None | Some d \<Rightarrow> parse_digits (acc * 10 + d) cs)"

text \<open>\<open>strconv.ParseUint(s, 10, 64)\<close>: digits only, at least one, in range.\<close>

definition ParseUint :: "string \<Rightarrow> u64 option" where
  "ParseUint s =
     (if s = [] then None
      else case parse_digits 0 s of
        None \<Rightarrow> None
      | Some n \<Rightarrow> if n < 2 ^ 64 then Some (of_nat n) else None)"

lemma digit_val_digit_char [simp]: "d < 10 \<Longrightarrow> digit_val (digit_char d) = Some d"
  by (simp add: digit_val_def digit_char_def Let_def)

lemma parse_digits_append:
  "parse_digits acc (s @ t) = Option.bind (parse_digits acc s) (\<lambda>n. parse_digits n t)"
  by (induction s arbitrary: acc) (auto split: option.splits)

lemma parse_digits_dec_nat: "parse_digits 0 (dec_nat n) = Some n"
proof (induction n rule: dec_nat.induct)
  case (1 n)
  then show ?case
    by (cases "n < 10") (simp_all add: dec_nat.simps [of n] parse_digits_append)
qed

lemma dec_nat_nonempty [simp]: "dec_nat n \<noteq> []"
  by (subst dec_nat.simps) simp

lemma dec_nat_inject [simp]: "dec_nat m = dec_nat n \<longleftrightarrow> m = n"
  by (metis option.inject parse_digits_dec_nat)

lemma ParseUint_dec_nat [simp]: "ParseUint (dec_nat (unat (x :: u64))) = Some x"
  by (simp add: ParseUint_def parse_digits_dec_nat)

lemma digits_dec_nat: "c \<in> set (dec_nat n) \<Longrightarrow> digit_val c \<noteq> None"
proof (induction n rule: dec_nat.induct)
  case (1 n)
  then show ?case
    by (cases "n < 10") (auto simp: dec_nat.simps [of n])
qed

text \<open>A number followed by a byte that is not a digit can be read back.\<close>

lemma dec_nat_append_inject:
  assumes "dec_nat m @ c # xs = dec_nat n @ c # ys" and "digit_val c = None"
  shows "m = n \<and> xs = ys"
proof -
  have tw: "takeWhile (\<lambda>d. digit_val d \<noteq> None) (dec_nat k @ c # zs) = dec_nat k" for k zs
    using assms(2) digits_dec_nat [of _ k] by (subst takeWhile_append2) auto
  from arg_cong [OF assms(1), of "takeWhile (\<lambda>d. digit_val d \<noteq> None)"]
  have "dec_nat m = dec_nat n" by (simp only: tw)
  with assms(1) show ?thesis by simp
qed

text \<open>\<open>fmt.Sprintf("%020d", n)\<close>: at least twenty digits, padded with zeros.\<close>

definition pad20 :: "nat \<Rightarrow> string" where
  "pad20 n = replicate (20 - length (dec_nat n)) (CHR ''0'') @ dec_nat n"

lemma parse_digits_zeros: "parse_digits 0 (replicate k (CHR ''0'') @ s) = parse_digits 0 s"
  by (induction k) (auto simp: digit_val_def)

lemma pad20_inject [simp]: "pad20 m = pad20 n \<longleftrightarrow> m = n"
proof
  assume "pad20 m = pad20 n"
  then have "parse_digits 0 (pad20 m) = parse_digits 0 (pad20 n)" by simp
  then show "m = n" by (simp add: pad20_def parse_digits_zeros parse_digits_dec_nat)
qed simp

section \<open>Hexadecimal\<close>

definition hex_char :: "nat \<Rightarrow> char" where
  "hex_char n = (if n < 10 then char_of (48 + n) else char_of (87 + n))"

definition hex_val :: "char \<Rightarrow> nat option" where
  "hex_val c =
     (let n = of_char c in
      if 48 \<le> n \<and> n \<le> 57 then Some (n - 48)
      else if 97 \<le> n \<and> n \<le> 102 then Some (n - 87)
      else if 65 \<le> n \<and> n \<le> 70 then Some (n - 55)
      else None)"

fun hex_encode :: "bytes \<Rightarrow> string" where
  "hex_encode [] = []"
| "hex_encode (b # bs) = hex_char (unat b div 16) # hex_char (unat b mod 16) # hex_encode bs"

text \<open>\<open>hex.DecodeString\<close>: \<open>None\<close> stands for either of its errors (odd length, bad digit).\<close>

fun hex_decode :: "string \<Rightarrow> bytes option" where
  "hex_decode [] = Some []"
| "hex_decode [c] = None"
| "hex_decode (c # d # cs) =
     (case (hex_val c, hex_val d, hex_decode cs) of
        (Some h, Some l, Some bs) \<Rightarrow> Some (of_nat (16 * h + l) # bs)
      | _ \<Rightarrow> None)"

lemma hex_val_hex_char [simp]: "n < 16 \<Longrightarrow> hex_val (hex_char n) = Some n"
  by (simp add: hex_val_def hex_char_def Let_def)

lemma unat_byte_lt: "unat (b :: byte) < 256"
  using unsigned_less [of b] by simp

lemma hex_decode_encode [simp]: "hex_decode (hex_encode bs) = Some bs"
proof (induction bs)
  case (Cons b bs)
  have "unat b div 16 < 16" using unat_byte_lt [of b] by simp
  with Cons show ?case by simp
qed simp

lemma hex_encode_inject [simp]: "hex_encode a = hex_encode b \<longleftrightarrow> a = b"
  by (metis hex_decode_encode option.inject)

lemma length_hex_encode [simp]: "length (hex_encode bs) = 2 * length bs"
  by (induction bs) auto

section \<open>JSON objects of numbers\<close>

text \<open>
  \<open>json.Marshal\<close> of a struct whose fields are unsigned integers: the fields in declaration
  order, no white space.
\<close>

definition json_key :: "string \<Rightarrow> string" where
  "json_key k = CHR 0x22 # k @ [CHR 0x22, CHR '':'']"

lemma digit_val_punct [simp]:
  "digit_val (CHR '','') = None" "digit_val (CHR 0x7D) = None" "digit_val (CHR 0x22) = None"
  by (simp_all add: digit_val_def)

fun json_fields :: "(string \<times> u64) list \<Rightarrow> string" where
  "json_fields [] = ''}''"
| "json_fields [(k, v)] = json_key k @ dec_nat (unat v) @ ''}''"
| "json_fields ((k, v) # kvs) = json_key k @ dec_nat (unat v) @ '','' @ json_fields kvs"

definition json_uints :: "(string \<times> u64) list \<Rightarrow> string" where
  "json_uints kvs = ''{'' @ json_fields kvs"

text \<open>
  A reader of exactly these texts, for the keys of a given struct. It serves as an instance of
  \<open>json.Unmarshal\<close> where a statement only relies on reading back what \<open>json.Marshal\<close> wrote.
\<close>

definition read_uint :: "string \<Rightarrow> (u64 \<times> string) option" where
  "read_uint s =
     (case ParseUint (takeWhile (\<lambda>c. digit_val c \<noteq> None) s) of
        None \<Rightarrow> None
      | Some v \<Rightarrow> Some (v, dropWhile (\<lambda>c. digit_val c \<noteq> None) s))"

fun read_fields :: "string list \<Rightarrow> string \<Rightarrow> u64 list option" where
  "read_fields [] s = (if s = ''}'' then Some [] else None)"
| "read_fields (k # ks) s =
     (if has_prefix s (json_key k) then
        case read_uint (trim_prefix s (json_key k)) of
          None \<Rightarrow> None
        | Some (v, t) \<Rightarrow> map_option ((#) v) (read_fields ks (if ks = [] then t else trim_prefix t '',''))
      else None)"

definition read_uints :: "string list \<Rightarrow> string \<Rightarrow> u64 list option" where
  "read_uints ks s = (if has_prefix s ''{'' then read_fields ks (trim_prefix s ''{'') else None)"

lemma read_uint_dec_nat:
  "digit_val c = None \<Longrightarrow> read_uint (dec_nat (unat v) @ c # s) = Some (v, c # s)"
  using digits_dec_nat [of _ "unat v"]
  by (simp add: read_uint_def takeWhile_append dropWhile_append)

lemma has_prefix_Cons [simp]: "has_prefix (c # s) (d # p) \<longleftrightarrow> c = d \<and> has_prefix s p"
  and has_prefix_Nil [simp]: "has_prefix s []"
  by (auto simp: has_prefix_def)

lemma read_fields_step:
  "digit_val c = None \<Longrightarrow> read_fields (k # ks) (json_key k @ dec_nat (unat v) @ c # t)
   = map_option ((#) v) (read_fields ks (if ks = [] then c # t else trim_prefix (c # t) '',''))"
  by (simp add: read_uint_dec_nat)

declare read_fields.simps(2) [simp del]

lemma read_fields_json: "read_fields (map fst kvs) (json_fields kvs) = Some (map snd kvs)"
proof (induction kvs rule: json_fields.induct)
  case (3 k v kv kvs)
  have "trim_prefix (CHR '','' # json_fields (kv # kvs)) '','' = json_fields (kv # kvs)"
    by (simp add: trim_prefix_def)
  with 3 show ?case by (simp add: read_fields_step)
qed (simp_all add: read_fields_step)

lemma read_uints_json: "read_uints (map fst kvs) (json_uints kvs) = Some (map snd kvs)"
  by (simp add: read_uints_def json_uints_def read_fields_json trim_prefix_def)

end
