(* ===== verification/Merkle.thy ===== *)
theory Merkle
  imports Prelude
begin

text \<open>
  The Merkle trees of \<open>internal/merkle\<close>: the SHA-256 tree of \<open>merkle.go\<close>, the BLAKE3 tree
  of \<open>blake3tree.go\<close> and the proof check \<open>ComputeBlake3Root\<close>. The hash functions are
  parameters. No function from byte strings to 32 bytes is injective, so collision freedom is
  never assumed outright: a statement that needs it asks that the hash be injective on the finite
  set of strings that the computations at hand actually hash (\<open>merkle_inputs\<close>,
  \<open>path_inputs\<close>).
\<close>

section \<open>The level-by-level climb shared by the trees\<close>

definition dup_last :: "'a list \<Rightarrow> 'a list" where
  "dup_last xs = (if odd (length xs) then xs @ [last xs] else xs)"

fun pair_nodes :: "('a \<Rightarrow> 'a \<Rightarrow> 'b) \<Rightarrow> 'a list \<Rightarrow> 'b list" where
  "pair_nodes f (a # b # xs) = f a b # pair_nodes f xs"
| "pair_nodes f _ = []"

definition level_up :: "('a \<Rightarrow> 'a \<Rightarrow> 'b) \<Rightarrow> 'a list \<Rightarrow> 'b list" where
  "level_up f xs = pair_nodes f (dup_last xs)"

lemma length_pair_nodes [simp]: "length (pair_nodes f xs) = length xs div 2"
  by (induction f xs rule: pair_nodes.induct) auto

lemma length_dup_last [simp]: "length (dup_last xs) = 2 * ((length xs + 1) div 2)"
  by (auto simp: dup_last_def elim!: oddE evenE)

lemma length_level_up [simp]: "length (level_up f xs) = (length xs + 1) div 2"
  by (simp add: level_up_def)

function climb :: "('a \<Rightarrow> 'a \<Rightarrow> 'a) \<Rightarrow> 'a list \<Rightarrow> 'a list" where
  "climb f level = (if length level > 1 then climb f (level_up f level) else level)"
  by pat_completeness auto
termination
  by (relation "measure (\<lambda>(f, level). length level)") auto

declare climb.simps [simp del]

lemma climb_short [simp]: "length xs \<le> 1 \<Longrightarrow> climb f xs = xs"
  by (subst climb.simps) simp

lemma climb_long: "1 < length xs \<Longrightarrow> climb f xs = climb f (level_up f xs)"
  by (subst climb.simps) simp

lemma length_climb: "xs \<noteq> [] \<Longrightarrow> length (climb f xs) = 1"
proof (induction f xs rule: climb.induct)
  case (1 f xs)
  show ?case
  proof (cases "1 < length xs")
    case True
    then have "level_up f xs \<noteq> []" by (simp flip: length_greater_0_conv)
    with True 1 show ?thesis by (simp add: climb_long)
  next
    case False
    with "1.prems" show ?thesis by (cases xs) auto
  qed
qed

lemma pair_nodes_nth: "2 * i + 1 < length xs \<Longrightarrow> pair_nodes f xs ! i = f (xs ! (2 * i)) (xs ! (2 * i + 1))"
proof (induction f xs arbitrary: i rule: pair_nodes.induct)
  case (1 f a b xs)
  then show ?case by (cases i) auto
qed auto

lemma set_pair_nodes:
  "set (pair_nodes f xs) \<subseteq> {f a b | a b. a \<in> set xs \<and> b \<in> set xs}"
  by (induction f xs rule: pair_nodes.induct) (auto, blast)

lemma set_dup_last [simp]: "set (dup_last xs) = set xs"
  by (cases xs rule: rev_cases) (auto simp: dup_last_def)

lemma dup_last_inject: "length xs = length ys \<Longrightarrow> dup_last xs = dup_last ys \<Longrightarrow> xs = ys"
  by (auto simp: dup_last_def split: if_splits)

section \<open>merkle.go\<close>

definition leafHash :: "(bytes \<Rightarrow> bytes) \<Rightarrow> bytes \<Rightarrow> bytes" where
  "leafHash sha b = sha (0x00 # b)"

definition innerHash :: "(bytes \<Rightarrow> bytes) \<Rightarrow> bytes \<Rightarrow> bytes \<Rightarrow> bytes" where
  "innerHash sha l r = sha (0x01 # l @ r)"

definition Root :: "(bytes \<Rightarrow> bytes) \<Rightarrow> bytes list \<Rightarrow> bytes" where
  "Root sha leaves =
     (if leaves = [] then sha [0x00]
      else hd (climb (innerHash sha) (map (leafHash sha) leaves)))"

section \<open>blake3tree.go\<close>

definition leafTag :: byte where "leafTag = 0x00"
definition innerTag :: byte where "innerTag = 0x01"

definition Blake3Leaf :: "(bytes \<Rightarrow> bytes) \<Rightarrow> bytes \<Rightarrow> bytes" where
  "Blake3Leaf b3 data = b3 (leafTag # data)"

definition Blake3Node :: "(bytes \<Rightarrow> bytes) \<Rightarrow> bytes \<Rightarrow> bytes \<Rightarrow> bytes" where
  "Blake3Node b3 left right = b3 (innerTag # left @ right)"

definition BytesTo32 :: "bytes \<Rightarrow> bytes result" where
  "BytesTo32 b = (if length b \<noteq> 32 then Inl ''expected 32 byte input'' else Inr b)"

fun proof_loop :: "(bytes \<Rightarrow> bytes) \<Rightarrow> bytes \<Rightarrow> bytes list \<Rightarrow> u8 list \<Rightarrow> bytes result" where
  "proof_loop b3 node (s # siblings) (d # directions) =
     (case BytesTo32 s of
        Inl e \<Rightarrow> Inl e
      | Inr sib \<Rightarrow>
          if d = 0 then proof_loop b3 (Blake3Node b3 node sib) siblings directions
          else if d = 1 then proof_loop b3 (Blake3Node b3 sib node) siblings directions
          else Inl ''merkle: invalid direction value'')"
| "proof_loop b3 node _ _ = Inr node"

definition ComputeBlake3Root ::
  "(bytes \<Rightarrow> bytes) \<Rightarrow> bytes \<Rightarrow> bytes list \<Rightarrow> u8 list \<Rightarrow> bytes result" where
  "ComputeBlake3Root b3 leaf siblings directions =
     (if length siblings \<noteq> length directions
      then Inl ''merkle: mismatched siblings/directions length''
      else proof_loop b3 leaf siblings directions)"

definition Blake3RootFromRaw :: "(bytes \<Rightarrow> bytes) \<Rightarrow> bytes list \<Rightarrow> bytes" where
  "Blake3RootFromRaw b3 rawLeaves =
     (if rawLeaves = [] then b3 [leafTag]
      else hd (climb (Blake3Node b3) (map (Blake3Leaf b3) rawLeaves)))"

section \<open>What the trees hash\<close>

function climb_inputs :: "('b \<Rightarrow> 'a) \<Rightarrow> ('a \<Rightarrow> 'a \<Rightarrow> 'b) \<Rightarrow> 'a list \<Rightarrow> 'b set" where
  "climb_inputs h ni level =
     (if length level > 1
      then set (level_up ni level) \<union> climb_inputs h ni (level_up (\<lambda>a b. h (ni a b)) level)
      else {})"
  by pat_completeness auto
termination
  by (relation "measure (\<lambda>(h, ni, level). length level)") auto

declare climb_inputs.simps [simp del]

lemma climb_inputs_short [simp]: "length xs \<le> 1 \<Longrightarrow> climb_inputs h ni xs = {}"
  by (subst climb_inputs.simps) simp

lemma climb_inputs_long:
  "1 < length xs \<Longrightarrow> climb_inputs h ni xs =
     set (level_up ni xs) \<union> climb_inputs h ni (level_up (\<lambda>a b. h (ni a b)) xs)"
  by (subst climb_inputs.simps) simp

definition leaf_in :: "bytes \<Rightarrow> bytes" where "leaf_in d = leafTag # d"
definition node_in :: "bytes \<Rightarrow> bytes \<Rightarrow> bytes" where "node_in l r = innerTag # l @ r"

definition merkle_inputs :: "(bytes \<Rightarrow> bytes) \<Rightarrow> bytes list \<Rightarrow> bytes set" where
  "merkle_inputs h raw =
     (if raw = [] then {[leafTag]}
      else leaf_in ` set raw \<union> climb_inputs h node_in (map (\<lambda>d. h (leaf_in d)) raw))"

text \<open>
  The generic form of a proof check: \<open>True\<close> marks a sibling on the left. \<open>path_inputs\<close>
  collects what it hashes.
\<close>

fun path_fold :: "('b \<Rightarrow> 'a) \<Rightarrow> ('a \<Rightarrow> 'a \<Rightarrow> 'b) \<Rightarrow> 'a \<Rightarrow> ('a \<times> bool) list \<Rightarrow> 'a" where
  "path_fold h ni node [] = node"
| "path_fold h ni node ((s, left) # ps) =
     path_fold h ni (h (if left then ni s node else ni node s)) ps"

fun path_inputs :: "('b \<Rightarrow> 'a) \<Rightarrow> ('a \<Rightarrow> 'a \<Rightarrow> 'b) \<Rightarrow> 'a \<Rightarrow> ('a \<times> bool) list \<Rightarrow> 'b set" where
  "path_inputs h ni node [] = {}"
| "path_inputs h ni node ((s, left) # ps) =
     (let x = (if left then ni s node else ni node s) in insert x (path_inputs h ni (h x) ps))"

lemma Blake3_as_inputs:
  "Blake3Leaf b3 = (\<lambda>d. b3 (leaf_in d))" "Blake3Node b3 = (\<lambda>l r. b3 (node_in l r))"
  by (simp_all add: fun_eq_iff Blake3Leaf_def Blake3Node_def leaf_in_def node_in_def)

lemma Root_as_inputs:
  "leafHash sha = (\<lambda>d. sha (leaf_in d))" "innerHash sha = (\<lambda>l r. sha (node_in l r))"
  by (simp_all add: fun_eq_iff leafHash_def innerHash_def leaf_in_def node_in_def
      leafTag_def innerTag_def)

lemma proof_loop_Inr:
  assumes "proof_loop b3 node ss ds = Inr r" and "length ss = length ds"
  shows "r = path_fold b3 node_in node (zip ss (map ((=) 1) ds))
    \<and> (\<forall>s \<in> set ss. length s = 32) \<and> set ds \<subseteq> {0, 1}"
  using assms(2,1)
proof (induction ss ds arbitrary: node rule: list_induct2)
  case (Cons s ss d ds)
  then show ?case
    by (auto simp: BytesTo32_def Blake3_as_inputs split: if_splits)
qed simp

section \<open>Soundness and binding, once for every tagged encoding\<close>

text \<open>The nodes of a tree over the payloads \<open>S\<close>, all of whose hash inputs lie in \<open>A\<close>.\<close>

inductive tree_node ::
  "('b \<Rightarrow> 'a) \<Rightarrow> ('d \<Rightarrow> 'b) \<Rightarrow> ('a \<Rightarrow> 'a \<Rightarrow> 'b) \<Rightarrow> 'd set \<Rightarrow> 'b set \<Rightarrow> 'a \<Rightarrow> bool"
  for h li ni S A where
  leaf: "x \<in> S \<Longrightarrow> li x \<in> A \<Longrightarrow> tree_node h li ni S A (h (li x))"
| inner: "tree_node h li ni S A a \<Longrightarrow> tree_node h li ni S A b \<Longrightarrow> ni a b \<in> A \<Longrightarrow>
     tree_node h li ni S A (h (ni a b))"

lemma level_up_tree_node:
  assumes "\<forall>x \<in> set xs. tree_node h li ni S A x" and "set (level_up ni xs) \<subseteq> A"
  shows "\<forall>y \<in> set (level_up (\<lambda>a b. h (ni a b)) xs). tree_node h li ni S A y"
proof -
  have "\<forall>y \<in> set (pair_nodes (\<lambda>a b. h (ni a b)) zs). tree_node h li ni S A y"
    if "\<forall>x \<in> set zs. tree_node h li ni S A x" "set (pair_nodes ni zs) \<subseteq> A" for zs
    using that by (induction ni zs rule: pair_nodes.induct) (auto intro: tree_node.inner)
  from this [of "dup_last xs"] assms show ?thesis by (simp add: level_up_def)
qed

lemma climb_tree_node:
  assumes "\<forall>x \<in> set xs. tree_node h li ni S A x" and "climb_inputs h ni xs \<subseteq> A"
    and "y \<in> set (climb (\<lambda>a b. h (ni a b)) xs)"
  shows "tree_node h li ni S A y"
  using assms
proof (induction h ni xs rule: climb_inputs.induct)
  case (1 h ni xs)
  show ?case
  proof (cases "1 < length xs")
    case True
    from "1.prems"(2) True have "set (level_up ni xs) \<subseteq> A"
      and rest: "climb_inputs h ni (level_up (\<lambda>a b. h (ni a b)) xs) \<subseteq> A"
      by (auto simp: climb_inputs_long)
    with "1.prems"(1) have "\<forall>x \<in> set (level_up (\<lambda>a b. h (ni a b)) xs). tree_node h li ni S A x"
      by (intro level_up_tree_node)
    from "1.IH" [OF True this rest] "1.prems"(3) True show ?thesis by (simp add: climb_long)
  next
    case False
    with "1.prems" show ?thesis by simp
  qed
qed

text \<open>
  The law of an encoding of inner nodes: a node input determines its two 32-byte children. It is
  enough for binding: equally long levels with equal roots are equal.
\<close>

locale node_encoding =
  fixes ni :: "bytes \<Rightarrow> bytes \<Rightarrow> bytes"
  assumes ni_inject: "length a = 32 \<Longrightarrow> length a' = 32 \<Longrightarrow> length b = 32 \<Longrightarrow> length b' = 32 \<Longrightarrow>
    ni a b = ni a' b' \<Longrightarrow> a = a' \<and> b = b'"
begin

lemma pair_nodes_inject:
  assumes "even (length xs)" "length xs = length ys"
    and "\<forall>x \<in> set xs \<union> set ys. length x = 32"
    and "inj_on h (set (pair_nodes ni xs) \<union> set (pair_nodes ni ys))"
    and "pair_nodes (\<lambda>a b. h (ni a b)) xs = pair_nodes (\<lambda>a b. h (ni a b)) ys"
  shows "xs = ys"
  using assms
proof (induction xs arbitrary: ys rule: induct_list012)
  case (3 a b xs)
  then obtain c d zs where ys: "ys = c # d # zs"
    by (metis Suc_length_conv length_Cons)
  have "h (ni a b) = h (ni c d)"
    and eq: "pair_nodes (\<lambda>a b. h (ni a b)) xs = pair_nodes (\<lambda>a b. h (ni a b)) zs"
    using "3.prems"(5) by (auto simp: ys)
  then have "ni a b = ni c d"
    using inj_onD [OF "3.prems"(4), of "ni a b" "ni c d"] by (simp add: ys)
  then have "a = c \<and> b = d" using ni_inject [of a c b d] "3.prems"(3) by (simp add: ys)
  moreover have inj: "inj_on h (set (pair_nodes ni xs) \<union> set (pair_nodes ni zs))"
    by (rule inj_on_subset [OF "3.prems"(4)]) (auto simp: ys)
  have "even (length xs)" "length xs = length zs" "\<forall>x \<in> set xs \<union> set zs. length x = 32"
    using "3.prems"(1-3) by (simp_all add: ys)
  from "3.IH"(1) [OF this inj eq] have "xs = zs" .
  ultimately show ?case by (simp add: ys)
qed auto

lemma level_up_inject:
  assumes "length xs = length ys" and "\<forall>x \<in> set xs \<union> set ys. length x = 32"
    and "inj_on h (set (level_up ni xs) \<union> set (level_up ni ys))"
    and "level_up (\<lambda>a b. h (ni a b)) xs = level_up (\<lambda>a b. h (ni a b)) ys"
  shows "xs = ys"
proof (rule dup_last_inject)
  show "dup_last xs = dup_last ys"
    using assms by (intro pair_nodes_inject [of _ _ h]) (simp_all add: level_up_def)
qed (fact assms(1))

lemma climb_inject:
  assumes len: "\<And>x. length (h x) = 32"
    and "length xs = length ys" and "\<forall>x \<in> set xs \<union> set ys. length x = 32"
    and "inj_on h (climb_inputs h ni xs \<union> climb_inputs h ni ys)"
    and "climb (\<lambda>a b. h (ni a b)) xs = climb (\<lambda>a b. h (ni a b)) ys"
  shows "xs = ys"
  using assms(2-)
proof (induction "length xs" arbitrary: xs ys rule: less_induct)
  case less
  let ?up = "level_up (\<lambda>a b. h (ni a b))"
  show ?case
  proof (cases "1 < length xs")
    case True
    then have inputs: "climb_inputs h ni xs = set (level_up ni xs) \<union> climb_inputs h ni (?up xs)"
      "climb_inputs h ni ys = set (level_up ni ys) \<union> climb_inputs h ni (?up ys)"
      using less.prems(1) by (simp_all add: climb_inputs_long)
    have up32: "\<forall>x \<in> set (?up zs). length x = 32" for zs
      using set_pair_nodes [of "\<lambda>a b. h (ni a b)" "dup_last zs"] len
      by (auto simp: level_up_def)
    have "?up xs = ?up ys"
    proof (rule less.hyps)
      show "length (?up xs) < length xs" using True by simp
      show "inj_on h (climb_inputs h ni (?up xs) \<union> climb_inputs h ni (?up ys))"
        by (rule inj_on_subset [OF less.prems(3)]) (auto simp: inputs)
    qed (use less.prems up32 True in \<open>auto simp: climb_long\<close>)
    moreover have "inj_on h (set (level_up ni xs) \<union> set (level_up ni ys))"
      by (rule inj_on_subset [OF less.prems(3)]) (auto simp: inputs)
    ultimately show ?thesis using less.prems(1,2) by (intro level_up_inject)
  next
    case False
    with less.prems show ?thesis by simp
  qed
qed

end

text \<open>
  A domain-separated encoding also has leaf inputs that determine their payload, and no leaf
  input is a node input. Then a path to the root starts at a leaf of the tree.
\<close>

locale merkle_encoding = node_encoding ni for ni +
  fixes li :: "'d \<Rightarrow> bytes"
  assumes li_inject: "li x = li y \<Longrightarrow> x = y"
    and separated: "li x \<noteq> ni a b"
begin

lemma tree_node_length:
  "(\<And>x. length (h x) = 32) \<Longrightarrow> tree_node h li ni S A n \<Longrightarrow> length n = (32::nat)"
  by (auto elim: tree_node.cases)

lemma path_down:
  assumes len: "\<And>x. length (h x) = 32"
    and "tree_node h li ni S A (path_fold h ni n ps)" and "length n = 32"
    and "\<forall>(s, l) \<in> set ps. length s = 32"
    and "inj_on h (A \<union> path_inputs h ni n ps)"
  shows "tree_node h li ni S A n"
  using assms(2-)
proof (induction ps arbitrary: n)
  case (Cons p ps)
  obtain s left where p: "p = (s, left)" by (cases p)
  define x where "x = (if left then ni s n else ni n s)"
  have all: "inj_on h (A \<union> insert x (path_inputs h ni (h x) ps))"
    using Cons.prems(4) by (simp add: p x_def Let_def)
  have inj: "inj_on h (A \<union> path_inputs h ni (h x) ps)" and xA: "inj_on h (insert x A)"
    by (rule inj_on_subset [OF all], blast)+
  have "tree_node h li ni S A (h x)"
  proof (rule Cons.IH)
    show "tree_node h li ni S A (path_fold h ni (h x) ps)"
      using Cons.prems(1) by (simp add: p x_def)
  qed (use Cons.prems(3) inj len in \<open>simp_all add: p\<close>)
  then show ?case
  proof (cases rule: tree_node.cases)
    case (leaf y)
    with xA have "x = li y" by (auto dest: inj_onD)
    then show ?thesis using separated by (metis x_def)
  next
    case (inner a b)
    with xA have "x = ni a b" by (auto dest: inj_onD)
    moreover have "length a = 32" "length b = 32"
      using tree_node_length [of h, OF len inner(2)] tree_node_length [of h, OF len inner(3)] .
    ultimately have "n = a \<or> n = b"
      using ni_inject [of s a n b] ni_inject [of n a s b] Cons.prems(2,3)
      by (auto simp: p x_def split: if_splits)
    with inner show ?thesis by auto
  qed
qed simp

lemma path_sound:
  assumes len: "\<And>x. length (h x) = 32"
    and top: "tree_node h li ni S A (path_fold h ni (h (li d)) ps)"
    and sib: "\<forall>(s, l) \<in> set ps. length s = 32"
    and inj: "inj_on h (A \<union> insert (li d) (path_inputs h ni (h (li d)) ps))"
  shows "d \<in> S"
proof -
  have dA: "inj_on h (insert (li d) A)" and "inj_on h (A \<union> path_inputs h ni (h (li d)) ps)"
    by (rule inj_on_subset [OF inj], blast)+
  from this(2) have "tree_node h li ni S A (h (li d))" by (rule path_down [OF len top len sib])
  then show ?thesis
  proof (cases rule: tree_node.cases)
    case (leaf x)
    with dA have "li d = li x" by (auto dest: inj_onD)
    with leaf show ?thesis using li_inject by blast
  next
    case (inner a b)
    with dA have "li d = ni a b" by (auto dest: inj_onD)
    then show ?thesis using separated by blast
  qed
qed

end

interpretation tagged: merkle_encoding node_in leaf_in
  by unfold_locales (auto simp: leaf_in_def node_in_def leafTag_def innerTag_def)

section \<open>Facts about the roots\<close>

lemma Blake3RootFromRaw_node:
  assumes "raw \<noteq> []"
  shows "tree_node b3 leaf_in node_in (set raw) (merkle_inputs b3 raw) (Blake3RootFromRaw b3 raw)"
proof -
  let ?ls = "map (\<lambda>d. b3 (leaf_in d)) raw"
  have "hd (climb (\<lambda>a b. b3 (node_in a b)) ?ls) \<in> set (climb (\<lambda>a b. b3 (node_in a b)) ?ls)"
    using assms length_climb [of ?ls "\<lambda>a b. b3 (node_in a b)"] by (intro hd_in_set) auto
  moreover have "\<forall>x \<in> set ?ls. tree_node b3 leaf_in node_in (set raw) (merkle_inputs b3 raw) x"
    using assms by (auto simp: merkle_inputs_def intro: tree_node.leaf)
  moreover have "climb_inputs b3 node_in ?ls \<subseteq> merkle_inputs b3 raw"
    using assms by (simp add: merkle_inputs_def)
  ultimately have "tree_node b3 leaf_in node_in (set raw) (merkle_inputs b3 raw)
      (hd (climb (\<lambda>a b. b3 (node_in a b)) ?ls))"
    by (intro climb_tree_node [where xs = ?ls])
  then show ?thesis using assms by (simp add: Blake3RootFromRaw_def Blake3_as_inputs)
qed

section \<open>Honest proofs\<close>

text \<open>
  The repository only checks proofs; \<open>merkle_path\<close> is the proof an honest prover reads off the
  levels of the tree, sibling by sibling.
\<close>

function merkle_path :: "('a \<Rightarrow> 'a \<Rightarrow> 'a) \<Rightarrow> nat \<Rightarrow> 'a list \<Rightarrow> ('a \<times> bool) list" where
  "merkle_path f i level =
     (if length level > 1
      then (if even i then (dup_last level ! (i + 1), False) else (dup_last level ! (i - 1), True))
           # merkle_path f (i div 2) (level_up f level)
      else [])"
  by pat_completeness auto
termination
  by (relation "measure (\<lambda>(f, i, level). length level)") auto

declare merkle_path.simps [simp del]

lemma dup_last_nth: "i < length xs \<Longrightarrow> dup_last xs ! i = xs ! i"
  by (simp add: dup_last_def nth_append)

lemma level_up_nth:
  assumes "i < length xs"
  shows "level_up f xs ! (i div 2) =
    (if even i then f (xs ! i) (dup_last xs ! (i + 1)) else f (dup_last xs ! (i - 1)) (xs ! i))"
proof -
  have "2 * (i div 2) + 1 < length (dup_last xs)" using assms by simp presburger
  then show ?thesis
    using assms by (auto simp: level_up_def pair_nodes_nth dup_last_nth elim!: evenE oddE)
qed

lemma path_fold_merkle_path:
  "i < length xs \<Longrightarrow>
   path_fold h ni (xs ! i) (merkle_path (\<lambda>a b. h (ni a b)) i xs)
   = hd (climb (\<lambda>a b. h (ni a b)) xs)"
proof (induction "\<lambda>a b. h (ni a b)" i xs rule: merkle_path.induct)
  case (1 i xs)
  let ?f = "\<lambda>a b. h (ni a b)"
  show ?case
  proof (cases "1 < length xs")
    case True
    from "1.prems" have "i div 2 < length (level_up ?f xs)" by simp
    with "1.hyps" True "1.prems" show ?thesis
      by (auto simp: merkle_path.simps [of ?f i xs] climb_long level_up_nth split: if_splits)
  next
    case False
    with "1.prems" have "i = 0" "length xs = 1" by auto
    then show ?thesis by (cases xs) (simp_all add: merkle_path.simps)
  qed
qed

lemma merkle_path_siblings:
  "i < length xs \<Longrightarrow> \<forall>x \<in> set xs. P x \<Longrightarrow> (\<And>a b. P (f a b)) \<Longrightarrow>
   (s, l) \<in> set (merkle_path f i xs) \<Longrightarrow> P s"
proof (induction f i xs rule: merkle_path.induct)
  case (1 f i xs)
  show ?case
  proof (cases "1 < length xs")
    case True
    have up: "i div 2 < length (level_up f xs)" using "1.prems"(1) by simp
    have P_up: "\<forall>x \<in> set (level_up f xs). P x"
      using set_pair_nodes [of f "dup_last xs"] "1.prems"(3) by (auto simp: level_up_def)
    have "dup_last xs ! j \<in> set xs" if "j < length (dup_last xs)" for j
      using nth_mem [OF that] by simp
    moreover have "i + 1 < length (dup_last xs)" if "even i"
      using that "1.prems"(1) by simp presburger
    ultimately show ?thesis
      using True "1.IH" [OF True up P_up "1.prems"(3)] "1.prems"
      by (auto simp: merkle_path.simps [of f i xs] split: if_splits)
  next
    case False
    with "1.prems"(4) show ?thesis by (simp add: merkle_path.simps [of f i xs])
  qed
qed

definition dir_of :: "bool \<Rightarrow> u8" where
  "dir_of left = (if left then 1 else 0)"

lemma proof_loop_path:
  "\<forall>(s, l) \<in> set ps. length s = 32 \<Longrightarrow>
   proof_loop b3 node (map fst ps) (map (dir_of \<circ> snd) ps) = Inr (path_fold b3 node_in node ps)"
  by (induction ps arbitrary: node) (auto simp: dir_of_def BytesTo32_def Blake3_as_inputs)

text \<open>The check returns the root on the honest path of every leaf.\<close>

lemma honest_path:
  assumes "\<And>x. length (b3 x) = 32" and "i < length raw"
  shows "ComputeBlake3Root b3 (Blake3Leaf b3 (raw ! i))
      (map fst (merkle_path (Blake3Node b3) i (map (Blake3Leaf b3) raw)))
      (map (dir_of \<circ> snd) (merkle_path (Blake3Node b3) i (map (Blake3Leaf b3) raw)))
    = Inr (Blake3RootFromRaw b3 raw)"
proof -
  let ?ls = "map (Blake3Leaf b3) raw"
  define p where "p = merkle_path (Blake3Node b3) i ?ls"
  have "\<forall>(s, l) \<in> set p. length s = 32"
    using merkle_path_siblings [of i ?ls "\<lambda>x. length x = 32" "Blake3Node b3"] assms
    by (auto simp: Blake3_as_inputs p_def)
  moreover have "path_fold b3 node_in (?ls ! i) p = hd (climb (Blake3Node b3) ?ls)"
    using path_fold_merkle_path [of i ?ls b3 node_in] assms(2) by (simp add: Blake3_as_inputs p_def)
  ultimately show ?thesis
    unfolding p_def [symmetric]
    using assms(2) by (auto simp: ComputeBlake3Root_def Blake3RootFromRaw_def proof_loop_path)
qed

text \<open>Equal roots of equally long lists come from equal lists.\<close>

lemma Blake3Root_distinct:
  assumes "\<And>x. length (b3 x) = 32" and "length xs = length ys" and "xs \<noteq> ys"
    and "inj_on b3 (merkle_inputs b3 xs \<union> merkle_inputs b3 ys)"
  shows "Blake3RootFromRaw b3 xs \<noteq> Blake3RootFromRaw b3 ys"
proof
  assume eq: "Blake3RootFromRaw b3 xs = Blake3RootFromRaw b3 ys"
  have ne: "xs \<noteq> []" "ys \<noteq> []" using assms(2,3) by auto
  let ?l = "map (\<lambda>d. b3 (leaf_in d))" and ?c = "climb (\<lambda>a b. b3 (node_in a b))"
  have "length (?c (?l xs)) = 1" "length (?c (?l ys)) = 1" using ne by (simp_all add: length_climb)
  with eq ne have "?c (?l xs) = ?c (?l ys)"
    by (auto simp: Blake3RootFromRaw_def Blake3_as_inputs length_Suc_conv)
  moreover have "inj_on b3 (climb_inputs b3 node_in (?l xs) \<union> climb_inputs b3 node_in (?l ys))"
    by (rule inj_on_subset [OF assms(4)]) (use ne in \<open>auto simp: merkle_inputs_def\<close>)
  ultimately have "?l xs = ?l ys"
    using assms(1,2) tagged.climb_inject [of b3 "?l xs" "?l ys", OF assms(1)] by auto
  then have "map leaf_in xs = map leaf_in ys"
    using inj_on_map_eq_map [of b3 "map leaf_in xs" "map leaf_in ys"] ne
      inj_on_subset [OF assms(4), of "leaf_in ` set xs \<union> leaf_in ` set ys"]
    by (auto simp: merkle_inputs_def comp_def)
  then show False
    using assms(3) tagged.li_inject by (metis inj_map_eq_map injI)
qed

section \<open>Properties of the trees\<close>

text \<open>
  Fact. Completeness of the proof check: for every position of a non-empty list of raw
  leaves, the siblings on the way from that leaf to the top make \<open>ComputeBlake3Root\<close> return
  exactly \<open>Blake3RootFromRaw\<close> of the list, including at the levels whose odd last node is
  duplicated. \<open>b3\<close> is any function with 32-byte results.
\<close>

theorem ComputeBlake3Root_complete:
  assumes "\<And>x. length (b3 x) = 32" and "i < length raw"
    and "p = merkle_path (Blake3Node b3) i (map (Blake3Leaf b3) raw)"
  shows "ComputeBlake3Root b3 (Blake3Leaf b3 (raw ! i)) (map fst p) (map (dir_of \<circ> snd) p)
         = Inr (Blake3RootFromRaw b3 raw)"
  using honest_path [OF assms(1,2)] assms(3) by simp

text \<open>A 32-byte stand-in for the hash, for concrete instances: a one-byte checksum, padded.\<close>

definition toy_hash :: "bytes \<Rightarrow> bytes" where
  "toy_hash x = foldl (\<lambda>a b. 3 * a + b) 1 x # replicate 31 0"

lemma length_toy_hash [simp]: "length (toy_hash x) = 32"
  by (simp add: toy_hash_def)

theorem ComputeBlake3Root_complete_witness:
  "\<exists>p. ComputeBlake3Root toy_hash (Blake3Leaf toy_hash [7]) (map fst p) (map (dir_of \<circ> snd) p)
       = Inr (Blake3RootFromRaw toy_hash [[5], [6], [7]])"
  using ComputeBlake3Root_complete [of toy_hash 2 "[[5], [6], [7]]", OF length_toy_hash _ refl]
  by (intro exI) simp

text \<open>
  Fact. Binding: two different leaf lists of the same length have different BLAKE3 roots,
  provided the hash is injective on the strings hashed while building the two trees.
\<close>

theorem Blake3Root_binding:
  assumes "\<And>x. length (b3 x) = 32" and "length xs = length ys" and "xs \<noteq> ys"
    and "inj_on b3 (merkle_inputs b3 xs \<union> merkle_inputs b3 ys)"
  shows "Blake3RootFromRaw b3 xs \<noteq> Blake3RootFromRaw b3 ys"
  using assms by (rule Blake3Root_distinct)

theorem Blake3Root_binding_witness:
  "Blake3RootFromRaw toy_hash [[1], [2]] \<noteq> Blake3RootFromRaw toy_hash [[1], [3]]"
proof (rule Blake3Root_binding)
  let ?L = "\<lambda>x. leaf_in [x]" and ?N = "\<lambda>x y. node_in (toy_hash (leaf_in [x])) (toy_hash (leaf_in [y]))"
  have "merkle_inputs toy_hash [[1], [2]] \<union> merkle_inputs toy_hash [[1], [3]]
      = set [?L 1, ?L 2, ?L 3, ?N 1 2, ?N 1 3]"
    by (auto simp: merkle_inputs_def climb_inputs.simps level_up_def dup_last_def)
  moreover have "inj_on toy_hash (set [?L 1, ?L 2, ?L 3, ?N 1 2, ?N 1 3])"
    unfolding inj_on_set_iff by code_simp
  ultimately show "inj_on toy_hash
      (merkle_inputs toy_hash [[1], [2]] \<union> merkle_inputs toy_hash [[1], [3]])"
    by (simp only:)
qed simp_all

text \<open>
  Fact. A leaf list and the same list with its last leaf repeated have the same root
  whenever its length is odd and more than one: the length hypothesis of the binding property
  cannot be dropped, because the code completes an odd level by duplicating its last node.
\<close>

theorem Blake3Root_odd_duplicate:
  assumes "odd (length xs)" and "1 < length xs"
  shows "Blake3RootFromRaw b3 (xs @ [last xs]) = Blake3RootFromRaw b3 xs"
proof -
  have "dup_last (map (Blake3Leaf b3) (xs @ [last xs])) = dup_last (map (Blake3Leaf b3) xs)"
    using assms by (cases "xs = []") (auto simp: dup_last_def last_map)
  then have "level_up (Blake3Node b3) (map (Blake3Leaf b3) (xs @ [last xs]))
      = level_up (Blake3Node b3) (map (Blake3Leaf b3) xs)"
    by (simp only: level_up_def)
  then show ?thesis
    using assms by (auto simp: Blake3RootFromRaw_def climb_long)
qed

theorem Blake3Root_odd_duplicate_witness:
  "Blake3RootFromRaw toy_hash [[1], [2], [3], [3]] = Blake3RootFromRaw toy_hash [[1], [2], [3]]"
  using Blake3Root_odd_duplicate [of "[[1], [2], [3]]" toy_hash] by simp

end
