(* ===== verification/State.thy ===== *)
theory State
  imports Go_Strings Merkle
begin

text \<open>
  \<open>internal/state\<close>: the account table with its transfer rule, the key/value side store, and
  the state root of \<open>merkle.go\<close>. The mutex is held for the whole of every method, so a method
  is one step on the record. \<open>db.get\<close> inserts an empty account on a miss; every method that
  calls it therefore returns the changed database, the readers included. Three maps of the
  database hold types that depend on the build: empty structs by default
  (\<open>legacy_types_stub.go\<close>), the records of \<open>reward.go\<close> under the tag \<open>legacy_penalty\<close>. The
  record takes them as type parameters; \<open>Legacy_State\<close> instantiates it for the tag.
\<close>

section \<open>state.go\<close>

record Account =
  acc_balance :: u64
  acc_nonce :: u64

record ('score, 'payout, 'summary) DB_of =
  accts :: "(string, Account) gomap"
  feeReceiver :: string
  kv :: "(string, bytes) gomap"
  validatorScores :: "(string, 'score) gomap"
  epochPayouts :: "(u64, (string, 'payout) gomap) gomap"
  epochSummaries :: "(u64, 'summary) gomap"

text \<open>The default build: \<open>ValidatorScoreRecord\<close>, \<open>ValidatorPayoutRecord\<close> and
  \<open>EpochRewardSummary\<close> of \<open>legacy_types_stub.go\<close> are empty structs.\<close>

type_synonym empty_struct = unit

type_synonym DB = "(empty_struct, empty_struct, empty_struct) DB_of"

definition zeroAccount :: Account where
  "zeroAccount = \<lparr>acc_balance = 0, acc_nonce = 0\<rparr>"

definition NewDB :: "('score, 'payout, 'summary) DB_of" where
  "NewDB = \<lparr>accts = [], feeReceiver = [], kv = [], validatorScores = [], epochPayouts = [], epochSummaries = []\<rparr>"

definition SetFeeReceiver :: "string \<Rightarrow> DB \<Rightarrow> DB" where
  "SetFeeReceiver addr db = db\<lparr>feeReceiver := addr\<rparr>"

definition db_get :: "string \<Rightarrow> DB \<Rightarrow> Account \<times> DB" where
  "db_get addr db =
     (case map_of (accts db) addr of
        Some acc \<Rightarrow> (acc, db)
      | None \<Rightarrow> (zeroAccount, db\<lparr>accts := AList.update addr zeroAccount (accts db)\<rparr>))"

text \<open>Writing through the pointer that \<open>db.get\<close> returned.\<close>

definition put_account :: "string \<Rightarrow> Account \<Rightarrow> DB \<Rightarrow> DB" where
  "put_account addr acc db = db\<lparr>accts := AList.update addr acc (accts db)\<rparr>"

text \<open>\<open>db.get(addr).Balance += amount\<close>\<close>

definition credit :: "string \<Rightarrow> u64 \<Rightarrow> DB \<Rightarrow> DB" where
  "credit addr amount db =
     (let (acc, db') = db_get addr db
      in put_account addr (acc\<lparr>acc_balance := acc_balance acc + amount\<rparr>) db')"

definition InitGenesis :: "(string, u64) gomap \<Rightarrow> DB \<Rightarrow> DB" where
  "InitGenesis balances db = fold (\<lambda>(addr, amt). credit addr amt) balances db"

definition AddBalance :: "string \<Rightarrow> u64 \<Rightarrow> DB \<Rightarrow> DB" where
  "AddBalance addr amount db = (if amount = 0 then db else credit addr amount db)"

definition ApplyTransfer ::
  "string \<Rightarrow> string \<Rightarrow> u64 \<Rightarrow> u64 \<Rightarrow> u64 \<Rightarrow> DB \<Rightarrow> unit result \<times> DB" where
  "ApplyTransfer from to amount fee nonce db =
     (let (fa, db1) = db_get from db in
      if acc_nonce fa + 1 \<noteq> nonce then (Inl ''bad_nonce'', db1)
      else let need = amount + fee in
        if acc_balance fa < need then (Inl ''insufficient_funds'', db1)
        else
          let db2 = put_account from
                (fa\<lparr>acc_balance := acc_balance fa - need, acc_nonce := acc_nonce fa + 1\<rparr>) db1;
              db3 = credit to amount db2
          in (Inr (),
              if feeReceiver db3 \<noteq> [] then credit (feeReceiver db3) fee db3 else db3))"

definition GetAccount :: "string \<Rightarrow> DB \<Rightarrow> Account \<times> DB" where
  "GetAccount addr db = db_get addr db"

definition Snapshot :: "DB \<Rightarrow> (string, Account) gomap" where
  "Snapshot db = map (\<lambda>(k, v). (k, v)) (accts db)"

definition Restore :: "(string, Account) gomap \<Rightarrow> DB \<Rightarrow> DB" where
  "Restore m db = db\<lparr>accts := fold (\<lambda>(k, v). AList.update k v) m []\<rparr>"

definition SetKey :: "string \<Rightarrow> bytes \<Rightarrow> DB \<Rightarrow> DB" where
  "SetKey key val db = db\<lparr>kv := AList.update key val (kv db)\<rparr>"

definition GetKey :: "string \<Rightarrow> DB \<Rightarrow> bytes option" where
  "GetKey key db = map_of (kv db) key"

definition DeleteKey :: "string \<Rightarrow> DB \<Rightarrow> DB" where
  "DeleteKey key db = db\<lparr>kv := AList.delete key (kv db)\<rparr>"

text \<open>The callback threads a state \<open>st\<close> and stops the loop by returning \<open>False\<close>.\<close>

fun range_loop :: "string \<Rightarrow> (string \<Rightarrow> bytes \<Rightarrow> 's \<Rightarrow> bool \<times> 's) \<Rightarrow> (string, bytes) gomap \<Rightarrow> 's \<Rightarrow> 's" where
  "range_loop prefix fn [] st = st"
| "range_loop prefix fn ((k, v) # rest) st =
     (if \<not> has_prefix k prefix then range_loop prefix fn rest st
      else case fn k v st of
        (True, st') \<Rightarrow> range_loop prefix fn rest st'
      | (False, st') \<Rightarrow> st')"

definition RangePrefix :: "string \<Rightarrow> (string \<Rightarrow> bytes \<Rightarrow> 's \<Rightarrow> bool \<times> 's) \<Rightarrow> DB \<Rightarrow> 's \<Rightarrow> 's" where
  "RangePrefix prefix fn db st = range_loop prefix fn (kv db) st"

section \<open>merkle.go\<close>

definition account_json :: "Account \<Rightarrow> string" where
  "account_json a =
     ''{'' @ json_key ''balance'' @ dec_nat (unat (acc_balance a)) @
     '','' @ json_key ''nonce'' @ dec_nat (unat (acc_nonce a)) @ ''}''"

definition state_leaf :: "string \<Rightarrow> Account \<Rightarrow> bytes" where
  "state_leaf addr acc =
     bytes_of ''account/'' @ bytes_of addr @ [0x00] @ bytes_of (account_json acc)"

definition state_leaves :: "(string, Account) gomap \<Rightarrow> bytes list" where
  "state_leaves snapshot =
     map (\<lambda>addr. state_leaf addr
           (case map_of snapshot addr of None \<Rightarrow> zeroAccount | Some acc \<Rightarrow> acc))
       (sort (map fst snapshot))"

definition StateRoot :: "(bytes \<Rightarrow> bytes) \<Rightarrow> DB \<Rightarrow> bytes" where
  "StateRoot b3 db =
     (let snapshot = Snapshot db
      in if snapshot = [] then Blake3RootFromRaw b3 []
         else Blake3RootFromRaw b3 (state_leaves snapshot))"

section \<open>What a caller sees: accounts and the total balance\<close>

definition acct :: "DB \<Rightarrow> string \<Rightarrow> Account" where
  "acct db addr = (case map_of (accts db) addr of None \<Rightarrow> zeroAccount | Some a \<Rightarrow> a)"

definition total_balance :: "DB \<Rightarrow> nat" where
  "total_balance db = gm_total (unat \<circ> acc_balance) (accts db)"

definition db_wf :: "DB \<Rightarrow> bool" where
  "db_wf db \<longleftrightarrow> gm_wf (accts db) \<and> gm_wf (kv db)"

lemma zeroAccount_simps [simp]: "acc_balance zeroAccount = 0" "acc_nonce zeroAccount = 0"
  by (simp_all add: zeroAccount_def)

lemma Snapshot_accts [simp]: "Snapshot db = accts db"
  by (simp add: Snapshot_def)

lemma fst_db_get [simp]: "fst (db_get addr db) = acct db addr"
  by (simp add: db_get_def acct_def split: option.splits)

lemma acct_snd_db_get [simp]: "acct (snd (db_get addr db)) = acct db"
  by (auto simp: db_get_def acct_def fun_eq_iff gomap_simps split: option.splits)

lemma db_get_frame [simp]:
  "feeReceiver (snd (db_get addr db)) = feeReceiver db" "kv (snd (db_get addr db)) = kv db"
  by (simp_all add: db_get_def split: option.splits)

lemma total_snd_db_get [simp]: "total_balance (snd (db_get addr db)) = total_balance db"
  by (auto simp: db_get_def total_balance_def gm_total_update_None split: option.splits)

lemma acct_put_account [simp]: "acct (put_account addr a db) = (acct db)(addr := a)"
  by (auto simp: acct_def put_account_def fun_eq_iff gomap_simps)

lemma put_account_frame [simp]:
  "feeReceiver (put_account addr a db) = feeReceiver db" "kv (put_account addr a db) = kv db"
  by (simp_all add: put_account_def)

lemma total_put_account:
  "total_balance (put_account addr a db) + unat (acc_balance (acct db addr))
   = total_balance db + unat (acc_balance a)"
  using gm_total_update [of "unat \<circ> acc_balance" addr a "accts db"]
  by (auto simp: total_balance_def put_account_def acct_def split: option.splits)

lemma balance_le_total: "unat (acc_balance (acct db addr)) \<le> total_balance db"
  using gm_total_ge [of "accts db" addr _ "unat \<circ> acc_balance"]
  by (auto simp: total_balance_def acct_def split: option.splits)

lemma credit_eq:
  "credit addr x db = put_account addr
     ((acct db addr)\<lparr>acc_balance := acc_balance (acct db addr) + x\<rparr>) (snd (db_get addr db))"
  by (simp add: credit_def case_prod_beta)

lemma acct_credit [simp]:
  "acct (credit addr x db) =
     (acct db)(addr := (acct db addr)\<lparr>acc_balance := acc_balance (acct db addr) + x\<rparr>)"
  by (simp add: credit_eq)

lemma credit_frame [simp]:
  "feeReceiver (credit addr x db) = feeReceiver db" "kv (credit addr x db) = kv db"
  by (simp_all add: credit_eq)

lemma total_credit:
  assumes "total_balance db + unat x < 18446744073709551616"
  shows "total_balance (credit addr x db) = total_balance db + unat x"
proof -
  let ?a = "acct db addr"
  have "unat (acc_balance ?a + x) = unat (acc_balance ?a) + unat x"
    using assms balance_le_total [of db addr] by (intro u64_add_exact) linarith
  then show ?thesis
    using total_put_account [of addr "?a\<lparr>acc_balance := acc_balance ?a + x\<rparr>" "snd (db_get addr db)"]
    by (simp add: credit_eq)
qed

text \<open>The three outcomes of a transfer, with the database they leave.\<close>

lemma ApplyTransfer_cases:
  obtains
    (bad_nonce) "acc_nonce (acct db from) + 1 \<noteq> nonce"
      "ApplyTransfer from to amount fee nonce db = (Inl ''bad_nonce'', snd (db_get from db))"
  | (insufficient) "acc_nonce (acct db from) + 1 = nonce"
      "acc_balance (acct db from) < amount + fee"
      "ApplyTransfer from to amount fee nonce db = (Inl ''insufficient_funds'', snd (db_get from db))"
  | (applied) "acc_nonce (acct db from) + 1 = nonce"
      "amount + fee \<le> acc_balance (acct db from)"
      "ApplyTransfer from to amount fee nonce db =
         (Inr (), let db3 = credit to amount (put_account from
              ((acct db from)\<lparr>acc_balance := acc_balance (acct db from) - (amount + fee),
                              acc_nonce := nonce\<rparr>) (snd (db_get from db)))
          in if feeReceiver db \<noteq> [] then credit (feeReceiver db) fee db3 else db3)"
  by (cases "acc_nonce (acct db from) + 1 = nonce";
      cases "acc_balance (acct db from) < amount + fee")
    (auto simp: ApplyTransfer_def Let_def case_prod_beta not_less)

section \<open>Transfers\<close>

text \<open>
  The abstract ledger: an unbounded balance and nonce per address. \<open>ledger_transfer\<close> is what a
  transfer means when nothing can overflow.
\<close>

type_synonym ledger = "string \<Rightarrow> nat \<times> nat"

definition abs_ledger :: "DB \<Rightarrow> ledger" where
  "abs_ledger db = (\<lambda>a. (unat (acc_balance (acct db a)), unat (acc_nonce (acct db a))))"

definition ledger_credit :: "string \<Rightarrow> nat \<Rightarrow> ledger \<Rightarrow> ledger" where
  "ledger_credit a x L = L(a := (fst (L a) + x, snd (L a)))"

definition ledger_transfer ::
  "string \<Rightarrow> string \<Rightarrow> nat \<Rightarrow> nat \<Rightarrow> nat \<Rightarrow> string \<Rightarrow> ledger \<Rightarrow> ledger result" where
  "ledger_transfer from to amt fee n feeRecv L =
     (if snd (L from) + 1 \<noteq> n then Inl ''bad_nonce''
      else if fst (L from) < amt + fee then Inl ''insufficient_funds''
      else let L' = ledger_credit to amt (L(from := (fst (L from) - (amt + fee), n)))
           in Inr (if feeRecv \<noteq> [] then ledger_credit feeRecv fee L' else L'))"

lemma abs_ledger_credit:
  assumes "total_balance db + unat x < 18446744073709551616"
  shows "abs_ledger (credit a x db) = ledger_credit a (unat x) (abs_ledger db)"
proof -
  have "unat (acc_balance (acct db a) + x) = unat (acc_balance (acct db a)) + unat x"
    using assms balance_le_total [of db a] by (intro u64_add_exact) linarith
  then show ?thesis by (simp add: abs_ledger_def ledger_credit_def fun_eq_iff)
qed

text \<open>What a successful transfer does to the sum of the balances before anyone is credited.\<close>

lemma debit_total:
  assumes "need \<le> acc_balance (acct db from)"
  shows "total_balance (put_account from
           ((acct db from)\<lparr>acc_balance := acc_balance (acct db from) - need, acc_nonce := n\<rparr>)
           (snd (db_get from db))) = total_balance db - unat need"
proof -
  have "unat (acc_balance (acct db from) - need) = unat (acc_balance (acct db from)) - unat need"
    using assms by (rule u64_sub_exact)
  moreover have "unat need \<le> unat (acc_balance (acct db from))"
    using assms by (simp add: u64_le_iff)
  ultimately show ?thesis
    using total_put_account [of "from" "(acct db from)\<lparr>acc_balance := acc_balance (acct db from) - need,
        acc_nonce := n\<rparr>" "snd (db_get from db)"] balance_le_total [of db "from"]
    by simp
qed

lemma ApplyTransfer_total:
  assumes ok: "ApplyTransfer from to amount fee nonce db = (Inr (), db')"
    and fits: "unat amount + unat fee < 18446744073709551616"
    and small: "total_balance db < 18446744073709551616"
  shows "total_balance db' + (if feeReceiver db = [] then unat fee else 0) = total_balance db"
proof (cases rule: ApplyTransfer_cases [of db "from" nonce to amount fee])
  case applied
  define d where "d = put_account from
      ((acct db from)\<lparr>acc_balance := acc_balance (acct db from) - (amount + fee), acc_nonce := nonce\<rparr>)
      (snd (db_get from db))"
  have need: "unat (amount + fee) = unat amount + unat fee" using fits by (rule u64_add_exact)
  have le: "unat amount + unat fee \<le> total_balance db"
    using applied(2) need balance_le_total [of db "from"] by (simp add: u64_le_iff)
  have d: "total_balance d = total_balance db - (unat amount + unat fee)"
    unfolding d_def debit_total [OF applied(2)] by (simp add: need)
  have c: "total_balance (credit to amount d) = total_balance db - unat fee"
    using le small by (subst total_credit) (auto simp: d)
  have "db' = (if feeReceiver db \<noteq> [] then credit (feeReceiver db) fee (credit to amount d)
      else credit to amount d)"
    using ok applied(3) by (auto simp: d_def Let_def split: if_splits)
  then show ?thesis using c le small by (auto simp: total_credit)
qed (use ok in simp_all)

text \<open>
  Property C5. A transfer that the account table accepts moves value and creates none: if
  \<open>amount + fee\<close> fits in 64 bits and the balances of all accounts together do too, the sum of
  all balances is the same afterwards, or lower by exactly the fee when no fee receiver is set.
  Sender, recipient and fee receiver may coincide in any way.
\<close>

theorem ApplyTransfer_conserves:
  assumes ok: "ApplyTransfer from to amount fee nonce db = (Inr (), db')"
    and fits: "unat amount + unat fee < 18446744073709551616"
    and small: "total_balance db < 18446744073709551616"
  shows "total_balance db' + (if feeReceiver db = [] then unat fee else 0) = total_balance db"
  using assms by (rule ApplyTransfer_total)

definition demo_db :: DB where
  "demo_db = \<lparr>accts = [(''tho1alice'', \<lparr>acc_balance = 100, acc_nonce = 0\<rparr>)],
     feeReceiver = ''tho1foundation'', kv = [], validatorScores = [], epochPayouts = [], epochSummaries = []\<rparr>"

theorem ApplyTransfer_conserves_witness:
  "\<exists>db'. ApplyTransfer ''tho1alice'' ''tho1bob'' 30 2 1 demo_db = (Inr (), db')
     \<and> acc_balance (acct db' ''tho1bob'') = 30
     \<and> total_balance db' = total_balance demo_db"
proof -
  have ex: "ApplyTransfer ''tho1alice'' ''tho1bob'' 30 2 1 demo_db =
      (Inr (), snd (ApplyTransfer ''tho1alice'' ''tho1bob'' 30 2 1 demo_db))"
    by code_simp
  moreover have "acc_balance (acct (snd (ApplyTransfer ''tho1alice'' ''tho1bob'' 30 2 1 demo_db)) ''tho1bob'') = 30"
    by code_simp
  moreover have "total_balance demo_db < 18446744073709551616"
    by (simp add: total_balance_def demo_db_def)
  ultimately show ?thesis
    using ApplyTransfer_conserves [OF ex] by (auto simp: demo_db_def)
qed

text \<open>
  Property C7. Refinement: while the balances together fit in 64 bits, \<open>amount + fee\<close> does and
  the sender's nonce is not the largest one, \<open>ApplyTransfer\<close> computes exactly the abstract
  ledger's transfer, with the same error on the same inputs.
\<close>

theorem ApplyTransfer_refines_ledger:
  assumes fits: "unat amount + unat fee < 18446744073709551616"
    and small: "total_balance db < 18446744073709551616"
    and nonces: "unat (acc_nonce (acct db from)) + 1 < 18446744073709551616"
  shows "ledger_transfer from to (unat amount) (unat fee) (unat nonce) (feeReceiver db) (abs_ledger db)
    = (case ApplyTransfer from to amount fee nonce db of
         (Inl e, _) \<Rightarrow> Inl e | (Inr _, db') \<Rightarrow> Inr (abs_ledger db'))"
proof -
  have need: "unat (amount + fee) = unat amount + unat fee" using fits by (rule u64_add_exact)
  have n1: "unat (acc_nonce (acct db from) + 1) = unat (acc_nonce (acct db from)) + 1"
    using u64_add_exact [of _ 1] nonces by simp
  have nonce_iff: "unat (acc_nonce (acct db from)) + 1 = unat nonce
      \<longleftrightarrow> acc_nonce (acct db from) + 1 = nonce"
    unfolding u64_eq_iff n1 ..
  show ?thesis
  proof (cases rule: ApplyTransfer_cases [of db "from" nonce to amount fee])
    case bad_nonce
    then show ?thesis using nonce_iff by (auto simp: ledger_transfer_def abs_ledger_def)
  next
    case insufficient
    then show ?thesis
      using nonce_iff need by (simp add: ledger_transfer_def abs_ledger_def u64_less_iff)
  next
    case applied
    define d where "d = put_account from
      ((acct db from)\<lparr>acc_balance := acc_balance (acct db from) - (amount + fee), acc_nonce := nonce\<rparr>)
      (snd (db_get from db))"
    have le: "unat amount + unat fee \<le> unat (acc_balance (acct db from))"
      using applied(2) need by (simp add: u64_le_iff)
    have tot: "total_balance d = total_balance db - (unat amount + unat fee)"
      unfolding d_def debit_total [OF applied(2)] by (simp add: need)
    have le_tot: "unat amount + unat fee \<le> total_balance db"
      using le balance_le_total [of db "from"] by simp
    have d: "abs_ledger d = (abs_ledger db)
        (from := (unat (acc_balance (acct db from)) - (unat amount + unat fee), unat nonce))"
      using applied(2) need by (auto simp: d_def abs_ledger_def u64_sub_exact)
    have c: "abs_ledger (credit to amount d) = ledger_credit to (unat amount) (abs_ledger d)"
      using tot le_tot small by (intro abs_ledger_credit) simp
    have "total_balance (credit to amount d) = total_balance db - unat fee"
      using le_tot small by (subst total_credit) (auto simp: tot)
    then have f: "abs_ledger (credit r fee (credit to amount d))
        = ledger_credit r (unat fee) (ledger_credit to (unat amount) (abs_ledger d))" for r
      using le_tot small by (simp add: abs_ledger_credit c)
    have "\<not> fst (abs_ledger db from) < unat amount + unat fee" "snd (abs_ledger db from) + 1 = unat nonce"
      using le applied(1) nonce_iff by (simp_all add: abs_ledger_def)
    then show ?thesis
      using applied(3) c d f by (simp add: ledger_transfer_def d_def [symmetric] Let_def abs_ledger_def)
  qed
qed

theorem ApplyTransfer_refines_ledger_witness:
  "fst (ApplyTransfer ''tho1alice'' ''tho1bob'' 99 2 1 demo_db) = Inl ''insufficient_funds''
   \<and> ledger_transfer ''tho1alice'' ''tho1bob'' 99 2 1 ''tho1foundation'' (abs_ledger demo_db)
     = Inl ''insufficient_funds''"
proof -
  have e: "ApplyTransfer ''tho1alice'' ''tho1bob'' 99 2 1 demo_db
      = (Inl ''insufficient_funds'', snd (ApplyTransfer ''tho1alice'' ''tho1bob'' 99 2 1 demo_db))"
    by code_simp
  have "total_balance demo_db < 18446744073709551616"
    "unat (acc_nonce (acct demo_db ''tho1alice'')) + 1 < 18446744073709551616"
    by (simp_all add: total_balance_def acct_def demo_db_def)
  then show ?thesis
    using ApplyTransfer_refines_ledger [of 99 2 demo_db "''tho1alice''" "''tho1bob''" 1] e
    by (auto simp: demo_db_def split: prod.splits)
qed

text \<open>
  Fact. Rejected transfers change nothing a caller can read: the error is
  \<open>bad_nonce\<close> exactly when the nonce is not the sender's next one, otherwise
  \<open>insufficient_funds\<close> exactly when the balance is below the (wrapped) sum of amount and fee,
  and in both cases every account, the total and the side store are as before.
\<close>

theorem ApplyTransfer_error:
  assumes "ApplyTransfer from to amount fee nonce db = (Inl e, db')"
  shows "acct db' = acct db \<and> total_balance db' = total_balance db \<and> kv db' = kv db
    \<and> (if acc_nonce (acct db from) + 1 \<noteq> nonce then e = ''bad_nonce''
       else e = ''insufficient_funds'' \<and> acc_balance (acct db from) < amount + fee)"
  by (cases rule: ApplyTransfer_cases [of db "from" nonce to amount fee]) (use assms in auto)

theorem ApplyTransfer_error_witness:
  "acct (snd (ApplyTransfer ''tho1alice'' ''tho1bob'' 1 1 7 demo_db)) = acct demo_db"
proof -
  have "ApplyTransfer ''tho1alice'' ''tho1bob'' 1 1 7 demo_db
      = (Inl ''bad_nonce'', snd (ApplyTransfer ''tho1alice'' ''tho1bob'' 1 1 7 demo_db))"
    by code_simp
  from ApplyTransfer_error [OF this] show ?thesis by simp
qed

text \<open>
  Fact. The sum of amount and fee is formed in 64 bits and can wrap: if it wraps to
  zero, a sender whose nonce is right pays nothing while the recipient is credited the amount,
  whatever the sender's balance is.
\<close>

theorem ApplyTransfer_wraps:
  assumes "unat amount + unat fee = 18446744073709551616"
    and "nonce = acc_nonce (acct db from) + 1"
    and "to \<noteq> from" and "feeReceiver db \<noteq> from" and "feeReceiver db \<noteq> to"
  shows "\<exists>db'. ApplyTransfer from to amount fee nonce db = (Inr (), db')
    \<and> acc_balance (acct db' from) = acc_balance (acct db from)
    \<and> acc_balance (acct db' to) = acc_balance (acct db to) + amount"
proof -
  have "amount + fee = 0"
    using assms(1) by (simp add: u64_eq_iff unat_word_ariths)
  then show ?thesis
    using assms(2-)
    by (cases rule: ApplyTransfer_cases [of db "from" nonce to amount fee]) (auto simp: Let_def)
qed

theorem ApplyTransfer_wraps_witness:
  "\<exists>db'. ApplyTransfer ''tho1mallory'' ''tho1bob'' 9223372036854775808 9223372036854775808 1 demo_db
       = (Inr (), db')
    \<and> acc_balance (acct db' ''tho1mallory'') = acc_balance (acct demo_db ''tho1mallory'')
    \<and> acc_balance (acct db' ''tho1bob'') = acc_balance (acct demo_db ''tho1bob'') + 9223372036854775808"
  by (rule ApplyTransfer_wraps) (simp_all add: demo_db_def acct_def)

section \<open>Runs of transfers\<close>

text \<open>
  A run applies transfers \<open>(from, to, amount, fee, nonce)\<close> one after the other, as successive
  calls do, and keeps the ones that were accepted.
\<close>

type_synonym xfer = "string \<times> string \<times> u64 \<times> u64 \<times> u64"

fun apply_xfers :: "xfer list \<Rightarrow> DB \<Rightarrow> xfer list \<times> DB" where
  "apply_xfers [] db = ([], db)"
| "apply_xfers ((from, to, amount, fee, nonce) # ts) db =
     (case ApplyTransfer from to amount fee nonce db of
        (Inl e, db') \<Rightarrow> apply_xfers ts db'
      | (Inr _, db') \<Rightarrow> (case apply_xfers ts db' of
           (done, db'') \<Rightarrow> ((from, to, amount, fee, nonce) # done, db'')))"

abbreviation nonces_of :: "string \<Rightarrow> xfer list \<Rightarrow> u64 list" where
  "nonces_of a ts \<equiv> map (\<lambda>(f, t, x, y, n). n) (filter (\<lambda>(f, t, x, y, n). f = a) ts)"

lemma ApplyTransfer_Inl_acct:
  "ApplyTransfer from to amount fee nonce db = (Inl e, db') \<Longrightarrow> acct db' = acct db"
  by (cases rule: ApplyTransfer_cases [of db "from" nonce to amount fee]) auto

lemma ApplyTransfer_accepts:
  assumes "nonce = acc_nonce (acct db from) + 1" "amount + fee \<le> acc_balance (acct db from)"
  shows "\<exists>db'. ApplyTransfer from to amount fee nonce db = (Inr (), db')"
  by (cases rule: ApplyTransfer_cases [of db "from" nonce to amount fee]) (use assms in auto)

lemma ApplyTransfer_moves:
  assumes "ApplyTransfer from to amount fee nonce db = (Inr u, db')"
  shows "feeReceiver db' = feeReceiver db"
    and "from \<notin> {to, feeReceiver db} \<Longrightarrow> acc_balance (acct db' from) = acc_balance (acct db from) - (amount + fee)"
    and "to \<notin> {from, feeReceiver db} \<Longrightarrow> acc_balance (acct db' to) = acc_balance (acct db to) + amount"
  by (cases rule: ApplyTransfer_cases [of db "from" nonce to amount fee]; use assms in \<open>auto simp: Let_def\<close>)+

lemma ApplyTransfer_nonce:
  "ApplyTransfer from to amount fee nonce db = (Inr u, db') \<Longrightarrow>
   nonce = acc_nonce (acct db from) + 1
   \<and> acc_nonce (acct db' a) = acc_nonce (acct db a) + (if a = from then 1 else 0)"
  by (cases rule: ApplyTransfer_cases [of db "from" nonce to amount fee])
    (auto simp: Let_def split: if_splits)

lemma apply_xfers_nonces:
  "apply_xfers ts db = (done, db') \<Longrightarrow>
   nonces_of a done = map (\<lambda>i. acc_nonce (acct db a) + of_nat (Suc i)) [0 ..< length (nonces_of a done)]
   \<and> acc_nonce (acct db' a) = acc_nonce (acct db a) + of_nat (length (nonces_of a done))"
proof (induction ts db arbitrary: "done" db' rule: apply_xfers.induct)
  case (2 "from" to amount fee nonce ts db)
  show ?case
  proof (cases "ApplyTransfer from to amount fee nonce db")
    case (Pair r db1)
    show ?thesis
    proof (cases r)
      case (Inl e)
      with Pair have "acct db1 = acct db" by (auto dest: ApplyTransfer_Inl_acct)
      with Pair Inl "2.prems" "2.IH"(1) [OF Pair [symmetric] Inl] show ?thesis by simp
    next
      case (Inr u)
      obtain rest where rest: "apply_xfers ts db1 = (rest, db')"
        and d: "done = (from, to, amount, fee, nonce) # rest"
        using "2.prems" Pair Inr by (auto split: prod.splits)
      note IH = "2.IH"(2) [OF Pair [symmetric] Inr rest]
      note n = ApplyTransfer_nonce [of "from" to amount fee nonce db u db1 a]
      have idx: "map f [0 ..< Suc k] = f 0 # map (\<lambda>i. f (Suc i)) [0 ..< k]" for f :: "nat \<Rightarrow> u64" and k
        by (simp add: upt_conv_Cons map_Suc_upt [symmetric] comp_def del: upt_Suc)
      show ?thesis
      proof (cases "a = from")
        case True
        with IH n Pair Inr show ?thesis by (simp add: d idx add.assoc del: upt_Suc)
      next
        case False
        with IH n Pair Inr show ?thesis by (simp add: d)
      qed
    qed
  qed
qed simp

text \<open>
  Fact. No replay: in a run of fewer than \<open>2^64\<close> transfers, the accepted ones never
  share a sender and a nonce, so a transfer is applied at most once however often it is
  submitted and whatever is submitted in between.
\<close>

theorem accepted_nonces_distinct:
  assumes "length ts < 18446744073709551616"
  shows "distinct (nonces_of a (fst (apply_xfers ts db)))"
proof -
  have len: "length (fst (apply_xfers ts db)) \<le> length ts"
    by (induction ts db rule: apply_xfers.induct)
      (auto split: prod.splits sum.splits intro: le_SucI)
  let ?d = "fst (apply_xfers ts db)"
  have "length (nonces_of a ?d) \<le> length ?d" by simp
  with len assms have short: "length (nonces_of a ?d) < 18446744073709551616" by linarith
  have "inj_on (\<lambda>i. acc_nonce (acct db a) + of_nat (Suc i)) {0 ..< length (nonces_of a ?d)}"
  proof (rule inj_onI)
    fix i j
    assume ij: "i \<in> {0 ..< length (nonces_of a ?d)}" "j \<in> {0 ..< length (nonces_of a ?d)}"
      and "acc_nonce (acct db a) + of_nat (Suc i) = acc_nonce (acct db a) + of_nat (Suc j)"
    then have "(of_nat i :: u64) = of_nat j" by simp
    then have "unat (of_nat i :: u64) = unat (of_nat j :: u64)" by (rule arg_cong)
    moreover have "i < 18446744073709551616" "j < 18446744073709551616" using ij short by simp_all
    ultimately show "i = j" by (simp only: u64_of_nat_exact)
  qed
  moreover have "nonces_of a ?d
      = map (\<lambda>i. acc_nonce (acct db a) + of_nat (Suc i)) [0 ..< length (nonces_of a ?d)]"
    using apply_xfers_nonces [of ts db ?d "snd (apply_xfers ts db)" a] by simp
  ultimately show ?thesis by (metis atLeast_upt distinct_map distinct_upt lessThan_atLeast0)
qed

theorem accepted_nonces_distinct_witness:
  "distinct (nonces_of ''tho1alice'' (fst (apply_xfers
     [(''tho1alice'', ''tho1bob'', 1, 1, 1), (''tho1alice'', ''tho1bob'', 1, 1, 1),
      (''tho1alice'', ''tho1bob'', 1, 1, 2)] demo_db)))
   \<and> length (fst (apply_xfers
     [(''tho1alice'', ''tho1bob'', 1, 1, 1), (''tho1alice'', ''tho1bob'', 1, 1, 1),
      (''tho1alice'', ''tho1bob'', 1, 1, 2)] demo_db)) = 2"
  (is "distinct (nonces_of _ (fst (apply_xfers ?ts _))) \<and> ?n")
proof
  have "length ?ts < 18446744073709551616" by simp
  then show "distinct (nonces_of ''tho1alice'' (fst (apply_xfers ?ts demo_db)))"
    by (rule accepted_nonces_distinct)
  show ?n by code_simp
qed

section \<open>Well-formedness and the key/value store\<close>

lemma db_wf_ops [simp, intro]:
  assumes "db_wf db"
  shows "db_wf (snd (db_get addr db))" "db_wf (put_account addr a db)" "db_wf (credit addr x db)"
    "db_wf (AddBalance addr x db)" "db_wf (SetFeeReceiver r db)" "db_wf (InitGenesis bs db)"
    "db_wf (SetKey k v db)" "db_wf (DeleteKey k db)"
    "db_wf (snd (ApplyTransfer from to amount fee nonce db))" "db_wf (Restore m db)"
proof -
  have get: "db_wf (snd (db_get addr db))" if "db_wf db" for addr db
    using that by (auto simp: db_get_def db_wf_def gomap_simps split: option.splits)
  have put: "db_wf (put_account addr a db)" if "db_wf db" for addr a db
    using that by (auto simp: put_account_def db_wf_def gomap_simps)
  have cr: "db_wf (credit addr x db)" if "db_wf db" for addr x db
    unfolding credit_eq by (intro put get that)
  show "db_wf (snd (db_get addr db))" "db_wf (put_account addr a db)" "db_wf (credit addr x db)"
    using assms by (simp_all add: get put cr)
  show "db_wf (AddBalance addr x db)" using assms by (simp add: AddBalance_def cr)
  show "db_wf (SetFeeReceiver r db)" using assms by (simp add: SetFeeReceiver_def db_wf_def)
  have "db_wf (fold (\<lambda>(addr, amt). credit addr amt) bs d)" if "db_wf d" for d
    using that by (induction bs arbitrary: d) (auto intro: cr)
  then show "db_wf (InitGenesis bs db)" using assms by (simp add: InitGenesis_def)
  show "db_wf (SetKey k v db)" "db_wf (DeleteKey k db)"
    using assms by (auto simp: SetKey_def DeleteKey_def db_wf_def gomap_simps)
  show "db_wf (snd (ApplyTransfer from to amount fee nonce db))"
    by (cases rule: ApplyTransfer_cases [of db "from" nonce to amount fee])
      (use assms in \<open>auto simp: Let_def intro: get put cr\<close>)
  have "gm_wf (fold (\<lambda>(k, v). AList.update k v) m [])" by (rule gm.invar_fold_put) simp
  then show "db_wf (Restore m db)" using assms by (simp add: Restore_def db_wf_def)
qed

interpretation kvs: keyed_store "\<lambda>db k. GetKey k db" SetKey DeleteKey db_wf
  by unfold_locales
    (auto simp: GetKey_def SetKey_def DeleteKey_def fun_eq_iff gomap_simps db_wf_def)

lemma map_of_Restore: "gm_wf m \<Longrightarrow> map_of (accts (Restore m db)) = map_of m"
  using gm.lookup_fold_put [of m "[]"] map_of_inject_set [of "rev m" m]
  by (simp add: Restore_def rev_map [symmetric])

section \<open>The state root\<close>

lemma account_json_no_zero: "CHR 0x00 \<notin> set (account_json a)"
  using digits_dec_nat [of "CHR 0x00"] by (auto simp: account_json_def json_key_def digit_val_def)

lemma account_json_inject: "account_json a = account_json b \<longleftrightarrow> a = b"
proof
  assume eq: "account_json a = account_json b"
  let ?k = "CHR 0x22 # ''nonce'' @ [CHR 0x22, CHR '':'']"
  have "dec_nat (unat (acc_balance a)) @ CHR '','' # ?k @ dec_nat (unat (acc_nonce a)) @ ''}''
      = dec_nat (unat (acc_balance b)) @ CHR '','' # ?k @ dec_nat (unat (acc_nonce b)) @ ''}''"
    using eq by (simp add: account_json_def json_key_def)
  from dec_nat_append_inject [OF this]
  have "unat (acc_balance a) = unat (acc_balance b)" "unat (acc_nonce a) = unat (acc_nonce b)"
    by simp_all
  then show "a = b" by (cases a; cases b) (simp add: u64_eq_iff)
qed simp

lemma state_leaf_inject: "state_leaf a x = state_leaf b y \<longleftrightarrow> a = b \<and> x = y"
proof
  have nz: "0 \<notin> set (bytes_of (account_json z))" for z
  proof
    assume "0 \<in> set (bytes_of (account_json z))"
    then obtain c where c: "c \<in> set (account_json z)" "byte_of c = 0" by (auto simp: bytes_of_def)
    have "byte_of (CHR 0x00) = 0" by (simp add: byte_of_def)
    with c(2) have "c = CHR 0x00" by (metis byte_of_inject)
    with c(1) show False using account_json_no_zero by simp
  qed
  assume "state_leaf a x = state_leaf b y"
  then have "bytes_of a @ 0 # bytes_of (account_json x) = bytes_of b @ 0 # bytes_of (account_json y)"
    by (simp add: state_leaf_def)
  from last_sep_inject [OF this nz nz] show "a = b \<and> x = y" by (simp add: account_json_inject)
qed simp

lemma state_leaves_cong:
  assumes "gm_wf m" "gm_wf m'" "map_of m = map_of m'"
  shows "state_leaves m = state_leaves m'"
proof -
  have "mset (map fst m) = mset (map fst m')" using gm_mset_eqI [OF assms] by simp
  then have "sort (map fst m) = sort (map fst m')" by (rule sort_key_cong_mset) simp
  with assms(3) show ?thesis by (simp add: state_leaves_def)
qed

lemma state_leaves_inject:
  assumes "state_leaves m = state_leaves m'"
  shows "map_of m = map_of m'"
proof -
  let ?v = "\<lambda>m addr. case map_of m addr of None \<Rightarrow> zeroAccount | Some acc \<Rightarrow> acc"
  have len: "length (sort (map fst m)) = length (sort (map fst m'))"
    using arg_cong [OF assms, of length] by (simp add: state_leaves_def)
  have nth: "sort (map fst m) ! i = sort (map fst m') ! i
      \<and> ?v m (sort (map fst m) ! i) = ?v m' (sort (map fst m') ! i)"
    if "i < length (sort (map fst m))" for i
    using arg_cong [OF assms, of "\<lambda>xs. xs ! i"] that len
    by (auto simp: state_leaves_def state_leaf_inject)
  have keys: "sort (map fst m) = sort (map fst m')"
    using len nth by (intro nth_equalityI) auto
  then have dom: "set (map fst m) = set (map fst m')" by (metis set_sort)
  have "?v m a = ?v m' a" if "a \<in> set (map fst m)" for a
    using that nth keys by (metis in_set_conv_nth set_sort)
  with dom show ?thesis
    by (intro ext) (metis (no_types, lifting) map_of_eq_None_iff option.case_eq_if option.collapse
        list.set_map)
qed

text \<open>
  Fact. The state root is a function of the account table alone: databases with the same
  accounts have the same root, whatever the order in which Go's map iteration visits them and
  whatever their side stores hold.
\<close>

theorem StateRoot_deterministic:
  assumes "db_wf db" "db_wf db'" "map_of (accts db) = map_of (accts db')"
  shows "StateRoot b3 db = StateRoot b3 db'"
proof -
  have "accts db = [] \<longleftrightarrow> accts db' = []" using assms(3) by (metis map_of_eq_empty_iff)
  then show ?thesis
    using state_leaves_cong [of "accts db" "accts db'"] assms by (simp add: StateRoot_def db_wf_def)
qed

theorem StateRoot_deterministic_witness:
  "StateRoot toy_hash (demo_db\<lparr>accts := [(''a'', zeroAccount), (''b'', zeroAccount)]\<rparr>)
   = StateRoot toy_hash (demo_db\<lparr>accts := [(''b'', zeroAccount), (''a'', zeroAccount)]\<rparr>)"
  by (rule StateRoot_deterministic) (auto simp: db_wf_def demo_db_def)

text \<open>
  Fact. The state root commits to the accounts: two tables with the same number of
  accounts but some different account, balance or nonce have different roots, provided the hash
  is injective on the strings hashed for the two roots.
\<close>

theorem StateRoot_binding:
  assumes "\<And>x. length (b3 x) = 32" and "length (accts db) = length (accts db')"
    and "map_of (accts db) \<noteq> map_of (accts db')"
    and "inj_on b3 (merkle_inputs b3 (state_leaves (accts db)) \<union> merkle_inputs b3 (state_leaves (accts db')))"
  shows "StateRoot b3 db \<noteq> StateRoot b3 db'"
proof -
  have ne: "accts db \<noteq> []" "accts db' \<noteq> []" using assms(2,3) by auto
  have "length (state_leaves (accts db)) = length (state_leaves (accts db'))"
    using assms(2) by (simp add: state_leaves_def)
  moreover have "state_leaves (accts db) \<noteq> state_leaves (accts db')"
    using assms(3) state_leaves_inject by blast
  ultimately have "Blake3RootFromRaw b3 (state_leaves (accts db))
      \<noteq> Blake3RootFromRaw b3 (state_leaves (accts db'))"
    by (rule Blake3Root_distinct [OF assms(1)]) (fact assms(4))
  with ne show ?thesis by (simp add: StateRoot_def)
qed

theorem StateRoot_binding_witness:
  "StateRoot toy_hash (demo_db\<lparr>accts := [(''a'', \<lparr>acc_balance = 1, acc_nonce = 0\<rparr>)]\<rparr>)
   \<noteq> StateRoot toy_hash (demo_db\<lparr>accts := [(''a'', \<lparr>acc_balance = 2, acc_nonce = 0\<rparr>)]\<rparr>)"
proof (rule StateRoot_binding)
  let ?m = "\<lambda>b. [(''a'', \<lparr>acc_balance = b, acc_nonce = 0\<rparr>)]"
  have leaves: "merkle_inputs toy_hash (state_leaves (?m b))
      = set [leaf_in (state_leaf ''a'' \<lparr>acc_balance = b, acc_nonce = 0\<rparr>)]" for b
    by (simp add: merkle_inputs_def state_leaves_def)
  have "inj_on toy_hash (set [leaf_in (state_leaf ''a'' \<lparr>acc_balance = 1, acc_nonce = 0\<rparr>),
      leaf_in (state_leaf ''a'' \<lparr>acc_balance = 2, acc_nonce = 0\<rparr>)])"
    unfolding inj_on_set_iff by code_simp
  then show "inj_on toy_hash
      (merkle_inputs toy_hash (state_leaves (accts (demo_db\<lparr>accts := ?m 1\<rparr>)))
       \<union> merkle_inputs toy_hash (state_leaves (accts (demo_db\<lparr>accts := ?m 2\<rparr>))))"
    by (simp add: leaves insert_commute)
qed (simp_all add: fun_eq_iff)

text \<open>
  Fact. Reading an unknown address changes the state: \<open>GetAccount\<close> returns an empty
  account and also inserts it, so \<open>Snapshot\<close>, and with it the list of leaves that
  \<open>StateRoot\<close> hashes, has one more entry; the lookups of all other addresses stay.
\<close>

theorem GetAccount_materialises:
  assumes "map_of (accts db) addr = None"
  shows "\<exists>db'. GetAccount addr db = (zeroAccount, db')
    \<and> map_of (Snapshot db') = (map_of (Snapshot db))(addr \<mapsto> zeroAccount)
    \<and> length (state_leaves (Snapshot db')) = Suc (length (state_leaves (Snapshot db)))"
proof -
  have "length (AList.update addr v m) = Suc (length m)" if "map_of m addr = None"
    for v :: Account and m
    using that by (induction m) (auto split: if_splits)
  with assms show ?thesis
    by (simp add: GetAccount_def db_get_def state_leaves_def gomap_simps)
qed

theorem GetAccount_materialises_witness:
  "\<exists>db'. GetAccount ''tho1nobody'' demo_db = (zeroAccount, db')
    \<and> map_of (Snapshot db') = (map_of (Snapshot demo_db))(''tho1nobody'' \<mapsto> zeroAccount)
    \<and> length (state_leaves (Snapshot db')) = Suc (length (state_leaves (Snapshot demo_db)))"
  by (rule GetAccount_materialises) (simp add: demo_db_def)

end
