(* ===== verification/Rewards.thy ===== *)
theory Rewards
  imports Float64 State
begin

text \<open>
  \<open>internal/params\<close>, \<open>internal/rewards/engine.go\<close> and \<open>internal/app/state_reward.go\<close>:
  the emission curve, the split of a mint over the three vaults, the per-validator payouts of an
  epoch, and the supply counters with their storage in the state database. The map
  \<open>SplitPercentages\<close> and the other parameters are the constants of \<open>params.go\<close>.
\<close>

section \<open>params.go\<close>

definition EmissionIntervalBlocks :: u64 where "EmissionIntervalBlocks = 20000000"
definition BaseBlockMintMas :: u64 where "BaseBlockMintMas = 1000000"
definition EpochLengthBlocks :: u64 where "EpochLengthBlocks = 100"
definition split_Network :: u64 where "split_Network = 80"
definition split_Foundation :: u64 where "split_Foundation = 10"
definition split_Exchange :: u64 where "split_Exchange = 10"

text \<open>The binary64 number nearest to \<open>0.6180339887498949\<close>.\<close>

definition PhiRatio :: f64 where "PhiRatio = Fin 5566755282872656 (- 53)"

section \<open>engine.go\<close>

definition EmissionMultiplierAt :: "u64 \<Rightarrow> f64" where
  "EmissionMultiplierAt height =
     (let interval = EmissionIntervalBlocks
      in if interval = 0 then fone
         else let epochs = height div interval in fpow PhiRatio (unat epochs))"

definition BlockMintAt :: "u64 \<Rightarrow> u64" where
  "BlockMintAt height =
     (let emission = fmul (f64_of_u64 BaseBlockMintMas) (EmissionMultiplierAt height)
      in to_u64 0 (fround emission))"

definition SplitMint :: "u64 \<Rightarrow> u64 \<times> u64 \<times> u64" where
  "SplitMint amount =
     (if amount = 0 then (0, 0, 0)
      else
        let network = amount * split_Network div 100;
            foundation = amount * split_Foundation div 100;
            exchange = amount * split_Exchange div 100;
            assigned = network + foundation + exchange
        in (if assigned < amount then network + (amount - assigned) else network, foundation, exchange))"

definition EpochOf :: "u64 \<Rightarrow> u64" where
  "EpochOf height = (if EpochLengthBlocks = 0 then 0 else height div EpochLengthBlocks)"

record EmissionSchedule =
  BaseEmission :: u64
  DecayRatio :: f64
  EpochBlocks :: u64

text \<open>\<open>DecayRatio\<close> is a positive number, so \<open>coeff < 0\<close> never holds.\<close>

definition EmissionAt :: "u64 \<Rightarrow> EmissionSchedule \<Rightarrow> u64 \<Rightarrow> u64" where
  "EmissionAt oob s height =
     (if EpochBlocks s = 0 then BaseEmission s
      else
        let epoch = height div EpochBlocks s;
            coeff = fpow (DecayRatio s) (unat epoch)
        in to_u64 oob (ftrunc (fmul (f64_of_u64 (BaseEmission s)) coeff)))"

datatype StakeClass = StakeClassG1 | StakeClassG2 | StakeClassG3 | StakeClassG4 | StakeClassG5

record WeightConfig =
  StakeBase :: "(StakeClass, u64) gomap"
  PoolMultiplier :: u64

record ValidatorScore =
  vs_Address :: string
  vs_StakeClass :: StakeClass
  vs_ConsensusScore :: i64
  vs_Participation :: i64
  vs_PoolNode :: bool

record RewardBucket =
  rb_Total :: u64
  rb_ValidatorShare :: u64
  rb_FoundationShare :: u64
  rb_ExchangeShare :: u64

record ValidatorPayout =
  vp_Address :: string
  vp_Amount :: u64

record EpochRewardSummary =
  es_Height :: u64
  es_Epoch :: u64
  es_TotalEmission :: u64
  es_ValidatorShare :: u64
  es_FoundationShare :: u64
  es_ExchangeShare :: u64

record RewardEngine =
  Schedule :: EmissionSchedule
  Weights :: WeightConfig

definition currentEpoch :: "RewardEngine \<Rightarrow> u64 \<Rightarrow> u64" where
  "currentEpoch eng height =
     (if EpochBlocks (Schedule eng) \<noteq> 0 then height div EpochBlocks (Schedule eng) else EpochOf height)"

text \<open>One step of the weight loop: base, scores and pool factor, with all wrap-arounds.\<close>

definition weight_of :: "WeightConfig \<Rightarrow> ValidatorScore \<Rightarrow> string \<times> u64" where
  "weight_of cfg v =
     (let base = (case map_of (StakeBase cfg) (vs_StakeClass v) of None \<Rightarrow> 0 | Some b \<Rightarrow> b);
          weight = base + vs_ConsensusScore v + vs_Participation v;
          weight = (if sint weight < 0 then 0 else weight);
          out = (if vs_PoolNode v then weight * PoolMultiplier cfg else weight)
      in (vs_Address v, out))"

fun payout_loop :: "u64 \<Rightarrow> u64 \<Rightarrow> (string \<times> u64) list \<Rightarrow> u64 \<Rightarrow> ValidatorPayout list \<times> u64" where
  "payout_loop share totalWeight [] remaining = ([], remaining)"
| "payout_loop share totalWeight ((addr, w) # ws) remaining =
     (if w = 0 then payout_loop share totalWeight ws remaining
      else
        let amount = share * w div totalWeight;
            (ps, r) = payout_loop share totalWeight ws (remaining - amount)
        in (\<lparr>vp_Address = addr, vp_Amount = amount\<rparr> # ps, r))"

fun remainder_loop :: "u64 \<Rightarrow> ValidatorPayout list \<Rightarrow> ValidatorPayout list" where
  "remainder_loop remaining [] = []"
| "remainder_loop remaining (p # ps) =
     (if 0 < remaining then p\<lparr>vp_Amount := vp_Amount p + 1\<rparr> # remainder_loop (remaining - 1) ps
      else p # ps)"

definition Compute ::
  "u64 \<Rightarrow> RewardEngine \<Rightarrow> u64 \<Rightarrow> ValidatorScore list \<Rightarrow>
   RewardBucket \<times> ValidatorPayout list \<times> EpochRewardSummary" where
  "Compute oob eng height validators =
     (let emission = EmissionAt oob (Schedule eng) height;
          emission = (if emission = 0 then BlockMintAt height else emission);
          (netShare, foundationShare, exchangeShare) = SplitMint emission;
          bucket = \<lparr>rb_Total = emission, rb_ValidatorShare = netShare,
            rb_FoundationShare = foundationShare, rb_ExchangeShare = exchangeShare\<rparr>;
          summary = \<lparr>es_Height = height, es_Epoch = currentEpoch eng height,
            es_TotalEmission = emission, es_ValidatorShare = netShare,
            es_FoundationShare = foundationShare, es_ExchangeShare = exchangeShare\<rparr>;
          weights = map (weight_of (Weights eng)) validators;
          totalWeight = fold (\<lambda>(_, w) acc. acc + w) weights 0
      in if totalWeight = 0 \<or> netShare = 0 then (bucket, [], summary)
         else
           let (payouts, remaining) = payout_loop netShare totalWeight weights netShare
           in (bucket, remainder_loop remaining payouts, summary))"

section \<open>state\_reward.go\<close>

record SupplyState =
  TotalMintedMas :: u64
  NetworkVaultMas :: u64
  FoundationVaultMas :: u64
  ExchangeVaultMas :: u64
  LastUpdatedHeight :: u64

definition zeroSupply :: SupplyState where
  "zeroSupply = \<lparr>TotalMintedMas = 0, NetworkVaultMas = 0, FoundationVaultMas = 0,
     ExchangeVaultMas = 0, LastUpdatedHeight = 0\<rparr>"

definition ApplyBlockMint :: "SupplyState \<Rightarrow> u64 \<Rightarrow> SupplyState \<times> u64 \<times> u64" where
  "ApplyBlockMint s height =
     (let minted = BlockMintAt height;
          (network, foundation, exchange) = SplitMint minted
      in (\<lparr>TotalMintedMas = TotalMintedMas s + minted,
           NetworkVaultMas = NetworkVaultMas s + network,
           FoundationVaultMas = FoundationVaultMas s + foundation,
           ExchangeVaultMas = ExchangeVaultMas s + exchange,
           LastUpdatedHeight = height\<rparr>, EpochOf height, minted))"

text \<open>
  The JSON object of a supply state, as \<open>json.Marshal\<close> writes it. Reading it is a parameter
  \<open>unm\<close>, of which \<open>reads_json\<close> says that it reads back what was written.
\<close>

definition supply_fields :: "SupplyState \<Rightarrow> (string \<times> u64) list" where
  "supply_fields s =
     [(''total_minted_mas'', TotalMintedMas s), (''network_vault_mas'', NetworkVaultMas s),
      (''foundation_vault_mas'', FoundationVaultMas s), (''exchange_vault_mas'', ExchangeVaultMas s),
      (''last_height'', LastUpdatedHeight s)]"

definition supply_json :: "SupplyState \<Rightarrow> bytes" where
  "supply_json s = bytes_of (json_uints (supply_fields s))"

definition reads_json :: "(bytes \<Rightarrow> 'a option) \<Rightarrow> ('a \<Rightarrow> bytes) \<Rightarrow> bool" where
  "reads_json unm enc \<longleftrightarrow> (\<forall>x. unm (enc x) = Some x)"

definition supplyCurrentKey :: string where "supplyCurrentKey = ''supply/current''"
definition supplyHistoryPrefix :: string where "supplyHistoryPrefix = ''supply/history/''"

definition supplyHistoryKey :: "u64 \<Rightarrow> string" where
  "supplyHistoryKey height = supplyHistoryPrefix @ pad20 (unat height)"

definition loadSupplyState :: "(bytes \<Rightarrow> SupplyState option) \<Rightarrow> DB \<Rightarrow> SupplyState \<times> bool" where
  "loadSupplyState unm db =
     (case GetKey supplyCurrentKey db of
        Some blob \<Rightarrow> (case unm blob of Some st \<Rightarrow> (st, True) | None \<Rightarrow> (zeroSupply, False))
      | None \<Rightarrow> (zeroSupply, False))"

definition loadSupplyStateAt :: "(bytes \<Rightarrow> SupplyState option) \<Rightarrow> DB \<Rightarrow> u64 \<Rightarrow> SupplyState \<times> bool" where
  "loadSupplyStateAt unm db height =
     (case GetKey (supplyHistoryKey height) db of
        None \<Rightarrow> (zeroSupply, False)
      | Some blob \<Rightarrow> (case unm blob of None \<Rightarrow> (zeroSupply, False) | Some st \<Rightarrow> (st, True)))"

definition persistSupplyState :: "DB \<Rightarrow> u64 \<Rightarrow> SupplyState \<Rightarrow> DB" where
  "persistSupplyState db height st =
     (let payload = supply_json st
      in SetKey (supplyHistoryKey height) payload (SetKey supplyCurrentKey payload db))"

section \<open>The split conserves the mint\<close>

lemmas split_defs = split_Network_def split_Foundation_def split_Exchange_def

lemma share_le: "unat (amount * p div 100 :: u64) \<le> unat amount * unat p div 100"
  by (simp add: unat_div unat_word_ariths div_le_mono)

lemma SplitMint_sum:
  assumes "SplitMint amount = (n, f, x)"
  shows "unat n + unat f + unat x = unat amount"
proof (cases "amount = 0")
  case False
  let ?n = "amount * split_Network div 100" and ?f = "amount * split_Foundation div 100"
    and ?x = "amount * split_Exchange div 100"
  have parts: "unat ?n \<le> unat amount * 80 div 100" "unat ?f \<le> unat amount * 10 div 100"
    "unat ?x \<le> unat amount * 10 div 100"
    using share_le [of amount split_Network] share_le [of amount split_Foundation]
      share_le [of amount split_Exchange] by (simp_all add: split_defs)
  have "k * 80 div 100 + k * 10 div 100 + k * 10 div 100 \<le> k" for k :: nat
    using div_times_less_eq_dividend [of "k * 80" 100] div_times_less_eq_dividend [of "k * 10" 100]
    by linarith
  from this [of "unat amount"] parts have sum: "unat ?n + unat ?f + unat ?x \<le> unat amount"
    by linarith
  then have assigned: "unat (?n + ?f + ?x) = unat ?n + unat ?f + unat ?x"
    using unat_u64_lt [of amount] u64_add_exact [of ?n ?f] u64_add_exact [of "?n + ?f" ?x] by linarith
  define d where "d = amount - (?n + ?f + ?x)"
  have "unat d = unat amount - unat (?n + ?f + ?x)"
    using sum assigned unfolding d_def by (intro u64_sub_exact) (simp add: u64_le_iff)
  then have "unat (?n + d) = unat ?n + unat d"
    using assigned sum unat_u64_lt [of amount] by (intro u64_add_exact) linarith
  with \<open>unat d = _\<close> sum assigned assms False show ?thesis
    by (auto simp: SplitMint_def Let_def u64_less_iff d_def [symmetric] split: if_splits)
qed (use assms in \<open>simp add: SplitMint_def\<close>)

text \<open>
  Fact. \<open>SplitMint\<close> conserves every amount: the three shares add up to it exactly, also
  for amounts so large that the percentage products wrap around.
\<close>

theorem SplitMint_conserves:
  "case SplitMint amount of (n, f, x) \<Rightarrow> unat n + unat f + unat x = unat amount"
  using SplitMint_sum by (cases "SplitMint amount") simp

section \<open>The emission curve\<close>

lemma rne_0 [simp]: "rne p 0 = p"
  by (simp add: rne_def)

lemma f64_of_base: "f64_of_u64 BaseBlockMintMas = Fin 1000000 0"
  by (simp add: f64_of_u64_def fl_def BaseBlockMintMas_def blen.simps)

lemma round_scaled_le_one:
  assumes "le_one y"
  shows "\<exists>n \<le> 1000000. fround (fmul (Fin 1000000 0) y) = Some n"
proof -
  from assms obtain m e where y: "y = Fin m e" "e \<le> 0" "m \<le> 2 ^ nat (- e)" by (cases y) auto
  define p k where "p = 1000000 * m" and "k = blen p - 53"
  have p: "p \<le> 1000000 * 2 ^ nat (- e)" using y(3) by (simp add: p_def)
  also have "\<dots> \<le> 2 ^ (20 + nat (- e))" by (simp add: power_add)
  finally have "blen p \<le> 20 + nat (- e) + 1" by (rule blen_le)
  then have k: "k \<le> nat (- e)" by (simp add: k_def)
  define s where "s = nat (- e) - k"
  have e: "e + int k = - int s" using k y(2) by (simp add: s_def)
  have "nat (- e) = s + k" using k by (simp add: s_def)
  then have "p \<le> 1000000 * 2 ^ s * 2 ^ k" using p by (simp add: power_add)
  then have q: "rne p k \<le> 1000000 * 2 ^ s" by (rule rne_le)
  have "fmul (Fin 1000000 0) y = Fin (rne p k) (- int s)"
    by (simp add: y(1) fl_def Let_def e flip: p_def k_def)
  moreover have "(2 * rne p k + 2 ^ s) div 2 ^ (s + 1) \<le> 1000000"
  proof -
    have "2 * rne p k + 2 ^ s \<le> 2000001 * 2 ^ s" using q by simp
    also have "\<dots> < (1000000 + 1) * 2 ^ (s + 1)" by simp
    finally have "2 * rne p k + 2 ^ s < (1000000 + 1) * 2 ^ (s + 1)" .
    then have "(2 * rne p k + 2 ^ s) div 2 ^ (s + 1) < 1000000 + 1" by (rule less_mult_imp_div_less)
    then show ?thesis by simp
  qed
  ultimately show ?thesis using q by (cases "s = 0") auto
qed

lemma BlockMintAt_le: "unat (BlockMintAt height) \<le> 1000000"
proof -
  have "le_one (EmissionMultiplierAt height)"
    by (simp add: EmissionMultiplierAt_def EmissionIntervalBlocks_def le_one_fpow PhiRatio_def blen.simps)
  from round_scaled_le_one [OF this] obtain n where "n \<le> 1000000"
    "fround (fmul (Fin 1000000 0) (EmissionMultiplierAt height)) = Some n" by blast
  then show ?thesis by (simp add: BlockMintAt_def f64_of_base to_u64_def unat_of_nat)
qed

definition mint_of_epoch :: "nat \<Rightarrow> u64" where
  "mint_of_epoch n = to_u64 0 (fround (fmul (Fin 1000000 0) (fpow PhiRatio n)))"

lemma BlockMintAt_epoch: "BlockMintAt height = mint_of_epoch (unat height div 20000000)"
  by (simp add: BlockMintAt_def f64_of_base mint_of_epoch_def EmissionMultiplierAt_def
      EmissionIntervalBlocks_def unat_div Let_def)

lemma mint_of_epoch_01: "mint_of_epoch 0 = 1000000" "mint_of_epoch 1 = 618034"
  by (simp_all add: mint_of_epoch_def fpow_def PhiRatio_def pow_loop.simps blen.simps fl_def rne_def
      fone_def to_u64_def Let_def)

text \<open>
  Fact. The minted amount never exceeds the base amount of one million, whatever the
  height and the rounding of the floating-point power; it is the same for all heights of an
  interval, the base amount in the first interval, and 618034 in the second.
\<close>

theorem BlockMintAt_curve:
  "unat (BlockMintAt height) \<le> 1000000
   \<and> BlockMintAt (height div EmissionIntervalBlocks * EmissionIntervalBlocks) = BlockMintAt height
   \<and> BlockMintAt height = (if height < EmissionIntervalBlocks then BaseBlockMintMas
       else if height < 2 * EmissionIntervalBlocks then 618034 else BlockMintAt height)"
proof (intro conjI BlockMintAt_le)
  have q: "unat (height div EmissionIntervalBlocks) = unat height div 20000000"
    and i: "unat EmissionIntervalBlocks = 20000000"
    by (simp_all add: EmissionIntervalBlocks_def unat_div)
  have "unat height div 20000000 * 20000000 < 18446744073709551616"
    using div_times_less_eq_dividend [of "unat height" 20000000] unat_u64_lt [of height] by linarith
  then have "unat (height div EmissionIntervalBlocks * EmissionIntervalBlocks)
      = unat height div 20000000 * 20000000"
    by (subst u64_mult_exact) (simp_all only: q i)
  then show "BlockMintAt (height div EmissionIntervalBlocks * EmissionIntervalBlocks) = BlockMintAt height"
    by (simp add: BlockMintAt_epoch)
  have "unat height div 20000000 = 1" if "\<not> height < 20000000" "height < 40000000"
    using that by (simp add: u64_less_iff)
  then show "BlockMintAt height = (if height < EmissionIntervalBlocks then BaseBlockMintMas
       else if height < 2 * EmissionIntervalBlocks then 618034 else BlockMintAt height)"
    by (auto simp: BlockMintAt_epoch EmissionIntervalBlocks_def BaseBlockMintMas_def u64_less_iff mint_of_epoch_01
        simp flip: One_nat_def)
qed

section \<open>Supply counters\<close>

abbreviation mint_all :: "u64 list \<Rightarrow> SupplyState \<Rightarrow> SupplyState" where
  "mint_all \<equiv> fold (\<lambda>h s. fst (ApplyBlockMint s h))"

definition supply_ok :: "nat \<Rightarrow> SupplyState \<Rightarrow> bool" where
  "supply_ok n s \<longleftrightarrow> unat (TotalMintedMas s) = n
     \<and> unat (NetworkVaultMas s) + unat (FoundationVaultMas s) + unat (ExchangeVaultMas s) = n"

lemma supply_ok_zero: "supply_ok 0 zeroSupply"
  by (simp add: supply_ok_def zeroSupply_def)

lemma ApplyBlockMint_ok:
  assumes "supply_ok n s" and "n + unat (BlockMintAt h) < 2 ^ 64"
  shows "supply_ok (n + unat (BlockMintAt h)) (fst (ApplyBlockMint s h))"
proof -
  obtain a b c where split: "SplitMint (BlockMintAt h) = (a, b, c)" by (cases "SplitMint (BlockMintAt h)")
  from SplitMint_sum [OF split] assms show ?thesis
    by (simp add: supply_ok_def ApplyBlockMint_def split u64_add_exact Let_def)
qed

lemma mint_all_ok:
  assumes "supply_ok n s" and "n + 1000000 * length hs < 2 ^ 64"
  shows "supply_ok (n + (\<Sum>h\<leftarrow>hs. unat (BlockMintAt h))) (mint_all hs s)"
  using assms
proof (induction hs arbitrary: n s)
  case (Cons h hs)
  have "n + unat (BlockMintAt h) + 1000000 * length hs < 2 ^ 64"
    using Cons.prems(2) BlockMintAt_le [of h] by simp
  with Cons.prems ApplyBlockMint_ok [of n s h]
    Cons.IH [of "n + unat (BlockMintAt h)" "fst (ApplyBlockMint s h)"]
  show ?case by (simp add: add.assoc)
qed simp

text \<open>
  Fact. Supply accounting: after minting for any heights, in any order and starting from
  nothing, the total is the exact sum of the block mints and the three vaults add up to the
  total, as long as a million per block fits in 64 bits.
\<close>

theorem supply_accounting:
  assumes "1000000 * length hs < 2 ^ 64"
  shows "unat (TotalMintedMas (mint_all hs zeroSupply)) = (\<Sum>h\<leftarrow>hs. unat (BlockMintAt h))
    \<and> unat (NetworkVaultMas (mint_all hs zeroSupply)) + unat (FoundationVaultMas (mint_all hs zeroSupply))
        + unat (ExchangeVaultMas (mint_all hs zeroSupply))
      = unat (TotalMintedMas (mint_all hs zeroSupply))"
  using mint_all_ok [OF supply_ok_zero, of hs] assms by (simp add: supply_ok_def)

theorem supply_accounting_witness:
  "unat (TotalMintedMas (mint_all [1, 2, 3] zeroSupply)) = 3000000"
  using supply_accounting [of "[1, 2, 3]"] by (simp add: BlockMintAt_epoch mint_of_epoch_01)

definition read_supply :: "bytes \<Rightarrow> SupplyState option" where
  "read_supply b =
     (case read_uints (map fst (supply_fields zeroSupply)) (map (\<lambda>x. char_of (unat x)) b) of
        Some [t, n, f, x, h] \<Rightarrow> Some \<lparr>TotalMintedMas = t, NetworkVaultMas = n,
          FoundationVaultMas = f, ExchangeVaultMas = x, LastUpdatedHeight = h\<rparr>
      | _ \<Rightarrow> None)"

lemma chars_of_bytes_of [simp]: "map (\<lambda>x. char_of (unat x)) (bytes_of s) = s"
  by (simp add: bytes_of_def comp_def)

lemma read_supply_reads: "reads_json read_supply supply_json"
proof -
  have "read_supply (supply_json s) = Some s" for s
    using read_uints_json [of "supply_fields s"]
    by (cases s) (simp add: read_supply_def supply_json_def supply_fields_def)
  then show ?thesis by (simp add: reads_json_def)
qed

lemma supplyHistoryKey_inject [simp]: "supplyHistoryKey g = supplyHistoryKey h \<longleftrightarrow> g = h"
  by (simp add: supplyHistoryKey_def u64_eq_iff)

lemma supplyHistoryKey_not_current [simp]:
  "supplyHistoryKey h \<noteq> supplyCurrentKey" "supplyCurrentKey \<noteq> supplyHistoryKey h"
  by (simp_all add: supplyHistoryKey_def supplyCurrentKey_def supplyHistoryPrefix_def)

text \<open>
  Fact. What \<open>persistSupplyState\<close> writes is what the loaders read: the current state and
  the state of that height are the written one, every other height is unaffected.
\<close>

theorem supply_roundtrip:
  assumes "reads_json unm supply_json"
  shows "loadSupplyState unm (persistSupplyState db h st) = (st, True)
    \<and> loadSupplyStateAt unm (persistSupplyState db h st) g
      = (if g = h then (st, True) else loadSupplyStateAt unm db g)"
  using assms
  by (simp add: reads_json_def loadSupplyState_def loadSupplyStateAt_def persistSupplyState_def
      kvs.lookup_put_same kvs.lookup_put_other Let_def)

theorem supply_roundtrip_witness:
  "loadSupplyStateAt read_supply (persistSupplyState NewDB 7 zeroSupply) 7 = (zeroSupply, True)"
  using supply_roundtrip [OF read_supply_reads, of NewDB 7 zeroSupply 7] by simp

section \<open>Validator payouts\<close>

definition amounts :: "ValidatorPayout list \<Rightarrow> nat" where
  "amounts ps = (\<Sum>p\<leftarrow>ps. unat (vp_Amount p))"

lemma payout_loop_spec:
  assumes "\<forall>p \<in> set ws. unat share * unat (snd p) < 2 ^ 64"
    and "0 < unat W" and "(\<Sum>p\<leftarrow>ws. unat share * unat (snd p) div unat W) \<le> unat r"
    and "payout_loop share W ws r = (ps, r')"
  shows "map vp_Address ps = map fst (filter (\<lambda>p. snd p \<noteq> 0) ws)
    \<and> amounts ps = (\<Sum>p\<leftarrow>ws. unat share * unat (snd p) div unat W)
    \<and> unat r' = unat r - amounts ps"
  using assms
proof (induction ws arbitrary: r ps)
  case (Cons aw ws)
  obtain a w where aw: "aw = (a, w)" by (cases aw)
  show ?case
  proof (cases "w = 0")
    case True
    with Cons aw show ?thesis by simp
  next
    case False
    define x where "x = share * w div W"
    have x: "unat x = unat share * unat w div unat W"
      using Cons.prems(1) by (simp add: aw x_def unat_div u64_mult_exact)
    have r: "unat (r - x) = unat r - unat x"
      using Cons.prems(3) x by (intro u64_sub_exact) (simp add: aw u64_le_iff)
    obtain qs where qs: "payout_loop share W ws (r - x) = (qs, r')"
      and ps: "ps = \<lparr>vp_Address = a, vp_Amount = x\<rparr> # qs"
      using Cons.prems(4) False by (auto simp: aw Let_def x_def split: prod.splits)
    have "(\<Sum>p\<leftarrow>ws. unat share * unat (snd p) div unat W) \<le> unat (r - x)"
      using Cons.prems(3) by (simp add: aw r x)
    from Cons.IH [OF _ Cons.prems(2) this qs] Cons.prems(1) False x r show ?thesis
      by (simp add: aw ps amounts_def)
  qed
qed (simp add: amounts_def)

lemma remainder_loop_sum:
  assumes "unat r \<le> length ps" and "amounts ps + unat r < 2 ^ 64"
  shows "amounts (remainder_loop r ps) = amounts ps + unat r
    \<and> map vp_Address (remainder_loop r ps) = map vp_Address ps"
  using assms
proof (induction r ps rule: remainder_loop.induct)
  case (2 r p ps)
  show ?case
  proof (cases "r = 0")
    case False
    then have pos: "0 < unat r" by (simp add: unat_gt_0)
    then have r: "unat (r - 1) = unat r - 1"
      by (intro u64_sub_exact [THEN trans]) (simp_all add: u64_le_iff Suc_le_eq)
    have "unat (vp_Amount p + 1) = unat (vp_Amount p) + 1"
      using "2.prems"(2) pos by (simp add: amounts_def u64_add_exact)
    moreover have "amounts (remainder_loop (r - 1) ps) = amounts ps + unat (r - 1)
        \<and> map vp_Address (remainder_loop (r - 1) ps) = map vp_Address ps"
      using 2 False pos r by (intro "2.IH") (auto simp: word_gt_0 amounts_def)
    ultimately show ?thesis using False pos r by (simp add: amounts_def word_gt_0)
  qed (simp add: amounts_def)
qed (simp add: amounts_def)

text \<open>Shares rounded down lose at most one unit per share.\<close>

lemma floor_shares:
  assumes "0 < (W :: nat)" and "sum_list ws = W"
  shows "(\<Sum>w\<leftarrow>ws. S * w div W) \<le> S \<and> S \<le> (\<Sum>w\<leftarrow>ws. S * w div W) + length (filter (\<lambda>w. w \<noteq> 0) ws)"
proof -
  have up: "W * (\<Sum>w\<leftarrow>vs. S * w div W) \<le> S * sum_list vs" for vs
  proof (induction vs)
    case (Cons v vs)
    have "W * (S * v div W) \<le> S * v" by (rule times_div_less_eq_dividend)
    with Cons show ?case by (simp add: distrib_left add_mono)
  qed simp
  have down: "S * sum_list vs \<le> W * ((\<Sum>w\<leftarrow>vs. S * w div W) + length (filter (\<lambda>w. w \<noteq> 0) vs))" for vs
  proof (induction vs)
    case (Cons v vs)
    have "S * v \<le> W * (S * v div W) + W"
      using assms(1) by (metis dividend_less_times_div less_imp_le mult.commute add.commute)
    with Cons show ?case by (cases "v = 0") (simp_all add: distrib_left)
  qed simp
  from up [of ws] down [of ws] assms show ?thesis by (auto simp: mult.commute [of _ W])
qed

lemma fold_weights:
  "unat acc + (\<Sum>p\<leftarrow>ws. unat (snd p)) < 2 ^ 64 \<Longrightarrow>
   unat (fold (\<lambda>(_, w) acc. acc + w) ws (acc :: u64)) = unat acc + (\<Sum>p\<leftarrow>ws. unat (snd p))"
proof (induction ws arbitrary: acc)
  case (Cons aw ws)
  then show ?case by (cases aw) (simp add: u64_add_exact)
qed simp

abbreviation weights_of :: "RewardEngine \<Rightarrow> ValidatorScore list \<Rightarrow> (string \<times> u64) list" where
  "weights_of eng vs \<equiv> map (weight_of (Weights eng)) vs"

lemma payouts_exact:
  assumes "(\<Sum>p\<leftarrow>ws. unat (snd p)) = unat W" and "0 < unat W"
    and "\<forall>p \<in> set ws. unat S * unat (snd p) < 2 ^ 64"
    and "payout_loop S W ws S = (ps, r)"
  shows "map vp_Address (remainder_loop r ps) = map fst (filter (\<lambda>p. snd p \<noteq> 0) ws)
    \<and> amounts (remainder_loop r ps) = unat S"
proof -
  have filt: "length (filter (\<lambda>w. w \<noteq> 0) (map (\<lambda>p. unat (snd p)) ws)) = length (filter (\<lambda>p. snd p \<noteq> 0) ws)"
    by (simp add: filter_map comp_def unat_gt_0)
  have bounds: "(\<Sum>p\<leftarrow>ws. unat S * unat (snd p) div unat W) \<le> unat S"
    "unat S \<le> (\<Sum>p\<leftarrow>ws. unat S * unat (snd p) div unat W) + length (filter (\<lambda>p. snd p \<noteq> 0) ws)"
    using floor_shares [OF assms(2), of "map (\<lambda>p. unat (snd p)) ws" "unat S"] assms(1) filt
    by (simp_all add: comp_def)
  note loop = payout_loop_spec [OF assms(3,2) bounds(1) assms(4)]
  then have "length ps = length (filter (\<lambda>p. snd p \<noteq> 0) ws)" by (metis length_map)
  with loop bounds remainder_loop_sum [of r ps] show ?thesis by simp
qed

lemma Compute_payouts:
  assumes "Compute oob eng height vs = (bucket, payouts, summary)"
    and "(\<Sum>p\<leftarrow>weights_of eng vs. unat (snd p)) < 2 ^ 64"
    and "\<forall>p \<in> set (weights_of eng vs). unat (rb_ValidatorShare bucket) * unat (snd p) < 2 ^ 64"
    and "\<exists>p \<in> set (weights_of eng vs). snd p \<noteq> 0"
  shows "amounts payouts = unat (rb_ValidatorShare bucket)
    \<and> map vp_Address payouts = (if rb_ValidatorShare bucket = 0 then []
        else map fst (filter (\<lambda>p. snd p \<noteq> 0) (weights_of eng vs)))"
proof -
  let ?ws = "weights_of eng vs"
  define emission where
    "emission = (let e = EmissionAt oob (Schedule eng) height in if e = 0 then BlockMintAt height else e)"
  obtain S f x where split: "SplitMint emission = (S, f, x)" by (cases "SplitMint emission")
  define W where "W = fold (\<lambda>(_, w) acc. acc + w) ?ws (0 :: u64)"
  have W: "(\<Sum>p\<leftarrow>?ws. unat (snd p)) = unat W"
    using fold_weights [of 0 ?ws] assms(2) by (simp add: W_def)
  from assms(4) obtain p where p: "p \<in> set ?ws" "0 < unat (snd p)" by (meson unat_gt_0)
  then have "unat (snd p) \<le> unat W"
    unfolding W [symmetric] by (intro member_le_sum_list) auto
  with p(2) have Wpos: "0 < unat W" by simp
  obtain ps r where loop: "payout_loop S W ?ws S = (ps, r)" by fastforce
  have "rb_ValidatorShare bucket = S" and "payouts = (if S = 0 then [] else remainder_loop r ps)"
    using assms(1) Wpos
    by (auto simp: Compute_def emission_def [unfolded Let_def, symmetric] split
        loop [unfolded W_def] W_def Let_def unat_gt_0 split: if_splits)
  with payouts_exact [OF W Wpos _ loop] assms(3) show ?thesis by (auto simp: amounts_def)
qed

text \<open>
  Property C31. An epoch's payouts are exact: if some weight is positive, the weights add up
  within 64 bits and no product of the validators' share with a weight wraps, then the payments
  add up to the validators' share of the emission, and unless that share is zero exactly the
  validators with a positive weight are paid, in the order of the list.
\<close>

theorem Compute_payouts_exact:
  assumes "Compute oob eng height vs = (bucket, payouts, summary)"
    and "(\<Sum>p\<leftarrow>weights_of eng vs. unat (snd p)) < 2 ^ 64"
    and "\<forall>p \<in> set (weights_of eng vs). unat (rb_ValidatorShare bucket) * unat (snd p) < 2 ^ 64"
    and "\<exists>p \<in> set (weights_of eng vs). snd p \<noteq> 0"
  shows "amounts payouts = unat (rb_ValidatorShare bucket)
    \<and> map vp_Address payouts = (if rb_ValidatorShare bucket = 0 then []
        else map fst (filter (\<lambda>p. snd p \<noteq> 0) (weights_of eng vs)))"
  using assms by (rule Compute_payouts)

definition demo_engine :: RewardEngine where
  "demo_engine = \<lparr>Schedule = \<lparr>BaseEmission = 1000, DecayRatio = fone, EpochBlocks = 0\<rparr>,
     Weights = \<lparr>StakeBase = [(StakeClassG1, 100), (StakeClassG2, 50)], PoolMultiplier = 2\<rparr>\<rparr>"

definition demo_scores :: "ValidatorScore list" where
  "demo_scores =
     [\<lparr>vs_Address = ''a'', vs_StakeClass = StakeClassG1, vs_ConsensusScore = 5, vs_Participation = 0,
        vs_PoolNode = False\<rparr>,
      \<lparr>vs_Address = ''b'', vs_StakeClass = StakeClassG3, vs_ConsensusScore = - 7, vs_Participation = 0,
        vs_PoolNode = False\<rparr>,
      \<lparr>vs_Address = ''c'', vs_StakeClass = StakeClassG2, vs_ConsensusScore = 0, vs_Participation = 3,
        vs_PoolNode = True\<rparr>]"

theorem Compute_payouts_exact_witness:
  "\<exists>bucket payouts summary. Compute 0 demo_engine 5 demo_scores = (bucket, payouts, summary)
     \<and> rb_ValidatorShare bucket = 800 \<and> amounts payouts = 800 \<and> map vp_Address payouts = [''a'', ''c'']"
proof -
  obtain bucket payouts summary where c: "Compute 0 demo_engine 5 demo_scores = (bucket, payouts, summary)"
    by (cases "Compute 0 demo_engine 5 demo_scores")
  have ws: "weights_of demo_engine demo_scores = [(''a'', 105), (''b'', 0), (''c'', 106)]"
    by (simp add: demo_engine_def demo_scores_def weight_of_def Let_def)
  have "bucket = fst (Compute 0 demo_engine 5 demo_scores)" by (simp add: c)
  then have "rb_ValidatorShare bucket = 800"
    by (simp add: Compute_def demo_engine_def EmissionAt_def SplitMint_def split_defs Let_def
        split: prod.splits)
  with Compute_payouts_exact [OF c] c show ?thesis by (simp add: ws)
qed

end
