(* ===== verification/Types.thy ===== *)
theory Types
  imports State
begin

text \<open>
  \<open>internal/codec\<close> and \<open>internal/types\<close>: the values handed to the canonical CBOR encoder,
  the round and Eternity headers, commit bundles, receipts and the two Merkle proof types. The
  CBOR library is a parameter \<open>cbor\<close> from values to bytes or an error, BLAKE3 a parameter
  \<open>b3\<close>. A 32-byte array is a byte list; where its length matters it is a hypothesis.
\<close>

section \<open>codec/canonical\_cbor.go\<close>

text \<open>
  Go values as \<open>reflect\<close> sees them. A nil interface or pointer is \<open>GPtr None\<close>; a byte slice
  has its own constructor, and so has the nil byte slice, which the CBOR library does not encode
  as it encodes an empty one.
\<close>

datatype goval =
    GInvalid
  | GFloat
  | GBool bool
  | GUint u64
  | GInt i64
  | GString string
  | GBytes bytes
  | GNilBytes
  | GPtr "goval option"
  | GStruct "goval list"
  | GSlice "goval list"
  | GMap "(goval \<times> goval) list"

fun hasFloat :: "goval \<Rightarrow> bool" where
  "hasFloat GInvalid = False"
| "hasFloat GFloat = True"
| "hasFloat (GPtr None) = False"
| "hasFloat (GPtr (Some v)) = hasFloat v"
| "hasFloat (GStruct fs) = list_ex hasFloat fs"
| "hasFloat (GSlice vs) = list_ex hasFloat vs"
| "hasFloat (GMap kvs) = list_ex (\<lambda>(k, v). hasFloat k \<or> hasFloat v) kvs"
| "hasFloat _ = False"

type_synonym cbor = "goval \<Rightarrow> bytes result"

definition EncodeCBORCanonical :: "cbor \<Rightarrow> goval \<Rightarrow> bytes result" where
  "EncodeCBORCanonical cbor v =
     (if hasFloat v then Inl ''float values are not allowed in canonical CBOR'' else cbor v)"

text \<open>The value of \<open>append([]byte(nil), b...)\<close>: appending nothing to a nil slice leaves it nil.\<close>

definition append_nil :: "bytes \<Rightarrow> goval" where
  "append_nil b = (if b = [] then GNilBytes else GBytes b)"

section \<open>commit\_bundle.go\<close>

record CommitBundle =
  cb_Round :: u32
  cb_QuorumHash :: bytes
  cb_Bitmap :: bytes
  cb_Step :: u8
  cb_AggregateSig :: bytes

definition cb_canonicalFields :: "CommitBundle \<Rightarrow> goval" where
  "cb_canonicalFields c = GSlice
     [GUint (ucast (cb_Round c)), GBytes (cb_QuorumHash c), append_nil (cb_Bitmap c),
      GUint (ucast (cb_Step c)), append_nil (cb_AggregateSig c)]"

definition cb_CanonicalCBOR :: "cbor \<Rightarrow> CommitBundle \<Rightarrow> bytes result" where
  "cb_CanonicalCBOR cbor c = EncodeCBORCanonical cbor (cb_canonicalFields c)"

definition cb_Hash :: "(bytes \<Rightarrow> bytes) \<Rightarrow> cbor \<Rightarrow> CommitBundle \<Rightarrow> bytes result" where
  "cb_Hash b3 cbor c =
     (case cb_CanonicalCBOR cbor c of Inl e \<Rightarrow> Inl e | Inr b \<Rightarrow> Inr (b3 b))"

definition cb_Validate :: "CommitBundle \<Rightarrow> unit result" where
  "cb_Validate c =
     (if cb_Bitmap c = [] then Inl ''bitmap_required''
      else if cb_Step c = 0 then Inl ''step_required''
      else Inr ())"

section \<open>header.go\<close>

record RoundHeader =
  rh_Round :: u64
  rh_FromHeight :: u64
  rh_ToHeight :: u64
  rh_TxCount :: u64
  rh_Root :: string
  rh_TimeUTC :: i64
  rh_SignatureHex :: string

definition EternityHeaderVersionV1 :: u32 where "EternityHeaderVersionV1 = 1"
definition maxExtraDataLen :: nat where "maxExtraDataLen = 64"
definition EternityHeaderSignDomain :: bytes where
  "EternityHeaderSignDomain = bytes_of ''EternityHeader|v1|''"

record EternityHeader =
  eh_Version :: u32
  eh_ChainID :: string
  eh_Height :: u64
  eh_Round :: u32
  eh_TimeUTCUnix :: i64
  eh_PrevHash :: bytes
  eh_StateRoot :: bytes
  eh_TxRoot :: bytes
  eh_ReceiptsRoot :: bytes
  eh_CommitRoot :: bytes
  eh_ProposerPubKey :: bytes
  eh_EmissionEpoch :: u64
  eh_ConsensusParamsHash :: bytes
  eh_FeeRoot :: bytes
  eh_ExtraData :: bytes

definition zeroHeader :: EternityHeader where
  "zeroHeader = \<lparr>eh_Version = 0, eh_ChainID = [], eh_Height = 0, eh_Round = 0, eh_TimeUTCUnix = 0,
     eh_PrevHash = zero32, eh_StateRoot = zero32, eh_TxRoot = zero32, eh_ReceiptsRoot = zero32,
     eh_CommitRoot = zero32, eh_ProposerPubKey = zero32, eh_EmissionEpoch = 0,
     eh_ConsensusParamsHash = zero32, eh_FeeRoot = zero32, eh_ExtraData = []\<rparr>"

definition eh_Validate :: "EternityHeader \<Rightarrow> unit result" where
  "eh_Validate h =
     (if eh_Version h \<noteq> EternityHeaderVersionV1
      then Inl (''unsupported_version:'' @ dec_nat (unat (eh_Version h)))
      else if maxExtraDataLen < length (eh_ExtraData h)
      then Inl (''extra_data_too_large:'' @ dec_nat (length (eh_ExtraData h)))
      else Inr ())"

definition eh_canonicalFields :: "EternityHeader \<Rightarrow> goval" where
  "eh_canonicalFields h = GSlice
     [GUint (ucast (eh_Version h)), GString (eh_ChainID h), GUint (eh_Height h),
      GUint (ucast (eh_Round h)), GInt (eh_TimeUTCUnix h), GBytes (eh_PrevHash h),
      GBytes (eh_StateRoot h), GBytes (eh_TxRoot h), GBytes (eh_ReceiptsRoot h),
      GBytes (eh_CommitRoot h), GBytes (eh_ProposerPubKey h), GUint (eh_EmissionEpoch h),
      GBytes (eh_ConsensusParamsHash h), GBytes (eh_FeeRoot h), append_nil (eh_ExtraData h)]"

definition eh_CanonicalCBOR :: "cbor \<Rightarrow> EternityHeader \<Rightarrow> bytes result" where
  "eh_CanonicalCBOR cbor h = EncodeCBORCanonical cbor (eh_canonicalFields h)"

definition eh_Hash :: "(bytes \<Rightarrow> bytes) \<Rightarrow> cbor \<Rightarrow> EternityHeader \<Rightarrow> bytes result" where
  "eh_Hash b3 cbor h =
     (case eh_CanonicalCBOR cbor h of Inl e \<Rightarrow> Inl e | Inr b \<Rightarrow> Inr (b3 b))"

definition eh_SignBytes :: "cbor \<Rightarrow> EternityHeader \<Rightarrow> bytes result" where
  "eh_SignBytes cbor h =
     (case eh_CanonicalCBOR cbor h of
        Inl e \<Rightarrow> Inl e | Inr b \<Rightarrow> Inr (EternityHeaderSignDomain @ b))"

section \<open>receipt.go, signed\_header.go\<close>

record TxReceipt =
  rc_TxHash :: string
  rc_From :: string
  rc_To :: string
  rc_Amount :: u64
  rc_Fee :: u64
  rc_Nonce :: u64
  rc_Status :: string
  rc_Height :: u64
  rc_TimeUTC :: i64

record SignedHeader =
  sh_HeaderCBOR :: bytes
  sh_HeaderHash :: bytes
  sh_ProposerPubKey :: bytes
  sh_Signature :: bytes
  sh_CommitBundle :: "CommitBundle option"

section \<open>proof.go\<close>

record TxInclusionProof =
  tp_TxHash :: bytes
  tp_Siblings :: "bytes list"
  tp_Directions :: "u8 list"

definition tp_Verify :: "(bytes \<Rightarrow> bytes) \<Rightarrow> TxInclusionProof \<Rightarrow> bytes \<Rightarrow> bool result" where
  "tp_Verify b3 p root =
     (if length (tp_TxHash p) \<noteq> 32 then Inl ''tx proof: tx hash must be 32 bytes''
      else case BytesTo32 (tp_TxHash p) of
        Inl e \<Rightarrow> Inl e
      | Inr leaf \<Rightarrow> (case ComputeBlake3Root b3 leaf (tp_Siblings p) (tp_Directions p) of
          Inl e \<Rightarrow> Inl e
        | Inr computed \<Rightarrow> Inr (computed = root)))"

record StateProof =
  sp_Key :: bytes
  sp_Value :: bytes
  sp_Siblings :: "bytes list"
  sp_Directions :: "u8 list"
  sp_Version :: bytes

definition sp_VerifyBinary :: "(bytes \<Rightarrow> bytes) \<Rightarrow> StateProof \<Rightarrow> bytes \<Rightarrow> bool result" where
  "sp_VerifyBinary b3 p root =
     (let leafInput = (sp_Key p @ [0x00]) @ sp_Value p;
          leaf = Blake3Leaf b3 leafInput
      in case ComputeBlake3Root b3 leaf (sp_Siblings p) (sp_Directions p) of
           Inl e \<Rightarrow> Inl e
         | Inr computed \<Rightarrow> Inr (computed = root))"

section \<open>Encodings determine their values\<close>

lemma ucast_u32_inject [simp]: "(ucast (a :: u32) :: u64) = ucast b \<longleftrightarrow> a = b"
  by (metis unat_ucast_u32 word_unat_eq_iff)

lemma ucast_u8_inject [simp]: "(ucast (a :: u8) :: u64) = ucast b \<longleftrightarrow> a = b"
  by (metis unat_ucast_u8 word_unat_eq_iff)

lemma append_nil_inject [simp]: "append_nil a = append_nil b \<longleftrightarrow> a = b"
  by (simp add: append_nil_def)

lemma hasFloat_append_nil [simp]: "\<not> hasFloat (append_nil b)"
  by (simp add: append_nil_def)

lemma hasFloat_canonicalFields [simp]:
  "\<not> hasFloat (cb_canonicalFields c)" "\<not> hasFloat (eh_canonicalFields h)"
  by (simp_all add: cb_canonicalFields_def eh_canonicalFields_def)

lemma cb_canonicalFields_inject: "cb_canonicalFields c = cb_canonicalFields d \<longleftrightarrow> c = d"
  by (cases c; cases d) (auto simp: cb_canonicalFields_def)

lemma eh_canonicalFields_inject: "eh_canonicalFields g = eh_canonicalFields h \<longleftrightarrow> g = h"
  by (cases g; cases h) (auto simp: eh_canonicalFields_def)

lemma cb_Hash_eq:
  "cb_Hash b3 cbor c = (case cbor (cb_canonicalFields c) of Inl e \<Rightarrow> Inl e | Inr b \<Rightarrow> Inr (b3 b))"
  by (simp add: cb_Hash_def cb_CanonicalCBOR_def EncodeCBORCanonical_def)

lemma eh_Hash_eq:
  "eh_Hash b3 cbor h = (case cbor (eh_canonicalFields h) of Inl e \<Rightarrow> Inl e | Inr b \<Rightarrow> Inr (b3 b))"
  by (simp add: eh_Hash_def eh_CanonicalCBOR_def EncodeCBORCanonical_def)

lemma hasFloat_sound: "hasFloat v \<Longrightarrow> EncodeCBORCanonical cbor v \<noteq> Inr b"
  by (simp add: EncodeCBORCanonical_def)

section \<open>Proofs about accounts\<close>

abbreviation proof_steps :: "bytes list \<Rightarrow> u8 list \<Rightarrow> (bytes \<times> bool) list" where
  "proof_steps siblings directions \<equiv> zip siblings (map ((=) 1) directions)"

text \<open>All strings a check of \<open>p\<close> hashes.\<close>

definition proof_inputs :: "(bytes \<Rightarrow> bytes) \<Rightarrow> StateProof \<Rightarrow> bytes set" where
  "proof_inputs b3 p =
     (let l = leaf_in (sp_Key p @ 0 # sp_Value p)
      in insert l (path_inputs b3 node_in (b3 l) (proof_steps (sp_Siblings p) (sp_Directions p))))"

lemma StateProof_leaf:
  assumes len: "\<And>x. length (b3 x) = 32" and ne: "raw \<noteq> []"
    and ok: "sp_VerifyBinary b3 p (Blake3RootFromRaw b3 raw) = Inr True"
    and inj: "inj_on b3 (merkle_inputs b3 raw \<union> proof_inputs b3 p)"
  shows "sp_Key p @ 0 # sp_Value p \<in> set raw"
proof -
  let ?l = "leaf_in (sp_Key p @ 0 # sp_Value p)"
  have lens: "length (sp_Siblings p) = length (sp_Directions p)"
    and loop: "proof_loop b3 (b3 ?l) (sp_Siblings p) (sp_Directions p) = Inr (Blake3RootFromRaw b3 raw)"
    using ok by (auto simp: sp_VerifyBinary_def ComputeBlake3Root_def Blake3_as_inputs Let_def
        split: sum.splits if_splits)
  note steps = proof_loop_Inr [OF loop lens]
  show ?thesis
  proof (rule tagged.path_sound [OF len])
    show "tree_node b3 leaf_in node_in (set raw) (merkle_inputs b3 raw)
        (path_fold b3 node_in (b3 ?l) (proof_steps (sp_Siblings p) (sp_Directions p)))"
      using Blake3RootFromRaw_node [OF ne, of b3] by (simp add: steps [THEN conjunct1, symmetric])
    show "\<forall>(s, l) \<in> set (proof_steps (sp_Siblings p) (sp_Directions p)). length s = 32"
      using steps by (auto dest: set_zip_leftD)
  qed (use inj in \<open>simp add: proof_inputs_def Let_def\<close>)
qed

lemma state_leaves_mem:
  assumes "state_leaf addr acc \<in> set (state_leaves m)"
  shows "map_of m addr = Some acc"
proof -
  from assms have "addr \<in> set (map fst m)"
    and acc: "acc = (case map_of m addr of None \<Rightarrow> zeroAccount | Some a \<Rightarrow> a)"
    by (force simp: state_leaves_def state_leaf_inject)+
  then obtain a where "map_of m addr = Some a" by (auto dest: weak_map_of_SomeI)
  with acc show ?thesis by simp
qed

lemma state_leaves_nth:
  assumes "map_of m addr = Some acc"
  obtains i where "i < length (state_leaves m)" "state_leaves m ! i = state_leaf addr acc"
proof -
  have "addr \<in> set (sort (map fst m))" using assms by (force dest: map_of_SomeD)
  with assms have "state_leaf addr acc \<in> set (state_leaves m)" by (force simp: state_leaves_def)
  then show ?thesis using that by (metis in_set_conv_nth)
qed

text \<open>
  Property C15. Soundness of state proofs: if \<open>VerifyBinary\<close> accepts, against the state root of
  a database, a proof with key \<open>account/<addr>\<close> and the JSON of an account as value, then the
  database holds exactly that account at \<open>addr\<close>. No length or shape of the path is assumed;
  the hash has to be injective on the strings hashed for the root and for the proof.
\<close>

theorem StateProof_sound:
  assumes "\<And>x. length (b3 x) = 32" and "accts db \<noteq> []"
    and "sp_Key p = bytes_of (''account/'' @ addr)" and "sp_Value p = bytes_of (account_json acc)"
    and "sp_VerifyBinary b3 p (StateRoot b3 db) = Inr True"
    and "inj_on b3 (merkle_inputs b3 (state_leaves (accts db)) \<union> proof_inputs b3 p)"
  shows "map_of (accts db) addr = Some acc"
proof (rule state_leaves_mem)
  have "state_leaves (accts db) \<noteq> []" using assms(2)
    by (cases "accts db") (simp_all add: state_leaves_def)
  moreover have "sp_VerifyBinary b3 p (Blake3RootFromRaw b3 (state_leaves (accts db))) = Inr True"
    using assms(2,5) by (simp add: StateRoot_def)
  ultimately have "sp_Key p @ 0 # sp_Value p \<in> set (state_leaves (accts db))"
    using StateProof_leaf [of b3, OF assms(1) _ _ assms(6)] by blast
  then show "state_leaf addr acc \<in> set (state_leaves (accts db))"
    by (simp add: assms(3,4) state_leaf_def bytes_of_def)
qed

definition demo_proof :: StateProof where
  "demo_proof = \<lparr>sp_Key = bytes_of ''account/tho1alice'',
     sp_Value = bytes_of (account_json \<lparr>acc_balance = 100, acc_nonce = 0\<rparr>),
     sp_Siblings = [], sp_Directions = [], sp_Version = []\<rparr>"

theorem StateProof_sound_witness:
  "sp_VerifyBinary toy_hash demo_proof (StateRoot toy_hash demo_db) = Inr True
   \<and> map_of (accts demo_db) ''tho1alice'' = Some \<lparr>acc_balance = 100, acc_nonce = 0\<rparr>"
proof -
  have ok: "sp_VerifyBinary toy_hash demo_proof (StateRoot toy_hash demo_db) = Inr True"
    by (simp add: sp_VerifyBinary_def demo_proof_def StateRoot_def demo_db_def state_leaves_def
        state_leaf_def ComputeBlake3Root_def Blake3RootFromRaw_def Blake3Leaf_def bytes_of_def Let_def)
  moreover have "map_of (accts demo_db) ''tho1alice'' = Some \<lparr>acc_balance = 100, acc_nonce = 0\<rparr>"
  proof (rule StateProof_sound [of toy_hash demo_db demo_proof])
    have "merkle_inputs toy_hash (state_leaves (accts demo_db)) \<union> proof_inputs toy_hash demo_proof
        = {leaf_in (state_leaf ''tho1alice'' \<lparr>acc_balance = 100, acc_nonce = 0\<rparr>)}"
      by (simp add: merkle_inputs_def proof_inputs_def demo_db_def demo_proof_def state_leaves_def
          state_leaf_def bytes_of_def)
    then show "inj_on toy_hash
        (merkle_inputs toy_hash (state_leaves (accts demo_db)) \<union> proof_inputs toy_hash demo_proof)"
      by simp
  qed (use ok in \<open>simp_all add: demo_db_def demo_proof_def\<close>)
  ultimately show ?thesis by simp
qed

text \<open>
  Fact. Completeness of state proofs: every account of a database has a proof that
  \<open>VerifyBinary\<close> accepts against the database's state root.
\<close>

theorem StateProof_complete:
  assumes "\<And>x. length (b3 x) = 32" and "map_of (accts db) addr = Some acc"
  shows "\<exists>siblings directions.
    sp_VerifyBinary b3 \<lparr>sp_Key = bytes_of (''account/'' @ addr), sp_Value = bytes_of (account_json acc),
      sp_Siblings = siblings, sp_Directions = directions, sp_Version = []\<rparr> (StateRoot b3 db) = Inr True"
proof -
  obtain i where i: "i < length (state_leaves (accts db))"
    "state_leaves (accts db) ! i = state_leaf addr acc"
    using assms(2) by (rule state_leaves_nth)
  have "accts db \<noteq> []" using assms(2) by auto
  then have root: "StateRoot b3 db = Blake3RootFromRaw b3 (state_leaves (accts db))"
    by (simp add: StateRoot_def)
  from honest_path [of b3, OF assms(1) i(1)] obtain sib dirs where
    "ComputeBlake3Root b3 (Blake3Leaf b3 (state_leaf addr acc)) sib dirs
     = Inr (Blake3RootFromRaw b3 (state_leaves (accts db)))"
    unfolding i(2) by blast
  then show ?thesis unfolding root
    by (intro exI [of _ sib] exI [of _ dirs])
      (simp add: sp_VerifyBinary_def state_leaf_def bytes_of_def Let_def)
qed

theorem StateProof_complete_witness:
  "\<exists>siblings directions.
    sp_VerifyBinary toy_hash \<lparr>sp_Key = bytes_of (''account/'' @ ''tho1alice''),
      sp_Value = bytes_of (account_json \<lparr>acc_balance = 100, acc_nonce = 0\<rparr>),
      sp_Siblings = siblings, sp_Directions = directions, sp_Version = []\<rparr>
      (StateRoot toy_hash demo_db) = Inr True"
  by (rule StateProof_complete) (simp_all add: demo_db_def)

text \<open>
  Fact. A transaction proof starts from the caller's 32 bytes without the leaf tag, so
  inner nodes pass as transaction hashes: whenever a proof is accepted, the parent of its first
  step is accepted as an included transaction too, with the rest of the path. Repeating the step
  ends with the root itself and the empty path.
\<close>

theorem TxInclusionProof_inner_node:
  assumes "\<And>x. length (b3 x) = 32" and "d \<in> {0, 1}"
    and "tp_Verify b3 \<lparr>tp_TxHash = tx, tp_Siblings = s # ss, tp_Directions = d # ds\<rparr> root = Inr True"
  shows "tp_Verify b3 \<lparr>tp_TxHash = (if d = 0 then Blake3Node b3 tx s else Blake3Node b3 s tx),
      tp_Siblings = ss, tp_Directions = ds\<rparr> root = Inr True"
  using assms
  by (auto simp: tp_Verify_def BytesTo32_def ComputeBlake3Root_def Blake3Node_def
      split: sum.splits if_splits)

theorem TxInclusionProof_inner_node_witness:
  "tp_Verify toy_hash \<lparr>tp_TxHash = Blake3Node toy_hash (replicate 32 7) (replicate 32 9),
     tp_Siblings = [], tp_Directions = []\<rparr>
     (Blake3Node toy_hash (replicate 32 7) (replicate 32 9)) = Inr True"
  using TxInclusionProof_inner_node [of toy_hash 0 "replicate 32 7" "replicate 32 9" "[]" "[]"
      "Blake3Node toy_hash (replicate 32 7) (replicate 32 9)"]
  by (simp add: tp_Verify_def BytesTo32_def ComputeBlake3Root_def)

end
