(* ===== verification/Cbor.thy ===== *)
theory Cbor
  imports Types
begin

text \<open>
  What the code relies on of the CBOR library: a value of the kinds it encodes has an encoding,
  and values that differ have different encodings. \<open>cbor_faithful\<close> states this for a set of
  values; it is the hypothesis of the binding properties. \<open>rfc8949\<close> is the deterministic
  encoding of RFC 8949 for these kinds of values and shows that the hypothesis can hold.
\<close>

definition cbor_faithful :: "cbor \<Rightarrow> goval set \<Rightarrow> bool" where
  "cbor_faithful cbor V \<longleftrightarrow> (\<forall>v \<in> V. \<exists>b. cbor v = Inr b) \<and> inj_on cbor V"

lemma cbor_faithful_subset: "cbor_faithful cbor V \<Longrightarrow> W \<subseteq> V \<Longrightarrow> cbor_faithful cbor W"
  unfolding cbor_faithful_def using inj_on_subset [of cbor V W] by blast

text \<open>The bytes of an encoding, with the empty slice on errors, as in \<open>b, _ := Encode(v)\<close>.\<close>

definition cbor_bytes :: "cbor \<Rightarrow> goval \<Rightarrow> bytes" where
  "cbor_bytes cbor v = (case cbor v of Inl e \<Rightarrow> [] | Inr b \<Rightarrow> b)"

lemma cbor_bytes_inject:
  assumes "cbor_faithful cbor V" "v \<in> V" "w \<in> V" "cbor_bytes cbor v = cbor_bytes cbor w"
  shows "v = w"
proof -
  from assms obtain b c where "cbor v = Inr b" "cbor w = Inr c"
    unfolding cbor_faithful_def by blast
  with assms(4) have "cbor v = cbor w" by (simp add: cbor_bytes_def)
  with assms(1-3) show ?thesis unfolding cbor_faithful_def by (blast dest: inj_onD)
qed

section \<open>A concrete encoder\<close>

primrec be_bytes :: "nat \<Rightarrow> nat \<Rightarrow> bytes" where
  "be_bytes 0 n = []"
| "be_bytes (Suc k) n = of_nat (n div 256 ^ k mod 256) # be_bytes k n"

lemma length_be_bytes [simp]: "length (be_bytes k n) = k"
  by (induction k) simp_all

lemma of_nat_byte_inject:
  "m < 256 \<Longrightarrow> n < 256 \<Longrightarrow> (of_nat m :: byte) = of_nat n \<longleftrightarrow> m = n"
  by (simp add: word_unat_eq_iff unat_of_nat)

lemma be_bytes_mod: "be_bytes k m = be_bytes k n \<Longrightarrow> m mod 256 ^ k = n mod 256 ^ k"
proof (induction k)
  case (Suc k)
  have "m div 256 ^ k mod 256 = n div 256 ^ k mod 256"
    using Suc.prems of_nat_byte_inject [of "m div 256 ^ k mod 256" "n div 256 ^ k mod 256"] by simp
  moreover from Suc have "m mod 256 ^ k = n mod 256 ^ k" by simp
  ultimately show ?case by (simp only: power_Suc2 mod_mult2_eq)
qed simp

lemma be_bytes_inject:
  "m < 256 ^ k \<Longrightarrow> n < 256 ^ k \<Longrightarrow> be_bytes k m = be_bytes k n \<longleftrightarrow> m = n"
  by (metis be_bytes_mod mod_less)

definition cbor_head :: "nat \<Rightarrow> nat \<Rightarrow> bytes" where
  "cbor_head m n =
     (if n < 24 then [of_nat (32 * m + n)]
      else if n < 256 ^ 1 then of_nat (32 * m + 24) # be_bytes 1 n
      else if n < 256 ^ 2 then of_nat (32 * m + 25) # be_bytes 2 n
      else if n < 256 ^ 4 then of_nat (32 * m + 26) # be_bytes 4 n
      else of_nat (32 * m + 27) # be_bytes 8 n)"

lemma cbor_head_prefix:
  assumes "cbor_head m n @ r = cbor_head m' n' @ r'" and "m < 8" "m' < 8"
    and "n < 256 ^ 8" "n' < 256 ^ 8"
  shows "m = m' \<and> n = n' \<and> r = r'"
proof -
  define tag where "tag k = (if k < 24 then k else if k < 256 ^ 1 then 24 else if k < 256 ^ 2
    then 25 else if k < 256 ^ 4 then 26 else 27)" for k :: nat
  define width where "width k = (if k < 24 then 0 else if k < 256 ^ 1 then 1 else if k < 256 ^ 2
    then 2 else if k < 256 ^ 4 then 4 else 8 :: nat)" for k :: nat
  have head: "cbor_head m n = of_nat (32 * m + tag n) # be_bytes (width n) n" for m n
    by (simp add: cbor_head_def tag_def width_def)
  have tag_lt: "tag k < 32" for k by (simp add: tag_def)
  have "32 * m + tag n = 32 * m' + tag n'"
    using assms(1-3) tag_lt [of n] tag_lt [of n']
      of_nat_byte_inject [of "32 * m + tag n" "32 * m' + tag n'"]
    by (simp add: head)
  with tag_lt [of n] tag_lt [of n'] have mt: "m = m'" "tag n = tag n'" by presburger+
  then have w: "width n = width n'" by (auto simp: tag_def width_def split: if_splits)
  with assms(1) mt have be: "be_bytes (width n) n = be_bytes (width n') n'" and r: "r = r'"
    by (auto simp: head)
  have "n = n'"
  proof (cases "n < 24")
    case True
    with mt(2) show ?thesis by (auto simp: tag_def split: if_splits)
  next
    case False
    moreover from this mt(2) have "\<not> n' < 24" by (auto simp: tag_def split: if_splits)
    ultimately have "n < 256 ^ width n" "n' < 256 ^ width n'"
      using assms(4,5) by (auto simp: width_def)
    with be w show ?thesis by (metis be_bytes_inject)
  qed
  with mt r show ?thesis by blast
qed

fun cbor_enc :: "goval \<Rightarrow> bytes" where
  "cbor_enc (GUint u) = cbor_head 0 (unat u)"
| "cbor_enc GNilBytes = cbor_head 7 22"
| "cbor_enc (GPtr None) = cbor_head 7 22"
| "cbor_enc (GBytes b) = cbor_head 2 (length b) @ b"
| "cbor_enc (GString s) = cbor_head 3 (length s) @ bytes_of s"
| "cbor_enc (GBool b) = cbor_head 7 (if b then 21 else 20)"
| "cbor_enc (GSlice vs) = cbor_head 4 (length vs) @ concat (map cbor_enc vs)"
| "cbor_enc (GInt i) =
     (if 0 \<le> sint i then cbor_head 0 (unat i) else cbor_head 1 (unat (- i - 1)))"
| "cbor_enc _ = cbor_head 7 23"

definition rfc8949 :: cbor where
  "rfc8949 v = Inr (cbor_enc v)"

text \<open>
  The values that the encoder tells apart: unsigned integers, byte slices (a nil one is written as
  null), strings, booleans and arrays of these, of encodable length.
\<close>

fun cbor_plain :: "goval \<Rightarrow> bool" where
  "cbor_plain (GUint u) = True"
| "cbor_plain (GBytes b) \<longleftrightarrow> length b < 256 ^ 8"
| "cbor_plain (GString s) \<longleftrightarrow> length s < 256 ^ 8"
| "cbor_plain (GBool b) = True"
| "cbor_plain (GSlice vs) \<longleftrightarrow> length vs < 256 ^ 8 \<and> list_all cbor_plain vs"
| "cbor_plain GNilBytes = True"
| "cbor_plain _ = False"

fun cbor_major :: "goval \<Rightarrow> nat" where
  "cbor_major (GUint _) = 0"
| "cbor_major (GBytes _) = 2"
| "cbor_major (GString _) = 3"
| "cbor_major (GSlice _) = 4"
| "cbor_major _ = 7"

fun cbor_arg :: "goval \<Rightarrow> nat" where
  "cbor_arg (GUint u) = unat u"
| "cbor_arg (GBytes b) = length b"
| "cbor_arg (GString s) = length s"
| "cbor_arg (GSlice vs) = length vs"
| "cbor_arg (GBool b) = (if b then 21 else 20)"
| "cbor_arg GNilBytes = 22"
| "cbor_arg _ = 23"

fun cbor_body :: "goval \<Rightarrow> bytes" where
  "cbor_body (GBytes b) = b"
| "cbor_body (GString s) = bytes_of s"
| "cbor_body (GSlice vs) = concat (map cbor_enc vs)"
| "cbor_body _ = []"

lemma cbor_enc_parts:
  assumes "cbor_plain v"
  shows "cbor_enc v = cbor_head (cbor_major v) (cbor_arg v) @ cbor_body v"
    and "cbor_major v < 8" and "cbor_arg v < 256 ^ 8"
  using assms unat_u64_lt by (cases v rule: cbor_plain.cases; simp)+

lemma cbor_enc_split:
  assumes "cbor_plain v" "cbor_plain w" "cbor_enc v @ r = cbor_enc w @ s"
  shows "cbor_major v = cbor_major w \<and> cbor_arg v = cbor_arg w \<and> cbor_body v @ r = cbor_body w @ s"
  using assms(3) unfolding cbor_enc_parts(1) [OF assms(1)] cbor_enc_parts(1) [OF assms(2)] append_assoc
  by (rule cbor_head_prefix) (rule cbor_enc_parts, fact)+

lemma cbor_enc_list_prefix:
  assumes "\<And>v w r s. v \<in> set vs \<Longrightarrow> cbor_plain w \<Longrightarrow> cbor_enc v @ r = cbor_enc w @ s \<Longrightarrow> v = w \<and> r = s"
    and "length vs = length ws" and "list_all cbor_plain ws"
    and "concat (map cbor_enc vs) @ r = concat (map cbor_enc ws) @ s"
  shows "vs = ws \<and> r = s"
  using assms(2,1,3,4)
proof (induction vs ws rule: list_induct2)
  case (Cons v vs w ws)
  from Cons.prems(2,3) have "cbor_plain w"
    and "cbor_enc v @ (concat (map cbor_enc vs) @ r) = cbor_enc w @ (concat (map cbor_enc ws) @ s)"
    by simp_all
  with Cons.prems(1) [of v] have "v = w"
    and "concat (map cbor_enc vs) @ r = concat (map cbor_enc ws) @ s" by auto
  moreover from this(2) Cons.prems have "vs = ws \<and> r = s" by (intro Cons.IH) auto
  ultimately show ?case by simp
qed simp

lemma cbor_parts_inject:
  assumes "cbor_plain v" "cbor_plain w" and "\<And>vs. v \<noteq> GSlice vs"
    and "cbor_major v = cbor_major w \<and> cbor_arg v = cbor_arg w \<and> cbor_body v @ r = cbor_body w @ s"
  shows "v = w \<and> r = s"
  using assms
  by (cases v rule: cbor_plain.cases; simp;
      cases w rule: cbor_plain.cases; auto simp: u64_eq_iff split: if_splits)

lemma cbor_enc_prefix:
  "cbor_plain v \<Longrightarrow> cbor_plain w \<Longrightarrow> cbor_enc v @ r = cbor_enc w @ s \<Longrightarrow> v = w \<and> r = s"
proof (induction v arbitrary: w r s rule: cbor_plain.induct)
  case (5 vs)
  note parts = cbor_enc_split [OF "5.prems"]
  with "5.prems"(2) obtain ws where w: "w = GSlice ws"
    by (cases w rule: cbor_plain.cases) auto
  have "vs = ws \<and> r = s"
    using 5 parts by (intro cbor_enc_list_prefix) (auto simp: w list_all_iff)
  with w show ?case by simp
qed (rule cbor_parts_inject, assumption, assumption, simp, rule cbor_enc_split; assumption)+

lemma cbor_plain_append_nil [simp]: "cbor_plain (append_nil b) \<longleftrightarrow> length b < 256 ^ 8"
  by (simp add: append_nil_def)

lemma rfc8949_faithful: "\<forall>v \<in> V. cbor_plain v \<Longrightarrow> cbor_faithful rfc8949 V"
  using cbor_enc_prefix [of _ _ "[]" "[]"]
  by (auto simp: cbor_faithful_def rfc8949_def inj_on_def)

end
