(* ===== verification/Stake.thy ===== *)
theory Stake
  imports Cbor
begin

text \<open>
  \<open>internal/stake\<close>, \<open>internal/consensus\<close> and the default build of
  \<open>internal/state/validators\<close> (\<open>stub_nolegacy.go\<close>): validators, their score and weight
  arithmetic, the sorted validator set with its binary search, batches of set operations, the
  validators root, and the participation rules.
\<close>

section \<open>weights.go\<close>

definition ScoreQ_One :: u32 where "ScoreQ_One = 65536"
definition ScoreQ_Max :: u32 where "ScoreQ_Max = 65536"

definition NodeLight :: u8 where "NodeLight = 1"
definition NodePool :: u8 where "NodePool = 2"
definition NodeFull :: u8 where "NodeFull = 3"

definition NormalizeNodeType :: "u8 \<Rightarrow> u8" where
  "NormalizeNodeType nt =
     (if nt = 0 then NodeLight
      else if nt = 1 then NodeFull
      else if nt = 2 \<or> nt = 3 then nt
      else NodeLight)"

definition GetNodeTypeWeight :: "u8 \<Rightarrow> u32" where
  "GetNodeTypeWeight nodeType =
     (let nt = NormalizeNodeType nodeType
      in if nt = NodeLight then 1000
         else if nt = NodePool then 2000
         else if nt = NodeFull then 1500
         else 1000)"

definition ClampScoreQ :: "u32 \<Rightarrow> u32" where
  "ClampScoreQ q = (if ScoreQ_Max < q then ScoreQ_Max else q)"

text \<open>
  \<open>big.Int\<close> values are integers: \<open>Quo\<close> truncates and panics on zero, \<open>Uint64\<close> reads the low
  64 bits of the absolute value. The product \<open>100 * denom\<close> is computed in \<open>int64\<close> and wraps.
\<close>

definition big_quo :: "int \<Rightarrow> int \<Rightarrow> int result" where
  "big_quo n d = (if d = 0 then Inl ''division by zero'' else Inr (sgn n * sgn d * (\<bar>n\<bar> div \<bar>d\<bar>)))"

definition big_Uint64 :: "int \<Rightarrow> u64" where
  "big_Uint64 n = word_of_int \<bar>n\<bar>"

definition AddPointsQ :: "u32 \<Rightarrow> i64 \<Rightarrow> i64 \<Rightarrow> u32 result" where
  "AddPointsQ q num denom =
     (if denom = 0 then Inr q
      else
        let neg = sint num < 0;
            num' = (if neg then - num else num);
            n = uint ScoreQ_One * sint num'
        in case big_quo n (sint (100 * denom)) of
             Inl e \<Rightarrow> Inl e
           | Inr n' \<Rightarrow>
               let delta = ucast (big_Uint64 n') :: u32
               in Inr (if neg then (if q \<le> delta then 0 else q - delta)
                       else ClampScoreQ (q + delta)))"

section \<open>types.go\<close>

record Validator =
  v_PubKey :: bytes
  v_StakeMas :: u64
  v_NodeType :: u8
  v_ScoreQ :: u32
  v_Jailed :: bool

record ValSet =
  Validators :: "Validator list"

definition EffectivePower :: "Validator \<Rightarrow> u64" where
  "EffectivePower v =
     (let w = uint (GetNodeTypeWeight (v_NodeType v));
          num = uint (v_StakeMas v) * w * uint (v_ScoreQ v);
          den = uint (ucast ScoreQ_One * 1000 :: u64)
      in case big_quo num den of Inl e \<Rightarrow> 0 | Inr q \<Rightarrow> big_Uint64 q)"

definition Clone :: "ValSet \<Rightarrow> ValSet" where
  "Clone vs = \<lparr>Validators = Validators vs\<rparr>"

definition lessByPubKey :: "Validator \<Rightarrow> Validator \<Rightarrow> bool" where
  "lessByPubKey a b \<longleftrightarrow> v_PubKey a < v_PubKey b"

definition SortPubKeyAsc :: "ValSet \<Rightarrow> ValSet" where
  "SortPubKeyAsc vs = vs\<lparr>Validators := sort_key v_PubKey (Validators vs)\<rparr>"

definition SortValidators :: "Validator list \<Rightarrow> Validator list" where
  "SortValidators vals = sort_key v_PubKey vals"

function findIndex_loop :: "Validator list \<Rightarrow> bytes \<Rightarrow> nat \<Rightarrow> nat \<Rightarrow> nat \<times> bool" where
  "findIndex_loop vs pk lo hi =
     (if lo < hi then
        let m = (lo + hi) div 2;
            k = v_PubKey (vs ! m)
        in if k = pk then (m, True)
           else if k < pk then findIndex_loop vs pk (m + 1) hi
           else findIndex_loop vs pk lo m
      else (lo, False))"
  by pat_completeness auto
termination
  by (relation "measure (\<lambda>(vs, pk, lo, hi). hi - lo)") auto

declare findIndex_loop.simps [simp del]

definition findIndex :: "ValSet \<Rightarrow> bytes \<Rightarrow> nat \<times> bool" where
  "findIndex vs pk = findIndex_loop (Validators vs) pk 0 (length (Validators vs))"

section \<open>ops.go\<close>

definition OpAdd :: u8 where "OpAdd = 0"
definition OpUpdate :: u8 where "OpUpdate = 1"
definition OpRemove :: u8 where "OpRemove = 2"

record Op =
  op_Type :: u8
  op_PubKey :: bytes
  op_StakeMas :: "u64 option"
  op_NodeType :: "u8 option"
  op_ScoreQ :: "u32 option"
  op_Jailed :: "bool option"

text \<open>The four field assignments, which the source writes out in each of its three branches.\<close>

definition set_fields :: "Op \<Rightarrow> Validator \<Rightarrow> Validator" where
  "set_fields op v =
     (let v = (case op_StakeMas op of None \<Rightarrow> v | Some x \<Rightarrow> v\<lparr>v_StakeMas := x\<rparr>);
          v = (case op_NodeType op of None \<Rightarrow> v | Some x \<Rightarrow> v\<lparr>v_NodeType := NormalizeNodeType x\<rparr>);
          v = (case op_ScoreQ op of None \<Rightarrow> v | Some x \<Rightarrow> v\<lparr>v_ScoreQ := ClampScoreQ x\<rparr>)
      in case op_Jailed op of None \<Rightarrow> v | Some x \<Rightarrow> v\<lparr>v_Jailed := x\<rparr>)"

definition new_validator :: "bytes \<Rightarrow> Validator" where
  "new_validator pk = \<lparr>v_PubKey = pk, v_StakeMas = 0, v_NodeType = NodeLight,
     v_ScoreQ = ScoreQ_Max, v_Jailed = False\<rparr>"

definition apply_op :: "Op \<Rightarrow> ValSet \<Rightarrow> ValSet" where
  "apply_op op out =
     (let (pos, ok) = findIndex out (op_PubKey op); vals = Validators out
      in if op_Type op = OpAdd then
           if ok then out\<lparr>Validators := vals[pos := set_fields op (vals ! pos)]\<rparr>
           else out\<lparr>Validators := vals @ [set_fields op (new_validator (op_PubKey op))]\<rparr>
         else if op_Type op = OpUpdate then
           if \<not> ok then out
           else out\<lparr>Validators := vals[pos := set_fields op (vals ! pos)]\<rparr>
         else if op_Type op = OpRemove then
           if ok then out\<lparr>Validators := take pos vals @ drop (pos + 1) vals\<rparr>
           else out
         else out)"

definition ApplyOps :: "ValSet \<Rightarrow> Op list \<Rightarrow> ValSet" where
  "ApplyOps vs ops = SortPubKeyAsc (fold apply_op ops (Clone vs))"

section \<open>root.go\<close>

definition leaf_entry :: "Validator \<Rightarrow> goval" where
  "leaf_entry v = GSlice
     [GBytes (v_PubKey v), GUint (v_StakeMas v), GUint (ucast (NormalizeNodeType (v_NodeType v))),
      GUint (ucast (v_ScoreQ v)), GBool (v_Jailed v)]"

definition ignore_err :: "bytes result \<Rightarrow> bytes" where
  "ignore_err r = (case r of Inl _ \<Rightarrow> [] | Inr b \<Rightarrow> b)"

definition leafFor :: "(bytes \<Rightarrow> bytes) \<Rightarrow> cbor \<Rightarrow> Validator \<Rightarrow> bytes" where
  "leafFor b3 cbor v = b3 (ignore_err (EncodeCBORCanonical cbor (leaf_entry v)))"

definition node_entry :: "bytes \<Rightarrow> bytes \<Rightarrow> goval" where
  "node_entry l r = GSlice [GBytes l, GBytes r]"

definition node_for :: "(bytes \<Rightarrow> bytes) \<Rightarrow> cbor \<Rightarrow> bytes \<Rightarrow> bytes \<Rightarrow> bytes" where
  "node_for b3 cbor l r = b3 (ignore_err (EncodeCBORCanonical cbor (node_entry l r)))"

fun next_level :: "('a \<Rightarrow> 'a \<Rightarrow> 'a) \<Rightarrow> 'a list \<Rightarrow> 'a list" where
  "next_level f (l # r # level) = f l r # next_level f level"
| "next_level f [l] = [f l l]"
| "next_level f [] = []"

lemma length_next_level [simp]: "length (next_level f xs) = (length xs + 1) div 2"
  by (induction f xs rule: next_level.induct) auto

function merkleRoot_loop :: "('a \<Rightarrow> 'a \<Rightarrow> 'a) \<Rightarrow> 'a list \<Rightarrow> 'a" where
  "merkleRoot_loop f level =
     (if 1 < length level then merkleRoot_loop f (next_level f level) else level ! 0)"
  by pat_completeness auto
termination
  by (relation "measure (\<lambda>(f, level). length level)") auto

declare merkleRoot_loop.simps [simp del]

definition merkleRoot :: "(bytes \<Rightarrow> bytes) \<Rightarrow> cbor \<Rightarrow> bytes list \<Rightarrow> bytes" where
  "merkleRoot b3 cbor leaves =
     (if leaves = [] then zero32 else merkleRoot_loop (node_for b3 cbor) leaves)"

definition ComputeValidatorsRoot :: "(bytes \<Rightarrow> bytes) \<Rightarrow> cbor \<Rightarrow> Validator list \<Rightarrow> bytes" where
  "ComputeValidatorsRoot b3 cbor vals =
     merkleRoot b3 cbor (map (leafFor b3 cbor) (SortValidators vals))"

definition DeterministicHash :: "(bytes \<Rightarrow> bytes) \<Rightarrow> cbor \<Rightarrow> ValSet \<Rightarrow> bytes" where
  "DeterministicHash b3 cbor vs =
     (let cp = SortPubKeyAsc (Clone vs)
      in b3 (ignore_err (EncodeCBORCanonical cbor (GSlice (map (GBytes \<circ> v_PubKey) (Validators cp))))))"

section \<open>consensus/participation.go\<close>

definition with_score :: "Validator \<Rightarrow> u32 result \<Rightarrow> Validator result" where
  "with_score v r = (case r of Inl e \<Rightarrow> Inl e | Inr q \<Rightarrow> Inr (v\<lparr>v_ScoreQ := q\<rparr>))"

definition UpdateScoreOnSuccess :: "Validator \<Rightarrow> u32 \<Rightarrow> Validator result \<times> u32" where
  "UpdateScoreOnSuccess v missCount = (with_score v (AddPointsQ (v_ScoreQ v) 10 1), 0)"

definition UpdateScoreOnMiss :: "Validator \<Rightarrow> u32 \<Rightarrow> Validator result \<times> u32" where
  "UpdateScoreOnMiss v missCount =
     (let missCount = (if missCount < - 1 then missCount + 1 else missCount)
      in ((if missCount = 1 then Inr v
           else if missCount = 2 then with_score v (AddPointsQ (v_ScoreQ v) (- 1) 2)
           else if missCount = 3 then with_score v (AddPointsQ (v_ScoreQ v) (- 2) 1)
           else with_score v (AddPointsQ (v_ScoreQ v) (- 100) 1)), missCount))"

definition UpdateScoreOnRefusedAsBackup :: "Validator \<Rightarrow> Validator result" where
  "UpdateScoreOnRefusedAsBackup v = with_score v (AddPointsQ (v_ScoreQ v) (- 10) 1)"

definition UpdateEpochBonus :: "Validator \<Rightarrow> Validator result" where
  "UpdateEpochBonus v = with_score v (AddPointsQ (v_ScoreQ v) 1 1000)"

section \<open>state/validators/stub\_nolegacy.go\<close>

datatype ValidatorEvent =
  EventProposalSuccess | EventMissPrevote | EventMissPrecommit | EventRefusedAsBackup

definition ApplyEvent :: "Validator \<Rightarrow> ValidatorEvent \<Rightarrow> u32 \<Rightarrow> Validator result \<times> u32" where
  "ApplyEvent v ev missCount =
     (case ev of
        EventProposalSuccess \<Rightarrow> UpdateScoreOnSuccess v missCount
      | EventMissPrevote \<Rightarrow> UpdateScoreOnMiss v missCount
      | EventMissPrecommit \<Rightarrow> UpdateScoreOnMiss v missCount
      | EventRefusedAsBackup \<Rightarrow> (UpdateScoreOnRefusedAsBackup v, missCount))"

text \<open>The dynamic types that the bridge function accepts.\<close>

record ScoreRecord =
  sr_Address :: string

datatype root_arg = ArgValSet ValSet | ArgSlice "Validator list" | ArgScores "ScoreRecord list" | ArgOther

definition stub_ComputeValidatorsRoot :: "(bytes \<Rightarrow> bytes) \<Rightarrow> cbor \<Rightarrow> root_arg \<Rightarrow> bytes" where
  "stub_ComputeValidatorsRoot b3 cbor x =
     (case x of
        ArgValSet v \<Rightarrow> ComputeValidatorsRoot b3 cbor (Validators v)
      | ArgSlice v \<Rightarrow> ComputeValidatorsRoot b3 cbor v
      | ArgScores _ \<Rightarrow> zero32
      | ArgOther \<Rightarrow> zero32)"

definition NextValidatorsRoot :: "(bytes \<Rightarrow> bytes) \<Rightarrow> cbor \<Rightarrow> ValSet \<Rightarrow> Op list \<Rightarrow> bytes" where
  "NextValidatorsRoot b3 cbor vs ops = ComputeValidatorsRoot b3 cbor (Validators (ApplyOps vs ops))"

section \<open>Score arithmetic\<close>

lemma AddPointsQ_rules:
  "AddPointsQ q 10 1 = Inr (ClampScoreQ (q + 6553))"
  "AddPointsQ q (- 1) 2 = Inr (if q \<le> 327 then 0 else q - 327)"
  "AddPointsQ q (- 2) 1 = Inr (if q \<le> 1310 then 0 else q - 1310)"
  "AddPointsQ q (- 10) 1 = Inr (if q \<le> 6553 then 0 else q - 6553)"
  "AddPointsQ q (- 100) 1 = Inr (if q \<le> 65536 then 0 else q - 65536)"
  "AddPointsQ q 1 1000 = Inr (ClampScoreQ q)"
  by (simp_all add: AddPointsQ_def big_quo_def big_Uint64_def ScoreQ_One_def Let_def)

lemma ClampScoreQ_le [simp]: "ClampScoreQ q \<le> ScoreQ_Max"
  by (auto simp: ClampScoreQ_def ScoreQ_Max_def)

lemma ClampScoreQ_id: "q \<le> ScoreQ_Max \<Longrightarrow> ClampScoreQ q = q"
  by (auto simp: ClampScoreQ_def)

definition score_ok :: "Validator \<Rightarrow> bool" where
  "score_ok v \<longleftrightarrow> v_ScoreQ v \<le> ScoreQ_Max"

lemmas event_defs = ApplyEvent_def UpdateScoreOnSuccess_def UpdateScoreOnMiss_def
  UpdateScoreOnRefusedAsBackup_def with_score_def AddPointsQ_rules

text \<open>
  The rule of one event as a function on the score and the miss counter, in the points of the
  comment at the head of \<open>participation.go\<close> (one point is 65536/100 units, rounded down).
\<close>

fun score_rule :: "ValidatorEvent \<Rightarrow> nat \<times> nat \<Rightarrow> nat \<times> nat" where
  "score_rule EventProposalSuccess (q, m) = (min 65536 (q + 6553), 0)"
| "score_rule EventRefusedAsBackup (q, m) = (q - 6553, m)"
| "score_rule _ (q, m) =
     (if m = 0 then q else if m = 1 then q - 327 else if m = 2 then q - 1310 else 0,
      min (m + 1) (2 ^ 32 - 1))"

lemma unat_u32_lt: "unat (x :: u32) < 4294967296"
  using unsigned_less [of x] by simp

lemma u32_le_iff: "(a :: u32) \<le> b \<longleftrightarrow> unat a \<le> unat b"
  by (rule word_le_nat_alt)

lemma u32_sub_floor:
  "unat (if q \<le> d then 0 else q - d :: u32) = unat q - unat d"
  by (auto simp: u32_le_iff unat_sub)

lemma unat_ClampScoreQ: "unat (ClampScoreQ q) = min 65536 (unat q)"
  by (auto simp: ClampScoreQ_def ScoreQ_Max_def min_def word_less_nat_alt)

lemma miss_count_step:
  "unat (if m < - 1 then m + 1 else m :: u32) = min (unat m + 1) (2 ^ 32 - 1)"
proof -
  have max: "(- 1 :: u32) = 4294967295" by code_simp
  show ?thesis
    using unat_u32_lt [of m] by (auto simp: max word_less_nat_alt unat_word_ariths)
qed


lemma score_lowered:
  "score_ok v \<Longrightarrow> (if v_ScoreQ v \<le> d then 0 else v_ScoreQ v - d) \<le> ScoreQ_Max"
  using u32_sub_floor [of "v_ScoreQ v" d] by (simp only: score_ok_def u32_le_iff)

lemma UpdateScoreOnMiss_rule:
  assumes "score_ok v"
  shows "\<exists>q. fst (UpdateScoreOnMiss v m) = Inr (v\<lparr>v_ScoreQ := q\<rparr>) \<and> q \<le> ScoreQ_Max
    \<and> (unat q, unat (snd (UpdateScoreOnMiss v m)))
       = score_rule EventMissPrevote (unat (v_ScoreQ v), unat m)"
proof -
  define n where "n = (if m < - 1 then m + 1 else m)"
  have n: "unat n = min (unat m + 1) (2 ^ 32 - 1)" by (simp only: n_def miss_count_step)
  define q where "q = (if n = 1 then v_ScoreQ v else if n = 2 then if v_ScoreQ v \<le> 327 then 0 else v_ScoreQ v - 327
    else if n = 3 then if v_ScoreQ v \<le> 1310 then 0 else v_ScoreQ v - 1310
    else if v_ScoreQ v \<le> 65536 then 0 else v_ScoreQ v - 65536)"
  have "UpdateScoreOnMiss v m = (Inr (v\<lparr>v_ScoreQ := q\<rparr>), n)"
    by (simp add: event_defs n_def [symmetric] q_def Let_def)
  moreover have "q \<le> ScoreQ_Max"
    using assms score_lowered [OF assms] by (simp only: q_def score_ok_def split: if_split) blast
  moreover have "unat q = fst (score_rule EventMissPrevote (unat (v_ScoreQ v), unat m))"
  proof -
    have "n = 1 \<longleftrightarrow> unat m = 0" "n = 2 \<longleftrightarrow> unat m = 1" "n = 3 \<longleftrightarrow> unat m = 2"
      using n by (auto simp: word_unat_eq_iff)
    moreover have "unat (v_ScoreQ v) \<le> 65536"
      using assms by (simp add: score_ok_def ScoreQ_Max_def u32_le_iff)
    ultimately show ?thesis
      using u32_sub_floor [of "v_ScoreQ v" 327] u32_sub_floor [of "v_ScoreQ v" 1310]
        u32_sub_floor [of "v_ScoreQ v" 65536]
      by (simp add: q_def)
  qed
  ultimately show ?thesis using n by (intro exI [of _ q]) simp
qed

lemma ApplyEvent_rule:
  assumes "score_ok v"
  shows "\<exists>q. fst (ApplyEvent v ev m) = Inr (v\<lparr>v_ScoreQ := q\<rparr>) \<and> q \<le> ScoreQ_Max
    \<and> (unat q, unat (snd (ApplyEvent v ev m))) = score_rule ev (unat (v_ScoreQ v), unat m)"
proof (cases ev)
  case EventProposalSuccess
  have "unat (v_ScoreQ v + 6553) = unat (v_ScoreQ v) + 6553"
    using assms by (simp add: score_ok_def ScoreQ_Max_def u32_le_iff unat_word_ariths)
  with EventProposalSuccess show ?thesis
    by (auto simp: event_defs unat_ClampScoreQ)
next
  case EventRefusedAsBackup
  then show ?thesis
    using score_lowered [OF assms, of 6553] u32_sub_floor [of "v_ScoreQ v" 6553]
    by (auto simp: event_defs)
qed (use UpdateScoreOnMiss_rule [OF assms, of m] in \<open>simp_all add: ApplyEvent_def\<close>)

fun run_events :: "ValidatorEvent list \<Rightarrow> Validator \<Rightarrow> u32 \<Rightarrow> Validator result \<times> u32" where
  "run_events [] v m = (Inr v, m)"
| "run_events (e # es) v m =
     (case ApplyEvent v e m of (Inl err, m') \<Rightarrow> (Inl err, m') | (Inr v', m') \<Rightarrow> run_events es v' m')"

lemma run_events_rule:
  assumes "score_ok v"
  shows "\<exists>q. fst (run_events es v m) = Inr (v\<lparr>v_ScoreQ := q\<rparr>) \<and> q \<le> ScoreQ_Max
    \<and> (unat q, unat (snd (run_events es v m))) = fold score_rule es (unat (v_ScoreQ v), unat m)"
  using assms
proof (induction es arbitrary: v m)
  case Nil
  then show ?case by (auto simp: score_ok_def intro!: exI [of _ "v_ScoreQ v"])
next
  case (Cons e es)
  from ApplyEvent_rule [OF Cons.prems, of e m] obtain q m' where
    step: "ApplyEvent v e m = (Inr (v\<lparr>v_ScoreQ := q\<rparr>), m')" and q: "q \<le> ScoreQ_Max"
    "score_rule e (unat (v_ScoreQ v), unat m) = (unat q, unat m')"
    by (metis prod.collapse)
  from q(1) have "score_ok (v\<lparr>v_ScoreQ := q\<rparr>)" by (simp add: score_ok_def)
  from Cons.IH [OF this, of m'] show ?case by (auto simp: step q)
qed

text \<open>
  Property C36. Any sequence of consensus events, from any score in range and any miss counter,
  runs without a panic, changes nothing of the validator but its score, keeps the score in
  \<open>0..65536\<close>, and moves score and miss counter as the integer rules \<open>score_rule\<close> say: success
  +10 points and reset, misses 0, -0.5, -2 and then down to zero, refusal -10 points.
\<close>

theorem ApplyEvent_follows_rules:
  assumes "score_ok v"
  shows "\<exists>q. fst (run_events es v m) = Inr (v\<lparr>v_ScoreQ := q\<rparr>) \<and> q \<le> ScoreQ_Max
    \<and> (unat q, unat (snd (run_events es v m))) = fold score_rule es (unat (v_ScoreQ v), unat m)"
  using assms by (rule run_events_rule)

definition demo_val :: "byte \<Rightarrow> Validator" where
  "demo_val x = \<lparr>v_PubKey = x # replicate 31 0, v_StakeMas = 1000, v_NodeType = 2,
     v_ScoreQ = 40000, v_Jailed = False\<rparr>"

theorem ApplyEvent_follows_rules_witness:
  "\<exists>q. fst (run_events [EventProposalSuccess, EventMissPrevote, EventMissPrecommit] (demo_val 1) 5)
       = Inr (demo_val 1\<lparr>v_ScoreQ := q\<rparr>) \<and> unat q = 46226"
  using ApplyEvent_follows_rules [of "demo_val 1"
      "[EventProposalSuccess, EventMissPrevote, EventMissPrecommit]" 5]
  by (auto simp: demo_val_def score_ok_def ScoreQ_Max_def)

text \<open>
  Fact. Four consecutive misses bring any validator's score to zero, whatever its miss
  counter was before.
\<close>

theorem four_misses_zero:
  assumes "score_ok v" and "set ms \<subseteq> {EventMissPrevote, EventMissPrecommit}" and "4 \<le> length ms"
  shows "fst (run_events ms v m) = Inr (v\<lparr>v_ScoreQ := 0\<rparr>)"
proof -
  have fold: "snd (fold score_rule es (q, k)) = min (k + length es) (2 ^ 32 - 1)
      \<and> (4 \<le> k + length es \<and> es \<noteq> [] \<longrightarrow> fst (fold score_rule es (q, k)) = 0)"
    if "set es \<subseteq> {EventMissPrevote, EventMissPrecommit}" "k < 2 ^ 32" for es q k
    using that
  proof (induction es rule: rev_induct)
    case (snoc e es)
    obtain q' k' where qk: "fold score_rule es (q, k) = (q', k')" by fastforce
    with snoc have "k' = min (k + length es) (2 ^ 32 - 1)" by simp
    with snoc.prems show ?case by (cases e) (auto simp: qk min_def split: if_splits)
  qed auto
  from run_events_rule [OF assms(1), of ms m] obtain q where
    q: "fst (run_events ms v m) = Inr (v\<lparr>v_ScoreQ := q\<rparr>)"
    "(unat q, unat (snd (run_events ms v m))) = fold score_rule ms (unat (v_ScoreQ v), unat m)"
    by blast
  have "fst (fold score_rule ms (unat (v_ScoreQ v), unat m)) = 0"
    using fold [of ms "unat m" "unat (v_ScoreQ v)"] assms(2,3) unat_u32_lt [of m] by auto
  with q(2) have "unat q = 0" by (metis fst_conv)
  with q(1) show ?thesis by (simp add: unat_eq_zero)
qed

theorem four_misses_zero_witness:
  "fst (run_events (replicate 4 EventMissPrevote) (demo_val 1) 0) = Inr (demo_val 1\<lparr>v_ScoreQ := 0\<rparr>)"
  by (rule four_misses_zero) (simp_all add: demo_val_def score_ok_def ScoreQ_Max_def)

text \<open>
  Fact. The epoch bonus never changes a score in range: one thousandth of a point is less
  than one unit of the Q16.16 score and rounds down to nothing.
\<close>

theorem UpdateEpochBonus_noop:
  assumes "score_ok v"
  shows "UpdateEpochBonus v = Inr v"
  using assms by (simp add: UpdateEpochBonus_def with_score_def AddPointsQ_rules score_ok_def ClampScoreQ_id)

theorem UpdateEpochBonus_noop_witness:
  "UpdateEpochBonus (demo_val 1) = Inr (demo_val 1)"
  by (rule UpdateEpochBonus_noop) (simp add: demo_val_def score_ok_def ScoreQ_Max_def)

section \<open>The sorted set and its binary search\<close>

abbreviation keys :: "ValSet \<Rightarrow> bytes list" where
  "keys vs \<equiv> map v_PubKey (Validators vs)"

definition valset_wf :: "ValSet \<Rightarrow> bool" where
  "valset_wf vs \<longleftrightarrow> sorted (keys vs) \<and> distinct (keys vs)"

lemma findIndex_loop_found:
  "findIndex_loop vs pk lo hi = (i, True) \<Longrightarrow> lo \<le> i \<and> i < hi \<and> v_PubKey (vs ! i) = pk"
proof (induction vs pk lo hi rule: findIndex_loop.induct)
  case (1 vs pk lo hi)
  then show ?case
    by (subst (asm) findIndex_loop.simps) (fastforce simp: Let_def split: if_splits)
qed

lemma findIndex_loop_missing:
  assumes "findIndex_loop vs pk lo hi = (i, False)" and "sorted (map v_PubKey vs)"
    and "hi \<le> length vs" "lo \<le> hi"
    and "\<forall>j < lo. v_PubKey (vs ! j) < pk" "\<forall>j < length vs. hi \<le> j \<longrightarrow> pk < v_PubKey (vs ! j)"
  shows "i \<le> length vs \<and> (\<forall>j < i. v_PubKey (vs ! j) < pk)
    \<and> (\<forall>j < length vs. i \<le> j \<longrightarrow> pk < v_PubKey (vs ! j))"
  using assms
proof (induction vs pk lo hi rule: findIndex_loop.induct)
  case (1 vs pk lo hi)
  show ?case
  proof (cases "lo < hi")
    case False
    with "1.prems" show ?thesis by (subst (asm) findIndex_loop.simps) auto
  next
    case True
    define m where "m = (lo + hi) div 2"
    have m: "lo \<le> m" "m < hi" using True by (auto simp: m_def)
    have mono: "v_PubKey (vs ! j) \<le> v_PubKey (vs ! k)" if "j \<le> k" "k < length vs" for j k
      using sorted_nth_mono [OF "1.prems"(2), of j k] that by simp
    have step: "findIndex_loop vs pk lo hi =
        (if v_PubKey (vs ! m) = pk then (m, True)
         else if v_PubKey (vs ! m) < pk then findIndex_loop vs pk (m + 1) hi
         else findIndex_loop vs pk lo m)"
      using True by (subst findIndex_loop.simps) (simp add: m_def Let_def)
    consider "v_PubKey (vs ! m) < pk" | "pk < v_PubKey (vs ! m)"
      using "1.prems"(1) by (auto simp: step split: if_splits)
    then show ?thesis
    proof cases
      case 1
      have "v_PubKey (vs ! j) < pk" if "j < m + 1" for j
        using mono [of j m] that 1 m "1.prems"(3) by auto
      moreover have "findIndex_loop vs pk (m + 1) hi = (i, False)"
        using "1.prems"(1) 1 by (simp add: step split: if_splits)
      ultimately show ?thesis
        using 1 m "1.prems"(2-) by (intro "1.IH"(1) [OF True m_def refl]) auto
    next
      case 2
      have "\<forall>j < length vs. m \<le> j \<longrightarrow> pk < v_PubKey (vs ! j)"
        using mono [of m] 2 by (blast intro: less_le_trans)
      moreover have "findIndex_loop vs pk lo m = (i, False)"
        using "1.prems"(1) 2 by (simp add: step split: if_splits)
      ultimately show ?thesis
        using less_imp_neq [OF 2] less_not_sym [OF 2] m "1.prems"(2-)
        by (intro "1.IH"(2) [OF True m_def refl]) auto
    qed
  qed
qed

lemma findIndex_True: "findIndex vs pk = (i, True) \<Longrightarrow> i < length (Validators vs) \<and> v_PubKey (Validators vs ! i) = pk"
  by (simp add: findIndex_def findIndex_loop_found)

lemma findIndex_False:
  assumes "findIndex vs pk = (i, False)" and "sorted (keys vs)"
  shows "pk \<notin> set (keys vs)"
proof -
  have "v_PubKey (Validators vs ! j) \<noteq> pk" if "j < length (Validators vs)" for j
    using findIndex_loop_missing [OF assms(1) [unfolded findIndex_def] assms(2)] that
    by (cases "j < i") (auto dest: less_imp_neq)
  then show ?thesis by (metis in_set_conv_nth length_map nth_map)
qed

text \<open>
  Fact. On a sorted set without repeated keys the binary search finds a key exactly when
  it is present, at its position; for an absent key it returns the insertion point that keeps
  the list sorted.
\<close>

theorem findIndex_correct:
  assumes "valset_wf vs"
  shows "case findIndex vs pk of
      (i, True) \<Rightarrow> i < length (Validators vs) \<and> v_PubKey (Validators vs ! i) = pk
    | (i, False) \<Rightarrow> pk \<notin> set (keys vs) \<and> i \<le> length (Validators vs)
        \<and> sorted (take i (keys vs) @ pk # drop i (keys vs))"
proof -
  obtain i b where fi: "findIndex vs pk = (i, b)" by fastforce
  show ?thesis
  proof (cases b)
    case True
    with fi show ?thesis by (simp add: findIndex_True)
  next
    case False
    have sorted: "sorted (keys vs)" using assms by (simp add: valset_wf_def)
    from fi False have miss: "findIndex vs pk = (i, False)" by simp
    from findIndex_loop_missing [OF miss [unfolded findIndex_def] sorted]
    have i: "i \<le> length (Validators vs)" "\<forall>j < i. keys vs ! j < pk"
      "\<forall>j < length (Validators vs). i \<le> j \<longrightarrow> pk < keys vs ! j" by auto
    have "\<forall>x \<in> set (take i (keys vs)). x < pk" "\<forall>x \<in> set (drop i (keys vs)). pk < x"
      using i by (auto simp: in_set_conv_nth)
    moreover from this have "\<forall>x \<in> set (take i (keys vs)). \<forall>y \<in> set (drop i (keys vs)). x \<le> y"
      by (meson less_imp_le less_trans)
    ultimately have "sorted (take i (keys vs) @ pk # drop i (keys vs))"
      using sorted by (auto simp: sorted_append sorted_wrt_take sorted_wrt_drop intro: less_imp_le)
    with findIndex_False [OF miss sorted] i(1) show ?thesis by (simp add: miss)
  qed
qed

definition demo_set :: ValSet where
  "demo_set = \<lparr>Validators = [demo_val 5, demo_val 7]\<rparr>"

lemma demo_set_wf: "valset_wf demo_set"
  by (simp add: valset_wf_def demo_set_def demo_val_def)

theorem findIndex_correct_witness:
  "findIndex demo_set (v_PubKey (demo_val 7)) = (1, True) \<and>
   v_PubKey (Validators demo_set ! 1) = v_PubKey (demo_val 7)"
proof -
  have "findIndex demo_set (v_PubKey (demo_val 7)) = (1, True)" by code_simp
  with findIndex_correct [OF demo_set_wf, of "v_PubKey (demo_val 7)"] show ?thesis by simp
qed

section \<open>Batches of operations\<close>

text \<open>
  The specification: a validator set is a partial map from public keys, and each operation an
  update of it.
\<close>

definition vmap :: "ValSet \<Rightarrow> bytes \<rightharpoonup> Validator" where
  "vmap vs = map_of (map (\<lambda>v. (v_PubKey v, v)) (Validators vs))"

definition spec_op :: "Op \<Rightarrow> (bytes \<rightharpoonup> Validator) \<Rightarrow> bytes \<rightharpoonup> Validator" where
  "spec_op op m =
     (let pk = op_PubKey op
      in if op_Type op = OpAdd
         then m(pk \<mapsto> set_fields op (case m pk of None \<Rightarrow> new_validator pk | Some v \<Rightarrow> v))
         else if op_Type op = OpUpdate then m(pk := map_option (set_fields op) (m pk))
         else if op_Type op = OpRemove then m(pk := None)
         else m)"

lemma set_fields_PubKey [simp]: "v_PubKey (set_fields op v) = v_PubKey v"
  by (simp add: set_fields_def Let_def split: option.splits)

lemma new_validator_PubKey [simp]: "v_PubKey (new_validator pk) = pk"
  by (simp add: new_validator_def)

lemma map_eqI: "(\<And>k v. m k = Some v \<longleftrightarrow> n k = Some v) \<Longrightarrow> m = n"
  by (rule ext) (metis not_None_eq)

abbreviation by_key :: "Validator list \<Rightarrow> bytes \<rightharpoonup> Validator" where
  "by_key xs \<equiv> map_of (map (\<lambda>v. (v_PubKey v, v)) xs)"

lemma by_key_Some:
  "distinct (map v_PubKey xs) \<Longrightarrow> by_key xs pk = Some v \<longleftrightarrow> v \<in> set xs \<and> v_PubKey v = pk"
  by (auto simp: map_of_eq_Some_iff comp_def)

lemma by_key_None: "by_key xs pk = None \<longleftrightarrow> pk \<notin> v_PubKey ` set xs"
  by (auto simp: map_of_eq_None_iff image_image)

lemma by_key_mset:
  assumes "distinct (map v_PubKey xs)" "mset ys = mset xs"
  shows "by_key ys = by_key xs"
proof -
  have "mset (map v_PubKey ys) = mset (map v_PubKey xs)" using assms(2) by simp
  then have d: "distinct (map v_PubKey ys)" using assms(1) by (metis mset_eq_imp_distinct_iff)
  have "set ys = set xs" using assms(2) by (metis set_mset_mset)
  then have "by_key ys pk = Some v \<longleftrightarrow> by_key xs pk = Some v" for pk v
    by (simp only: by_key_Some [OF d] by_key_Some [OF assms(1)])
  then show ?thesis by (rule map_eqI)
qed

lemma by_key_update:
  "distinct (map v_PubKey xs) \<Longrightarrow> i < length xs \<Longrightarrow> v_PubKey w = v_PubKey (xs ! i) \<Longrightarrow>
   by_key (xs[i := w]) = (by_key xs)(v_PubKey w \<mapsto> w)"
proof (induction xs arbitrary: i)
  case (Cons a xs)
  then show ?case by (cases i) (auto simp: fun_eq_iff, metis image_eqI nth_mem)
qed simp

lemma by_key_remove:
  "distinct (map v_PubKey xs) \<Longrightarrow> i < length xs \<Longrightarrow>
   by_key (take i xs @ drop (Suc i) xs) = (by_key xs)(v_PubKey (xs ! i) := None)"
proof (induction xs arbitrary: i)
  case (Cons a xs)
  show ?case
  proof (cases i)
    case 0
    with Cons.prems show ?thesis by (auto simp: fun_upd_idem by_key_None)
  next
    case (Suc j)
    with Cons have "by_key (take j xs @ drop (Suc j) xs) = (by_key xs)(v_PubKey (xs ! j) := None)"
      and "v_PubKey a \<noteq> v_PubKey (xs ! j)" by auto
    with Suc show ?thesis by (auto simp: fun_eq_iff)
  qed
qed simp

lemma findIndex_vmap:
  assumes "valset_wf vs" and "findIndex vs pk = (i, ok)"
  shows "if ok then i < length (Validators vs) \<and> v_PubKey (Validators vs ! i) = pk
      \<and> vmap vs pk = Some (Validators vs ! i)
    else vmap vs pk = None"
  using assms findIndex_True [of vs pk i] findIndex_False [of vs pk i]
  by (auto simp: vmap_def by_key_Some by_key_None valset_wf_def)

lemma keys_update:
  "i < length xs \<Longrightarrow> v_PubKey w = v_PubKey (xs ! i) \<Longrightarrow> map v_PubKey (xs[i := w]) = map v_PubKey xs"
  by (metis length_map list_update_id map_update nth_map)

lemma sorted_remove: "sorted xs \<Longrightarrow> sorted (take i xs @ drop (Suc i) xs)"
  for xs :: "'a :: linorder list"
  using sorted_append [of "take i xs" "drop i xs"] set_drop_subset_set_drop [of i "Suc i" xs]
  by (auto simp: sorted_append sorted_wrt_drop)

lemma distinct_remove: "distinct xs \<Longrightarrow> distinct (take i xs @ drop (Suc i) xs)"
  using set_take_disj_set_drop_if_distinct [of xs i "Suc i"] by auto

lemma keys_remove:
  "map v_PubKey (take i xs @ drop (Suc i) xs) = take i (map v_PubKey xs) @ drop (Suc i) (map v_PubKey xs)"
  by (simp add: take_map drop_map)

text \<open>An operation that does not append keeps the set sorted and does what the map says.\<close>

definition is_append :: "Op \<Rightarrow> ValSet \<Rightarrow> bool" where
  "is_append op vs \<longleftrightarrow> op_Type op = OpAdd \<and> op_PubKey op \<notin> set (keys vs)"

lemma apply_op_in_place:
  assumes "valset_wf vs" and "\<not> is_append op vs"
  shows "valset_wf (apply_op op vs) \<and> vmap (apply_op op vs) = spec_op op (vmap vs)"
proof -
  obtain i ok where fi: "findIndex vs (op_PubKey op) = (i, ok)" by fastforce
  note found = findIndex_vmap [OF assms(1) fi]
  have wf: "sorted (keys vs)" "distinct (keys vs)" using assms(1) by (simp_all add: valset_wf_def)
  show ?thesis
  proof (cases ok)
    case True
    with found have i: "i < length (Validators vs)" "v_PubKey (Validators vs ! i) = op_PubKey op"
      "vmap vs (op_PubKey op) = Some (Validators vs ! i)" by simp_all
    show ?thesis
      using wf i by (simp add: apply_op_def fi True spec_op_def valset_wf_def vmap_def keys_update
          by_key_update by_key_remove sorted_remove distinct_remove Let_def
          del: map_append distinct_append map_of_append add: keys_remove)
  next
    case False
    with found have none: "vmap vs (op_PubKey op) = None" by simp
    then have "op_PubKey op \<notin> set (keys vs)" by (simp add: vmap_def by_key_None)
    with assms none False show ?thesis
      by (auto simp: apply_op_def fi spec_op_def is_append_def fun_upd_idem Let_def)
  qed
qed

lemma findIndex_fresh: "pk \<notin> set (keys vs) \<Longrightarrow> \<exists>i. findIndex vs pk = (i, False)"
proof -
  assume fresh: "pk \<notin> set (keys vs)"
  obtain i ok where fi: "findIndex vs pk = (i, ok)" by fastforce
  have "\<not> ok"
  proof
    assume ok
    with fi findIndex_True have "i < length (keys vs)" "keys vs ! i = pk" by auto
    with fresh show False by (metis nth_mem)
  qed
  with fi show ?thesis by simp
qed

lemma apply_op_append:
  assumes "is_append op vs"
  shows "apply_op op vs = vs\<lparr>Validators := Validators vs @ [set_fields op (new_validator (op_PubKey op))]\<rparr>"
proof -
  obtain i where "findIndex vs (op_PubKey op) = (i, False)"
    using assms findIndex_fresh [of "op_PubKey op" vs] by (auto simp: is_append_def)
  with assms show ?thesis by (simp add: apply_op_def is_append_def Let_def)
qed

lemma by_key_append:
  "v_PubKey w \<notin> v_PubKey ` set xs \<Longrightarrow> by_key (xs @ [w]) = (by_key xs)(v_PubKey w \<mapsto> w)"
  by (induction xs) (auto simp: fun_eq_iff)

lemma apply_appends:
  assumes "\<forall>op \<in> set ops. is_append op vs" and "distinct (map op_PubKey ops)" and "distinct (keys vs)"
  shows "distinct (keys (fold apply_op ops vs))
    \<and> vmap (fold apply_op ops vs) = fold spec_op ops (vmap vs)"
  using assms
proof (induction ops arbitrary: vs)
  case (Cons op ops)
  let ?ws = "apply_op op vs"
  have app: "is_append op vs" using Cons.prems(1) by simp
  then have fresh: "op_PubKey op \<notin> v_PubKey ` set (Validators vs)" and "op_Type op = OpAdd"
    by (simp_all add: is_append_def)
  then have "vmap ?ws = spec_op op (vmap vs)"
    using by_key_None [of "Validators vs" "op_PubKey op"]
    by (simp add: apply_op_append [OF app] vmap_def by_key_append spec_op_def Let_def del: map_append)
  moreover have "\<forall>o' \<in> set ops. is_append o' ?ws"
    using Cons.prems(1,2) by (auto simp: is_append_def apply_op_append [OF app]) (metis imageI)
  ultimately show ?case
    using Cons.prems(2,3) fresh Cons.IH [of ?ws] by (simp add: apply_op_append [OF app])
qed simp

lemma SortPubKeyAsc_wf:
  assumes "distinct (keys vs)"
  shows "valset_wf (SortPubKeyAsc vs) \<and> vmap (SortPubKeyAsc vs) = vmap vs"
proof -
  have "mset (map v_PubKey (sort_key v_PubKey (Validators vs))) = mset (keys vs)" by simp
  then have "distinct (map v_PubKey (sort_key v_PubKey (Validators vs)))"
    using assms by (metis mset_eq_imp_distinct_iff)
  moreover have "by_key (sort_key v_PubKey (Validators vs)) = by_key (Validators vs)"
    using assms by (rule by_key_mset) simp
  ultimately show ?thesis by (simp add: SortPubKeyAsc_def valset_wf_def vmap_def)
qed

lemma Clone_id [simp]: "Clone vs = vs"
  by (cases vs) (simp add: Clone_def)

text \<open>
  The batches on which the binary search never meets an unsorted list: operations that update or
  remove in place, followed by additions of pairwise different new keys.
\<close>

fun safe_batch :: "ValSet \<Rightarrow> Op list \<Rightarrow> bool" where
  "safe_batch vs [] = True"
| "safe_batch vs (op # ops) =
     (if is_append op vs
      then list_all (\<lambda>o'. is_append o' vs) ops \<and> distinct (map op_PubKey (op # ops))
      else safe_batch (apply_op op vs) ops)"

lemma fold_apply_op:
  "valset_wf vs \<Longrightarrow> safe_batch vs ops \<Longrightarrow>
   distinct (keys (fold apply_op ops vs)) \<and> vmap (fold apply_op ops vs) = fold spec_op ops (vmap vs)"
proof (induction ops arbitrary: vs)
  case (Cons op ops)
  show ?case
  proof (cases "is_append op vs")
    case True
    with Cons.prems show ?thesis
      by (intro apply_appends) (auto simp: list_all_iff valset_wf_def)
  next
    case False
    with Cons.prems Cons.IH [of "apply_op op vs"] apply_op_in_place [of vs op] show ?thesis by simp
  qed
qed (simp add: valset_wf_def)

text \<open>
  Property C14. Refinement of validator set updates: on a well-formed set and a batch in which
  new keys are added last, \<open>ApplyOps\<close> returns a well-formed set whose contents are those of the
  specification map after the same operations in order.
\<close>

theorem ApplyOps_refines:
  assumes "valset_wf vs" and "safe_batch vs ops"
  shows "valset_wf (ApplyOps vs ops) \<and> vmap (ApplyOps vs ops) = fold spec_op ops (vmap vs)"
  using fold_apply_op [OF assms] SortPubKeyAsc_wf [of "fold apply_op ops vs"]
  by (simp add: ApplyOps_def)

definition demo_op :: "u8 \<Rightarrow> byte \<Rightarrow> Op" where
  "demo_op t x = \<lparr>op_Type = t, op_PubKey = x # replicate 31 0, op_StakeMas = Some 7,
     op_NodeType = Some 0, op_ScoreQ = None, op_Jailed = None\<rparr>"

theorem ApplyOps_refines_witness:
  "safe_batch demo_set [demo_op OpUpdate 5, demo_op OpRemove 7, demo_op OpAdd 1, demo_op OpAdd 3] \<and>
   vmap (ApplyOps demo_set [demo_op OpUpdate 5, demo_op OpRemove 7, demo_op OpAdd 1, demo_op OpAdd 3])
   = fold spec_op [demo_op OpUpdate 5, demo_op OpRemove 7, demo_op OpAdd 1, demo_op OpAdd 3] (vmap demo_set)"
proof -
  have "safe_batch demo_set [demo_op OpUpdate 5, demo_op OpRemove 7, demo_op OpAdd 1, demo_op OpAdd 3]"
    by code_simp
  with ApplyOps_refines [OF demo_set_wf this] show ?thesis by simp
qed

text \<open>
  Fact. Outside such batches \<open>ApplyOps\<close> can break the set: adding a new smallest key
  twice to a set with two larger keys leaves two entries with that key, because the first addition
  is appended at the end and the binary search of the second misses it.
\<close>

theorem ApplyOps_duplicates:
  "valset_wf demo_set \<and>
   keys (ApplyOps demo_set [demo_op OpAdd 1, demo_op OpAdd 1])
   = map (\<lambda>x. x # replicate 31 0) [1, 1, 5, 7] \<and>
   \<not> valset_wf (ApplyOps demo_set [demo_op OpAdd 1, demo_op OpAdd 1])"
  by (intro conjI demo_set_wf) code_simp+

section \<open>Jailing, weights and voting power\<close>

lemma GetNodeTypeWeight_values: "unat (GetNodeTypeWeight t) \<in> {1000, 1500, 2000}"
  by (simp add: GetNodeTypeWeight_def NormalizeNodeType_def NodeLight_def NodePool_def NodeFull_def Let_def)

text \<open>
  Fact. The voting power of a validator with a score in range and a stake below
  \<open>2^63\<close> is the rational \<open>stake * weight * score / (1000 * 65536)\<close> rounded down, without loss
  to wrap-around, and never more than twice the stake.
\<close>

theorem EffectivePower_exact:
  assumes "score_ok v" and "unat (v_StakeMas v) < 2 ^ 63"
  shows "unat (EffectivePower v)
      = unat (v_StakeMas v) * unat (GetNodeTypeWeight (v_NodeType v)) * unat (v_ScoreQ v) div 65536000
    \<and> unat (EffectivePower v) \<le> 2 * unat (v_StakeMas v)"
proof -
  define n where "n = unat (v_StakeMas v) * unat (GetNodeTypeWeight (v_NodeType v)) * unat (v_ScoreQ v)"
  have w: "unat (GetNodeTypeWeight (v_NodeType v)) \<le> 2000"
    using GetNodeTypeWeight_values [of "v_NodeType v"] by auto
  have q: "unat (v_ScoreQ v) \<le> 65536"
    using assms(1) by (simp add: score_ok_def ScoreQ_Max_def u32_le_iff)
  have "n \<le> unat (v_StakeMas v) * 2000 * 65536"
    unfolding n_def by (intro mult_le_mono order_refl w q)
  then have le: "n div 65536000 \<le> 2 * unat (v_StakeMas v)"
    using div_le_mono [of n "unat (v_StakeMas v) * 2000 * 65536" 65536000] by simp
  have num: "uint (v_StakeMas v) * uint (GetNodeTypeWeight (v_NodeType v)) * uint (v_ScoreQ v) = int n"
    by (simp add: n_def)
  have quo: "big_quo (int n) 65536000 = Inr (int (n div 65536000))"
    by (cases "n = 0") (simp_all add: big_quo_def zdiv_int)
  have "uint (ucast ScoreQ_One * 1000 :: u64) = 65536000" by (simp add: ScoreQ_One_def)
  then have "EffectivePower v = of_nat (n div 65536000)"
    by (simp only: EffectivePower_def num quo big_Uint64_def Let_def sum.case) simp
  then have "unat (EffectivePower v) = n div 65536000"
    using le assms(2) by (simp add: unat_of_nat)
  with le show ?thesis by (simp add: n_def)
qed

theorem EffectivePower_exact_witness: "unat (EffectivePower (demo_val 1)) = 1220"
  using EffectivePower_exact [of "demo_val 1"]
  by (simp add: demo_val_def score_ok_def ScoreQ_Max_def GetNodeTypeWeight_def NormalizeNodeType_def
      NodeLight_def NodePool_def)

section \<open>The validators root\<close>

lemma next_level_eq: "next_level f xs = level_up f xs"
proof (induction f xs rule: next_level.induct)
  case (1 f l r xs)
  then show ?case by (cases xs) (auto simp: level_up_def dup_last_def)
qed (simp_all add: level_up_def dup_last_def)

lemma merkleRoot_loop_climb: "xs \<noteq> [] \<Longrightarrow> merkleRoot_loop f xs = hd (climb f xs)"
proof (induction f xs rule: merkleRoot_loop.induct)
  case (1 f xs)
  show ?case
  proof (cases "1 < length xs")
    case True
    then have "next_level f xs \<noteq> []" by (simp flip: length_greater_0_conv)
    with True 1 show ?thesis by (subst merkleRoot_loop.simps) (simp add: climb_long next_level_eq)
  next
    case False
    with "1.prems" show ?thesis by (subst merkleRoot_loop.simps) (simp add: hd_conv_nth)
  qed
qed

text \<open>The byte strings hashed while computing a validators root.\<close>

definition entry_bytes :: "cbor \<Rightarrow> Validator \<Rightarrow> bytes" where
  "entry_bytes cbor v = cbor_bytes cbor (leaf_entry v)"

definition pair_bytes :: "cbor \<Rightarrow> bytes \<Rightarrow> bytes \<Rightarrow> bytes" where
  "pair_bytes cbor l r = cbor_bytes cbor (node_entry l r)"

definition root_inputs :: "(bytes \<Rightarrow> bytes) \<Rightarrow> cbor \<Rightarrow> Validator list \<Rightarrow> bytes set" where
  "root_inputs b3 cbor vals =
     entry_bytes cbor ` set vals
     \<union> climb_inputs b3 (pair_bytes cbor) (map (\<lambda>v. b3 (entry_bytes cbor v)) (SortValidators vals))"

lemma hasFloat_entries [simp]: "\<not> hasFloat (leaf_entry v)" "\<not> hasFloat (node_entry l r)"
  by (simp_all add: leaf_entry_def node_entry_def)

lemma leafFor_eq: "leafFor b3 cbor v = b3 (entry_bytes cbor v)"
  by (simp add: leafFor_def entry_bytes_def cbor_bytes_def ignore_err_def EncodeCBORCanonical_def)

lemma node_for_eq: "node_for b3 cbor = (\<lambda>l r. b3 (pair_bytes cbor l r))"
  by (simp add: fun_eq_iff node_for_def pair_bytes_def cbor_bytes_def ignore_err_def EncodeCBORCanonical_def)

definition root_values :: "goval set" where
  "root_values = leaf_entry ` {v. length (v_PubKey v) = 32}
     \<union> {node_entry l r | l r. length l = 32 \<and> length r = 32}"

lemma rfc8949_root_values: "cbor_faithful rfc8949 root_values"
  by (rule rfc8949_faithful) (auto simp: root_values_def leaf_entry_def node_entry_def)

lemma pair_encoding:
  assumes "cbor_faithful cbor root_values"
  shows "node_encoding (pair_bytes cbor)"
proof
  fix a a' b b' :: bytes
  assume "length a = 32" "length a' = 32" "length b = 32" "length b' = 32"
    and "pair_bytes cbor a b = pair_bytes cbor a' b'"
  then have "node_entry a b = node_entry a' b'"
    unfolding pair_bytes_def by (intro cbor_bytes_inject [OF assms]) (auto simp: root_values_def)
  then show "a = a' \<and> b = b'" by (simp add: node_entry_def)
qed

text \<open>What the root can tell apart of a validator: everything but the spelling of its type.\<close>

definition normal_validator :: "Validator \<Rightarrow> Validator" where
  "normal_validator v = v\<lparr>v_NodeType := NormalizeNodeType (v_NodeType v)\<rparr>"

lemma leaf_entry_inject: "leaf_entry v = leaf_entry w \<longleftrightarrow> normal_validator v = normal_validator w"
  by (cases v; cases w) (auto simp: leaf_entry_def normal_validator_def)

lemma ComputeValidatorsRoot_eq:
  "vals \<noteq> [] \<Longrightarrow> ComputeValidatorsRoot b3 cbor vals
   = hd (climb (\<lambda>l r. b3 (pair_bytes cbor l r))
       (map (\<lambda>v. b3 (entry_bytes cbor v)) (SortValidators vals)))"
  by (cases vals) (simp_all add: ComputeValidatorsRoot_def merkleRoot_def merkleRoot_loop_climb SortValidators_def
      leafFor_eq [abs_def] node_for_eq)

text \<open>
  Fact. The validators root does not depend on the order in which the validators are
  listed, as long as their public keys are pairwise different.
\<close>

theorem ComputeValidatorsRoot_order:
  assumes "distinct (map v_PubKey vals)" and "mset vals' = mset vals"
  shows "ComputeValidatorsRoot b3 cbor vals' = ComputeValidatorsRoot b3 cbor vals"
proof -
  have "inj_on v_PubKey (set vals')" using assms by (metis distinct_map set_mset_mset)
  then have "SortValidators vals' = SortValidators vals"
    unfolding SortValidators_def by (rule sort_key_cong_mset [OF assms(2)])
  then show ?thesis by (simp add: ComputeValidatorsRoot_def)
qed

theorem ComputeValidatorsRoot_order_witness:
  "ComputeValidatorsRoot toy_hash rfc8949 [demo_val 9, demo_val 2, demo_val 4]
   = ComputeValidatorsRoot toy_hash rfc8949 [demo_val 2, demo_val 4, demo_val 9]"
  by (rule ComputeValidatorsRoot_order) (simp_all add: demo_val_def)

lemma map_eq_weaken:
  assumes "map f xs = map f ys"
    and "\<And>x y. x \<in> set xs \<Longrightarrow> y \<in> set ys \<Longrightarrow> f x = f y \<Longrightarrow> g x = g y"
  shows "map g xs = map g ys"
  using assms by (induction xs arbitrary: ys) (auto simp: Cons_eq_map_conv)

text \<open>
  Property C16. The validators root binds the set: two lists of the same length with 32-byte keys
  and the same root hold the same validators up to order and the spelling of the node type,
  provided CBOR is faithful on the encoded values and the hash is injective on the strings hashed.
\<close>

theorem ComputeValidatorsRoot_binding:
  assumes "\<And>x. length (b3 x) = 32" and "cbor_faithful cbor root_values"
    and "length vals = length vals'"
    and "\<forall>v \<in> set vals \<union> set vals'. length (v_PubKey v) = 32"
    and "inj_on b3 (root_inputs b3 cbor vals \<union> root_inputs b3 cbor vals')"
    and "ComputeValidatorsRoot b3 cbor vals = ComputeValidatorsRoot b3 cbor vals'"
  shows "image_mset normal_validator (mset vals) = image_mset normal_validator (mset vals')"
proof (cases "vals = []")
  case False
  let ?ni = "pair_bytes cbor" and ?leaves = "\<lambda>vs. map (\<lambda>v. b3 (entry_bytes cbor v)) (SortValidators vs)"
  have set_sort [simp]: "set (SortValidators vs) = set vs" and len_sort [simp]: "length (SortValidators vs) = length vs" for vs
    by (simp_all add: SortValidators_def)
  have ne: "vals' \<noteq> []" using False assms(3) by auto
  have one: "\<exists>r. climb (\<lambda>l r. b3 (?ni l r)) (?leaves vs) = [r]" if "vs \<noteq> []" for vs
    using length_climb [of "?leaves vs" "\<lambda>l r. b3 (?ni l r)"] that
    by (auto simp: length_Suc_conv simp flip: length_greater_0_conv)
  have eq: "climb (\<lambda>l r. b3 (?ni l r)) (?leaves vals) = climb (\<lambda>l r. b3 (?ni l r)) (?leaves vals')"
    using assms(6) one [OF False] one [OF ne]
    by (auto simp: ComputeValidatorsRoot_eq [OF False] ComputeValidatorsRoot_eq [OF ne])
  have inj: "inj_on b3 (climb_inputs b3 ?ni (?leaves vals) \<union> climb_inputs b3 ?ni (?leaves vals'))"
    by (rule inj_on_subset [OF assms(5)]) (auto simp: root_inputs_def)
  have "?leaves vals = ?leaves vals'"
  proof (rule node_encoding.climb_inject [OF pair_encoding [OF assms(2)] _ _ _ inj eq])
    show "\<forall>x \<in> set (?leaves vals) \<union> set (?leaves vals'). length x = 32" by (auto simp: assms(1))
  qed (simp_all add: assms(1,3))
  then have "map normal_validator (SortValidators vals) = map normal_validator (SortValidators vals')"
  proof (rule map_eq_weaken)
    fix v w
    assume vw: "v \<in> set (SortValidators vals)" "w \<in> set (SortValidators vals')"
      and "b3 (entry_bytes cbor v) = b3 (entry_bytes cbor w)"
    then have "entry_bytes cbor v = entry_bytes cbor w"
      using inj_onD [OF assms(5), of "entry_bytes cbor v" "entry_bytes cbor w"]
      by (simp add: root_inputs_def)
    then have "leaf_entry v = leaf_entry w"
      using cbor_bytes_inject [OF assms(2), of "leaf_entry v" "leaf_entry w"] vw assms(4)
      by (simp add: entry_bytes_def root_values_def)
    then show "normal_validator v = normal_validator w" by (simp add: leaf_entry_inject)
  qed
  then have "mset (map normal_validator (SortValidators vals)) = mset (map normal_validator (SortValidators vals'))"
    by simp
  then show ?thesis by (simp add: SortValidators_def)
qed (use assms(3) in simp)

theorem ComputeValidatorsRoot_binding_witness:
  "image_mset normal_validator (mset [demo_val 3])
   = image_mset normal_validator (mset [demo_val 3\<lparr>v_NodeType := NormalizeNodeType 2\<rparr>])"
proof (rule ComputeValidatorsRoot_binding [of toy_hash rfc8949])
  have same: "leaf_entry (demo_val 3\<lparr>v_NodeType := NormalizeNodeType 2\<rparr>) = leaf_entry (demo_val 3)"
    by (simp add: leaf_entry_inject normal_validator_def demo_val_def NormalizeNodeType_def)
  show "ComputeValidatorsRoot toy_hash rfc8949 [demo_val 3]
      = ComputeValidatorsRoot toy_hash rfc8949 [demo_val 3\<lparr>v_NodeType := NormalizeNodeType 2\<rparr>]"
    by (simp add: ComputeValidatorsRoot_eq SortValidators_def entry_bytes_def same)
  show "inj_on toy_hash (root_inputs toy_hash rfc8949 [demo_val 3]
      \<union> root_inputs toy_hash rfc8949 [demo_val 3\<lparr>v_NodeType := NormalizeNodeType 2\<rparr>])"
    by (simp add: root_inputs_def SortValidators_def entry_bytes_def same)
qed (simp_all add: rfc8949_root_values demo_val_def)

end
