(* ===== verification/Base64.thy ===== *)
theory Base64
  imports Go_Strings
begin

text \<open>
  \<open>encoding/base64\<close> as far as the program uses it: \<open>StdEncoding\<close> (padded) and
  \<open>RawURLEncoding\<close> (unpadded), encoding and the non-strict decoding that skips line breaks.
\<close>

definition b64_char :: "bool \<Rightarrow> nat \<Rightarrow> char" where
  "b64_char url n =
     (if n < 26 then char_of (65 + n)
      else if n < 52 then char_of (71 + n)
      else if n < 62 then char_of (n - 4)
      else if n = 62 then (if url then CHR ''-'' else CHR ''+'')
      else (if url then CHR ''_'' else CHR ''/''))"

definition b64_val :: "bool \<Rightarrow> char \<Rightarrow> nat option" where
  "b64_val url c =
     (let n = of_char c in
      if 65 \<le> n \<and> n \<le> 90 then Some (n - 65)
      else if 97 \<le> n \<and> n \<le> 122 then Some (n - 71)
      else if 48 \<le> n \<and> n \<le> 57 then Some (n + 4)
      else if c = (if url then CHR ''-'' else CHR ''+'') then Some 62
      else if c = (if url then CHR ''_'' else CHR ''/'') then Some 63
      else None)"

fun b64_encode :: "bool \<Rightarrow> bytes \<Rightarrow> string" where
  "b64_encode url [] = []"
| "b64_encode url [a] =
     (let x = unat a in
      [b64_char url (x div 4), b64_char url (x mod 4 * 16)] @ (if url then [] else ''==''))"
| "b64_encode url [a, b] =
     (let x = unat a; y = unat b in
      [b64_char url (x div 4), b64_char url (x mod 4 * 16 + y div 16), b64_char url (y mod 16 * 4)]
      @ (if url then [] else ''=''))"
| "b64_encode url (a # b # c # rest) =
     (let x = unat a; y = unat b; z = unat c in
      [b64_char url (x div 4), b64_char url (x mod 4 * 16 + y div 16),
       b64_char url (y mod 16 * 4 + z div 64), b64_char url (z mod 64)] @ b64_encode url rest)"

definition dec2 :: "bool \<Rightarrow> char \<Rightarrow> char \<Rightarrow> bytes option" where
  "dec2 url a b = (case (b64_val url a, b64_val url b) of
     (Some i, Some j) \<Rightarrow> Some [of_nat (i * 4 + j div 16)] | _ \<Rightarrow> None)"

definition dec3 :: "bool \<Rightarrow> char \<Rightarrow> char \<Rightarrow> char \<Rightarrow> bytes option" where
  "dec3 url a b c = (case (b64_val url a, b64_val url b, b64_val url c) of
     (Some i, Some j, Some k) \<Rightarrow> Some [of_nat (i * 4 + j div 16), of_nat (j mod 16 * 16 + k div 4)]
   | _ \<Rightarrow> None)"

definition dec4 :: "bool \<Rightarrow> char \<Rightarrow> char \<Rightarrow> char \<Rightarrow> char \<Rightarrow> bytes option" where
  "dec4 url a b c d = (case (b64_val url a, b64_val url b, b64_val url c, b64_val url d) of
     (Some i, Some j, Some k, Some l) \<Rightarrow>
       Some [of_nat (i * 4 + j div 16), of_nat (j mod 16 * 16 + k div 4), of_nat (k mod 4 * 64 + l)]
   | _ \<Rightarrow> None)"

fun b64_quanta :: "bool \<Rightarrow> string \<Rightarrow> bytes option" where
  "b64_quanta url [] = Some []"
| "b64_quanta url [a, b] = (if url then dec2 url a b else None)"
| "b64_quanta url [a, b, c] = (if url then dec3 url a b c else None)"
| "b64_quanta url (a # b # c # d # rest) =
     (if \<not> url \<and> c = CHR ''='' then (if d = CHR ''='' \<and> rest = [] then dec2 url a b else None)
      else if \<not> url \<and> d = CHR ''='' then (if rest = [] then dec3 url a b c else None)
      else case (dec4 url a b c d, b64_quanta url rest) of
        (Some x, Some y) \<Rightarrow> Some (x @ y) | _ \<Rightarrow> None)"
| "b64_quanta url _ = None"

definition b64_decode :: "bool \<Rightarrow> string \<Rightarrow> bytes option" where
  "b64_decode url s = b64_quanta url (filter (\<lambda>c. c \<noteq> CHR 0x0A \<and> c \<noteq> CHR 0x0D) s)"

section \<open>Round trip\<close>

lemma b64_val_char [simp]: "n < 64 \<Longrightarrow> b64_val url (b64_char url n) = Some n"
  by (auto simp: b64_val_def b64_char_def Let_def)

lemma b64_char_plain [simp]:
  assumes "n < 64"
  shows "b64_char url n \<noteq> CHR ''=''" "b64_char url n \<noteq> CHR 0x0A" "b64_char url n \<noteq> CHR 0x0D"
proof -
  have "b64_val url (CHR ''='') = None" "b64_val url (CHR 0x0A) = None" "b64_val url (CHR 0x0D) = None"
    by (simp_all add: b64_val_def)
  then show "b64_char url n \<noteq> CHR ''=''" "b64_char url n \<noteq> CHR 0x0A" "b64_char url n \<noteq> CHR 0x0D"
    using b64_val_char [OF assms, of url] by (metis option.distinct(1))+
qed

lemma b64_join2: "of_nat (unat a div 4 * 4 + unat a mod 4 * 16 div 16) = (a :: byte)"
  by simp

lemma b64_ranges:
  "unat (a :: byte) div 4 < 64" "unat a mod 4 * 16 < 64" "unat a mod 16 * 4 < 64" "unat a mod 64 < 64"
  "unat a div 16 < 16" "unat a div 64 < 4"
  using unat_byte_lt [of a] by auto

lemma b64_mixed:
  "unat (a :: byte) mod 4 * 16 + unat (b :: byte) div 16 < 64"
  "unat a mod 16 * 4 + unat b div 64 < 64"
  using b64_ranges(5,6) [of b] by auto

lemma b64_quanta_encode: "b64_quanta url (b64_encode url bs) = Some bs"
proof (induction url bs rule: b64_encode.induct)
  case (2 url a)
  then show ?case by (simp add: Let_def dec2_def b64_ranges)
next
  case (3 url a b)
  then show ?case by (simp add: Let_def dec3_def b64_ranges b64_mixed)
next
  case (4 url a b c rest)
  then show ?case by (simp add: Let_def dec4_def b64_ranges b64_mixed)
qed simp

lemma b64_encode_lines: "filter (\<lambda>c. c \<noteq> CHR 0x0A \<and> c \<noteq> CHR 0x0D) (b64_encode url bs) = b64_encode url bs"
  by (induction url bs rule: b64_encode.induct) (simp_all add: Let_def b64_ranges b64_mixed)

lemma b64_decode_encode [simp]: "b64_decode url (b64_encode url bs) = Some bs"
  by (simp add: b64_decode_def b64_encode_lines b64_quanta_encode)

lemma b64_encode_inject [simp]: "b64_encode url a = b64_encode url b \<longleftrightarrow> a = b"
  by (metis b64_decode_encode option.inject)

end
