(* ===== verification/Tx.thy ===== *)
theory Tx
  imports Base64
begin

text \<open>
  \<open>internal/tx\<close> (default build: SHA-256): transfers, the reading of amounts and fees from the
  accepted JSON members, and the transaction hash over the canonical JSON text. SHA-256 is a
  parameter \<open>sha\<close>. JSON strings are escaped as \<open>json.Marshal\<close> does for ASCII text; bytes above
  127 are copied.
\<close>

section \<open>JSON strings\<close>

definition esc_char :: "char \<Rightarrow> string" where
  "esc_char c =
     (let n = of_char c :: nat in
      if c = CHR 0x22 then [CHR 0x5C, CHR 0x22]
      else if c = CHR 0x5C then [CHR 0x5C, CHR 0x5C]
      else if n = 8 then [CHR 0x5C, CHR ''b'']
      else if n = 12 then [CHR 0x5C, CHR ''f'']
      else if n = 10 then [CHR 0x5C, CHR ''n'']
      else if n = 13 then [CHR 0x5C, CHR ''r'']
      else if n = 9 then [CHR 0x5C, CHR ''t'']
      else if n < 32 \<or> c = CHR ''<'' \<or> c = CHR ''>'' \<or> c = CHR ''&''
      then [CHR 0x5C, CHR ''u'', CHR ''0'', CHR ''0'', hex_char (n div 16), hex_char (n mod 16)]
      else [c])"

definition json_string :: "string \<Rightarrow> string" where
  "json_string s = CHR 0x22 # concat (map esc_char s) @ [CHR 0x22]"

definition first_code :: "string \<Rightarrow> string" where
  "first_code s =
     (if hd s = CHR 0x5C then (if s ! 1 = CHR ''u'' then take 6 s else take 2 s) else take 1 s)"

lemma first_code_esc: "first_code (esc_char c @ xs) = esc_char c"
  by (simp add: first_code_def esc_char_def Let_def)

definition esc_value :: "string \<Rightarrow> char" where
  "esc_value s =
     (if length s = 1 then hd s
      else if length s = 6 then char_of (16 * the (hex_val (s ! 4)) + the (hex_val (s ! 5)))
      else if s ! 1 = CHR ''b'' then CHR 0x08
      else if s ! 1 = CHR ''f'' then CHR 0x0C
      else if s ! 1 = CHR ''n'' then CHR 0x0A
      else if s ! 1 = CHR ''r'' then CHR 0x0D
      else if s ! 1 = CHR ''t'' then CHR 0x09
      else s ! 1)"

lemma of_char_eq_num:
  "of_char c = (8::nat) \<Longrightarrow> c = CHR 0x08" "of_char c = (12::nat) \<Longrightarrow> c = CHR 0x0C"
  "of_char c = (10::nat) \<Longrightarrow> c = CHR 0x0A" "of_char c = (13::nat) \<Longrightarrow> c = CHR 0x0D"
  "of_char c = (9::nat) \<Longrightarrow> c = CHR 0x09"
  by (simp_all flip: of_char_eq_iff [where ?'a = nat])

lemma esc_value_esc: "esc_value (esc_char c) = c"
proof -
  have n: "of_char c < (256 :: nat)" by (rule nat_of_char_less_256)
  then have "of_char c div 16 < (16 :: nat)" by (rule less_mult_imp_div_less [of _ 16 16, simplified])
  then show ?thesis
    by (auto simp: esc_value_def esc_char_def Let_def dest: of_char_eq_num)
qed

lemma esc_char_prefix:
  assumes "esc_char c @ xs = esc_char d @ ys"
  shows "c = d \<and> xs = ys"
proof -
  have "esc_char c = esc_char d" using assms first_code_esc by metis
  with assms show ?thesis by (metis append_same_eq esc_value_esc same_append_eq)
qed

lemma esc_not_quote: "esc_char c @ xs \<noteq> CHR 0x22 # ys"
  by (auto simp: esc_char_def Let_def)

lemma json_string_prefix:
  assumes "json_string s @ xs = json_string t @ ys"
  shows "s = t \<and> xs = ys"
proof -
  have "concat (map esc_char s) @ CHR 0x22 # xs = concat (map esc_char t) @ CHR 0x22 # ys \<Longrightarrow> s = t \<and> xs = ys"
  proof (induction s arbitrary: t)
    case Nil
    then show ?case using esc_not_quote by (cases t) (auto, metis)
  next
    case (Cons c s)
    then show ?case
    proof (cases t)
      case Nil
      with Cons.prems have "esc_char c @ (concat (map esc_char s) @ CHR 0x22 # xs) = CHR 0x22 # ys" by simp
      then show ?thesis using esc_not_quote by blast
    next
      case (Cons d t')
      with Cons.prems have "esc_char c @ (concat (map esc_char s) @ CHR 0x22 # xs)
          = esc_char d @ (concat (map esc_char t') @ CHR 0x22 # ys)" by simp
      from esc_char_prefix [OF this] Cons.IH Cons show ?thesis by simp
    qed
  qed
  then show ?thesis using assms by (simp add: json_string_def)
qed

text \<open>Reading an escaped string back.\<close>

lemma first_code_pos: "0 < length (first_code (c # cs))"
  by (simp add: first_code_def)

function unescape :: "string \<Rightarrow> string" where
  "unescape s =
     (if s = [] then [] else esc_value (first_code s) # unescape (drop (length (first_code s)) s))"
  by pat_completeness auto
termination
proof (relation "measure length")
  fix s :: string
  assume "s \<noteq> []"
  then show "(drop (length (first_code s)) s, s) \<in> measure length"
    using first_code_pos [of "hd s" "tl s"] by simp
qed simp

declare unescape.simps [simp del]

lemma esc_char_nonempty [simp]: "esc_char c \<noteq> []"
  by (simp add: esc_char_def Let_def)

lemma unescape_concat: "unescape (concat (map esc_char s)) = s"
proof (induction s)
  case (Cons c s)
  have "unescape (esc_char c @ concat (map esc_char s)) = c # unescape (concat (map esc_char s))"
    by (subst unescape.simps) (simp add: first_code_esc esc_value_esc)
  with Cons show ?case by simp
qed (simp add: unescape.simps)

text \<open>A byte slice is a base64 string, a nil slice \<open>null\<close>.\<close>

definition json_bytes :: "bytes option \<Rightarrow> string" where
  "json_bytes b = (case b of None \<Rightarrow> ''null'' | Some bs \<Rightarrow> json_string (b64_encode False bs))"

lemma json_bytes_prefix:
  assumes "json_bytes a @ xs = json_bytes b @ ys"
  shows "a = b \<and> xs = ys"
proof (cases a; cases b)
  fix x y
  assume ab: "a = Some x" "b = Some y"
  with assms json_string_prefix [of "b64_encode False x" xs "b64_encode False y" ys] show ?thesis
    by (simp add: json_bytes_def)
qed (use assms in \<open>auto simp: json_bytes_def json_string_def\<close>)

section \<open>tx.go\<close>

record Transfer =
  tr_Type :: i64
  tr_From :: string
  tr_To :: string
  tr_AmountMas :: u64
  tr_FeeMas :: u64
  tr_Nonce :: u64
  tr_ChainID :: string
  tr_ExpiryHeight :: u64
  tr_MsgCommit :: string

text \<open>
  The members that \<open>UnmarshalJSON\<close> looks at, after \<open>json.Unmarshal\<close>: the plain fields (with
  amount and fee zero, since the outer members shadow them) and the optional amount and fee members.
\<close>

record TransferAux =
  ax_Alias :: Transfer
  ax_AmountMas :: "u64 option"
  ax_FeeMas :: "u64 option"
  ax_AmountMicro1 :: "u64 option"
  ax_AmountMicro2 :: "u64 option"
  ax_FeeMicro1 :: "u64 option"
  ax_FeeMicro2 :: "u64 option"

definition pick_amount :: "u64 \<Rightarrow> u64 option \<Rightarrow> u64 option \<Rightarrow> u64 option \<Rightarrow> u64" where
  "pick_amount dflt mas micro1 micro2 =
     (case mas of Some v \<Rightarrow> v
      | None \<Rightarrow> (case micro1 of Some v \<Rightarrow> v * 10
         | None \<Rightarrow> (case micro2 of Some v \<Rightarrow> v * 10 | None \<Rightarrow> dflt)))"

definition UnmarshalJSON :: "(bytes \<Rightarrow> TransferAux result) \<Rightarrow> bytes \<Rightarrow> Transfer result" where
  "UnmarshalJSON unm b =
     (case unm b of
        Inl e \<Rightarrow> Inl e
      | Inr aux \<Rightarrow>
          let t = ax_Alias aux
          in Inr (t\<lparr>tr_AmountMas := pick_amount (tr_AmountMas t) (ax_AmountMas aux) (ax_AmountMicro1 aux) (ax_AmountMicro2 aux),
                    tr_FeeMas := pick_amount (tr_FeeMas t) (ax_FeeMas aux) (ax_FeeMicro1 aux) (ax_FeeMicro2 aux)\<rparr>))"

definition decodeMsgCommit :: "string \<Rightarrow> bytes option" where
  "decodeMsgCommit s =
     (if s = [] then None
      else case b64_decode False s of None \<Rightarrow> Some (bytes_of s) | Some b \<Rightarrow> Some b)"

definition canon_json :: "Transfer \<Rightarrow> string" where
  "canon_json t =
     ''{'' @ json_key ''type'' @ dec_nat (unat (tr_Type t)) @ '','' @ json_key ''from''
     @ json_string (tr_From t) @ '','' @ json_key ''to'' @ json_string (tr_To t)
     @ '','' @ json_key ''amount_mas'' @ dec_nat (unat (tr_AmountMas t))
     @ '','' @ json_key ''fee_mas'' @ dec_nat (unat (tr_FeeMas t))
     @ '','' @ json_key ''nonce'' @ dec_nat (unat (tr_Nonce t))
     @ '','' @ json_key ''chain_id'' @ json_string (tr_ChainID t)
     @ '','' @ json_key ''expiry_height'' @ dec_nat (unat (tr_ExpiryHeight t))
     @ '','' @ json_key ''msg_commitment'' @ json_bytes (decodeMsgCommit (tr_MsgCommit t)) @ ''}''"

definition tx_Hash :: "(bytes \<Rightarrow> bytes) \<Rightarrow> Transfer \<Rightarrow> string" where
  "tx_Hash sha t = hex_encode (sha (bytes_of (canon_json t)))"

section \<open>What the hash covers\<close>

text \<open>Everything of a transfer, with the commitment decoded.\<close>

definition tx_content :: "Transfer \<Rightarrow> Transfer \<times> bytes option" where
  "tx_content t = (t\<lparr>tr_MsgCommit := []\<rparr>, decodeMsgCommit (tr_MsgCommit t))"

lemma dec_nat_comma:
  "dec_nat m @ CHR '','' # xs = dec_nat n @ CHR '','' # ys \<longleftrightarrow> m = n \<and> xs = ys"
  using dec_nat_append_inject [of m "CHR '',''" xs n ys] by auto

lemma json_string_eq: "json_string s @ xs = json_string t @ ys \<longleftrightarrow> s = t \<and> xs = ys"
  using json_string_prefix by blast

lemma json_bytes_eq: "json_bytes a @ xs = json_bytes b @ ys \<longleftrightarrow> a = b \<and> xs = ys"
  using json_bytes_prefix by blast

lemma json_bytes_inject: "json_bytes a = json_bytes b \<longleftrightarrow> a = b"
  using json_bytes_prefix [of a "[]" b "[]"] by auto

lemma canon_json_inject: "canon_json t = canon_json u \<longleftrightarrow> tx_content t = tx_content u"
  by (cases t; cases u)
    (auto simp: canon_json_def tx_content_def json_key_def dec_nat_comma json_string_eq
      json_bytes_eq json_bytes_inject u64_eq_iff)

text \<open>
  Fact. A transaction hash binds the transaction: two transfers with the same hash agree
  in every field, the commitment being compared as the bytes it stands for, provided SHA-256 does
  not collide on the two canonical texts.
\<close>

theorem tx_Hash_binding:
  assumes "tx_Hash sha t = tx_Hash sha u"
    and "inj_on sha {bytes_of (canon_json t), bytes_of (canon_json u)}"
  shows "tx_content t = tx_content u"
proof -
  have "sha (bytes_of (canon_json t)) = sha (bytes_of (canon_json u))"
    using assms(1) by (simp add: tx_Hash_def)
  then have "bytes_of (canon_json t) = bytes_of (canon_json u)" by (rule inj_onD [OF assms(2)]) simp_all
  then show ?thesis by (simp add: canon_json_inject)
qed

definition demo_tx :: Transfer where
  "demo_tx = \<lparr>tr_Type = 1, tr_From = ''tho1alice'', tr_To = ''tho1bob'', tr_AmountMas = 10,
     tr_FeeMas = 1, tr_Nonce = 1, tr_ChainID = ''thomas-dev-1'', tr_ExpiryHeight = 0,
     tr_MsgCommit = ''AQI=''\<rparr>"

theorem tx_Hash_binding_witness:
  "tx_content demo_tx = tx_content (demo_tx\<lparr>tr_MsgCommit := [CHR ''A'', CHR 0x0A, CHR ''Q'', CHR ''I'', CHR ''='']\<rparr>)"
proof -
  have "canon_json (demo_tx\<lparr>tr_MsgCommit := [CHR ''A'', CHR 0x0A, CHR ''Q'', CHR ''I'', CHR ''='']\<rparr>)
      = canon_json demo_tx"
    by (simp add: canon_json_def demo_tx_def decodeMsgCommit_def b64_decode_def dec3_def b64_val_def Let_def)
  then show ?thesis
    using tx_Hash_binding [of "\<lambda>x. x" demo_tx
        "demo_tx\<lparr>tr_MsgCommit := [CHR ''A'', CHR 0x0A, CHR ''Q'', CHR ''I'', CHR ''='']\<rparr>"]
    by (simp add: tx_Hash_def)
qed

end
