(* ===== verification/Reward_Store.thy ===== *)
theory Reward_Store
  imports Rewards Stake Tx
begin

text \<open>
  \<open>internal/state/rewards\<close> (\<open>keys.go\<close>, \<open>adapter.go\<close>) and
  \<open>internal/app/validator_state.go\<close>: validator scores, payouts and epoch summaries in the
  key/value store of the state database. The readers are the same in both builds and have the type
  of the record as a type variable; \<open>PutValidatorScore\<close> writes the record of the default build,
  which holds an address (that of the other build is in \<open>Legacy_Apply\<close>). Reading JSON is a
  parameter \<open>unm\<close>; the writers of this theory cannot fail to encode.
\<close>

section \<open>keys.go\<close>

definition validatorScorePrefix :: string where "validatorScorePrefix = ''validators''"
definition validatorRewardPrefix :: string where "validatorRewardPrefix = ''reward''"

definition normalize :: "string \<Rightarrow> string" where
  "normalize s = to_lower (trim_space s)"

definition epochKey :: "u64 \<Rightarrow> string" where
  "epochKey epoch = ''epoch_'' @ hex_encode (be_bytes 8 (unat epoch))"

text \<open>An empty address makes the key functions panic, \<open>Inl\<close> here.\<close>

definition ValidatorScoreKey :: "string \<Rightarrow> string result" where
  "ValidatorScoreKey address =
     (if address = [] then Inl ''validator score key: empty address''
      else Inr (validatorScorePrefix @ ''/'' @ normalize address @ ''/score''))"

definition ValidatorPayoutKey :: "u64 \<Rightarrow> string \<Rightarrow> string result" where
  "ValidatorPayoutKey epoch address =
     (if address = [] then Inl ''validator payout key: empty address''
      else Inr (validatorRewardPrefix @ ''/'' @ epochKey epoch @ ''/v/'' @ normalize address))"

definition EpochSummaryKey :: "u64 \<Rightarrow> string" where
  "EpochSummaryKey epoch = validatorRewardPrefix @ ''/'' @ epochKey epoch @ ''/summary''"

section \<open>adapter.go\<close>

record Adapter =
  ad_db :: DB
  ad_foundationAddr :: string
  ad_exchangeAddr :: string

definition NewAdapter :: "DB \<Rightarrow> string \<Rightarrow> string \<Rightarrow> Adapter" where
  "NewAdapter db foundationAddr exchangeAddr =
     \<lparr>ad_db = db, ad_foundationAddr = foundationAddr, ad_exchangeAddr = exchangeAddr\<rparr>"

definition score_json :: "ScoreRecord \<Rightarrow> bytes" where
  "score_json r = bytes_of (''{'' @ json_key ''Address'' @ json_string (sr_Address r) @ ''}'')"

definition payout_json :: "u64 \<Rightarrow> bytes" where
  "payout_json amount = bytes_of (''{'' @ json_key ''amount'' @ dec_nat (unat amount) @ ''}'')"

definition summary_json :: "EpochRewardSummary \<Rightarrow> bytes" where
  "summary_json s = bytes_of (json_uints
     [(''Height'', es_Height s), (''Epoch'', es_Epoch s), (''TotalEmission'', es_TotalEmission s),
      (''ValidatorShare'', es_ValidatorShare s), (''FoundationShare'', es_FoundationShare s),
      (''ExchangeShare'', es_ExchangeShare s)])"

text \<open>The callback of the two listing loops: collect records, stop at the first bad one.\<close>

definition collect_score ::
  "(bytes \<Rightarrow> 'r option) \<Rightarrow> string \<Rightarrow> bytes \<Rightarrow> 'r list \<times> string option
   \<Rightarrow> bool \<times> ('r list \<times> string option)" where
  "collect_score unm key val st =
     (case unm val of
        None \<Rightarrow> (False, (fst st, Some (''decode validator score '' @ key)))
      | Some rec \<Rightarrow> (True, (fst st @ [rec], snd st)))"

definition loadAllValidatorScores :: "(bytes \<Rightarrow> 'r option) \<Rightarrow> DB \<Rightarrow> 'r list result" where
  "loadAllValidatorScores unm db =
     (case RangePrefix (validatorScorePrefix @ ''/'') (collect_score unm) db ([], None) of
        (records, None) \<Rightarrow> Inr records
      | (records, Some e) \<Rightarrow> Inl e)"

definition ListValidatorScores :: "(bytes \<Rightarrow> 'r option) \<Rightarrow> Adapter \<Rightarrow> 'r list result" where
  "ListValidatorScores unm a =
     (case RangePrefix (validatorScorePrefix @ ''/'') (collect_score unm) (ad_db a) ([], None) of
        (records, None) \<Rightarrow> Inr records
      | (records, Some e) \<Rightarrow> Inl e)"

definition PutValidatorScore :: "ScoreRecord \<Rightarrow> Adapter \<Rightarrow> unit result \<times> Adapter" where
  "PutValidatorScore rec a =
     (if sr_Address rec = [] then (Inl ''validator score requires address'', a)
      else case ValidatorScoreKey (sr_Address rec) of
        Inl e \<Rightarrow> (Inl e, a)
      | Inr key \<Rightarrow> (Inr (), a\<lparr>ad_db := SetKey key (score_json rec) (ad_db a)\<rparr>))"

definition PersistValidatorPayout :: "u64 \<Rightarrow> ValidatorPayout \<Rightarrow> Adapter \<Rightarrow> unit result \<times> Adapter" where
  "PersistValidatorPayout epoch payout a =
     (if vp_Address payout = [] then (Inl ''validator payout missing address'', a)
      else case ValidatorPayoutKey epoch (vp_Address payout) of
        Inl e \<Rightarrow> (Inl e, a)
      | Inr key \<Rightarrow> (Inr (), a\<lparr>ad_db := SetKey key (payout_json (vp_Amount payout)) (ad_db a)\<rparr>))"

definition PersistEpochSummary :: "EpochRewardSummary \<Rightarrow> Adapter \<Rightarrow> unit result \<times> Adapter" where
  "PersistEpochSummary summary a =
     (let db = SetKey (EpochSummaryKey (es_Epoch summary)) (summary_json summary) (ad_db a);
          db = (if ad_foundationAddr a \<noteq> [] then AddBalance (ad_foundationAddr a) (es_FoundationShare summary) db else db);
          db = (if ad_exchangeAddr a \<noteq> [] then AddBalance (ad_exchangeAddr a) (es_ExchangeShare summary) db else db)
      in (Inr (), a\<lparr>ad_db := db\<rparr>))"

definition SetFoundationAccount :: "string \<Rightarrow> Adapter \<Rightarrow> Adapter" where
  "SetFoundationAccount addr a = a\<lparr>ad_foundationAddr := addr\<rparr>"

definition SetExchangeAccount :: "string \<Rightarrow> Adapter \<Rightarrow> Adapter" where
  "SetExchangeAccount addr a = a\<lparr>ad_exchangeAddr := addr\<rparr>"

definition LoadValidatorScore ::
  "(bytes \<Rightarrow> 'r option) \<Rightarrow> string \<Rightarrow> Adapter \<Rightarrow> 'r option result" where
  "LoadValidatorScore unm address a =
     (case ValidatorScoreKey address of
        Inl e \<Rightarrow> Inl e
      | Inr key \<Rightarrow> (case GetKey key (ad_db a) of
          None \<Rightarrow> Inr None
        | Some blob \<Rightarrow> (case unm blob of
            None \<Rightarrow> Inl (''decode validator score '' @ address)
          | Some rec \<Rightarrow> Inr (Some rec))))"

definition RemoveValidatorScore :: "string \<Rightarrow> Adapter \<Rightarrow> unit result \<times> Adapter" where
  "RemoveValidatorScore address a =
     (case ValidatorScoreKey address of
        Inl e \<Rightarrow> (Inl e, a)
      | Inr key \<Rightarrow> (Inr (), a\<lparr>ad_db := DeleteKey key (ad_db a)\<rparr>))"

section \<open>Keys\<close>

lemma epochKey_inject [simp]: "epochKey a = epochKey b \<longleftrightarrow> a = b"
proof -
  have "unat a < 256 ^ 8" "unat b < 256 ^ 8" using unat_u64_lt by simp_all
  then show ?thesis by (simp add: epochKey_def be_bytes_inject u64_eq_iff)
qed

lemma reward_keys_not_score [simp]:
  "\<not> has_prefix (EpochSummaryKey e) (validatorScorePrefix @ ''/'')"
  "ValidatorPayoutKey e addr = Inr key \<Longrightarrow> \<not> has_prefix key (validatorScorePrefix @ ''/'')"
  by (auto simp: EpochSummaryKey_def ValidatorPayoutKey_def validatorScorePrefix_def
      validatorRewardPrefix_def split: if_splits)

lemma range_loop_update_other:
  "\<not> has_prefix k p \<Longrightarrow> range_loop p fn (AList.update k v m) st = range_loop p fn m st"
proof (induction m arbitrary: st)
  case (Cons kv m)
  then show ?case by (cases kv) (auto split: prod.splits bool.splits)
qed simp

lemma RangePrefix_frame [simp]:
  "\<not> has_prefix k p \<Longrightarrow> RangePrefix p fn (SetKey k v db) st = RangePrefix p fn db st"
  "RangePrefix p fn (AddBalance addr x db) st = RangePrefix p fn db st"
  by (simp_all add: RangePrefix_def SetKey_def range_loop_update_other AddBalance_def credit_def
      db_get_def put_account_def Let_def split: option.splits)

lemma GetKey_AddBalance [simp]: "GetKey k (AddBalance addr x db) = GetKey k db"
  by (simp add: GetKey_def AddBalance_def credit_def db_get_def put_account_def Let_def
      split: option.splits)

text \<open>
  Fact. The score store reads back what was written: after \<open>PutValidatorScore\<close> succeeds,
  loading by any spelling of the address (case, surrounding blanks) gives the record, every other
  address gives what it gave before, and payouts and summaries of any epoch change neither what is
  listed nor what is loaded.
\<close>

theorem score_store_correct:
  assumes "reads_json unm score_json" and "sr_Address rec \<noteq> []" and "addr \<noteq> []"
  shows "LoadValidatorScore unm addr (snd (PutValidatorScore rec a))
      = (if normalize addr = normalize (sr_Address rec) then Inr (Some rec) else LoadValidatorScore unm addr a)
    \<and> ListValidatorScores unm (snd (PersistValidatorPayout e p a)) = ListValidatorScores unm a
    \<and> ListValidatorScores unm (snd (PersistEpochSummary s a)) = ListValidatorScores unm a
    \<and> LoadValidatorScore unm addr (snd (PersistEpochSummary s a)) = LoadValidatorScore unm addr a"
proof (intro conjI)
  show "LoadValidatorScore unm addr (snd (PutValidatorScore rec a))
      = (if normalize addr = normalize (sr_Address rec) then Inr (Some rec) else LoadValidatorScore unm addr a)"
    using assms by (simp add: LoadValidatorScore_def PutValidatorScore_def ValidatorScoreKey_def
        reads_json_def kvs.lookup_put_same kvs.lookup_put_other)
  show "ListValidatorScores unm (snd (PersistValidatorPayout e p a)) = ListValidatorScores unm a"
    by (auto simp: ListValidatorScores_def PersistValidatorPayout_def split: sum.splits)
  show "ListValidatorScores unm (snd (PersistEpochSummary s a)) = ListValidatorScores unm a"
    by (simp add: ListValidatorScores_def PersistEpochSummary_def Let_def)
  have "validatorScorePrefix @ ''/'' @ normalize addr @ ''/score'' \<noteq> EpochSummaryKey (es_Epoch s)"
    by (simp add: EpochSummaryKey_def validatorScorePrefix_def validatorRewardPrefix_def)
  then show "LoadValidatorScore unm addr (snd (PersistEpochSummary s a)) = LoadValidatorScore unm addr a"
    using assms(3) by (simp add: LoadValidatorScore_def PersistEpochSummary_def ValidatorScoreKey_def
        kvs.lookup_put_other Let_def)
qed

definition read_score :: "bytes \<Rightarrow> ScoreRecord option" where
  "read_score b =
     (let t = map (\<lambda>x. char_of (unat x)) b; pre = ''{'' @ json_key ''Address'' @ [CHR 0x22]
      in if has_prefix t pre \<and> has_suffix t [CHR 0x22, CHR 0x7D]
         then Some \<lparr>sr_Address = unescape (trim_suffix (trim_prefix t pre) [CHR 0x22, CHR 0x7D])\<rparr>
         else None)"

lemma read_score_reads: "reads_json read_score score_json"
proof -
  have shape: "map (\<lambda>x. char_of (unat x)) (score_json r)
      = (''{'' @ json_key ''Address'' @ [CHR 0x22]) @ concat (map esc_char (sr_Address r)) @ [CHR 0x22, CHR 0x7D]" for r
    by (simp add: score_json_def json_string_def)
  have suffix: "has_suffix (p @ s @ q) q" for p s q :: string by (simp add: has_suffix_def)
  have "read_score (score_json r) = Some r" for r
    unfolding read_score_def shape Let_def trim_prefix_append trim_suffix_append
    by (simp only: has_prefix_append suffix if_True unescape_concat simp_thms) simp
  then show ?thesis by (simp add: reads_json_def)
qed

theorem score_store_correct_witness:
  "LoadValidatorScore read_score ''VAL1 ''
     (snd (PutValidatorScore \<lparr>sr_Address = ''val1''\<rparr> (NewAdapter NewDB ''f'' ''x'')))
   = Inr (Some \<lparr>sr_Address = ''val1''\<rparr>)"
proof -
  have "normalize ''VAL1 '' = normalize ''val1''" by code_simp
  with score_store_correct [OF read_score_reads, of "\<lparr>sr_Address = ''val1''\<rparr>" "''VAL1 ''"]
  show ?thesis by simp
qed

end
