(* ===== verification/Light.thy ===== *)
theory Light
  imports Cbor
begin

text \<open>
  \<open>internal/app/header_builder.go\<close> and \<open>internal/light/verify.go\<close>: assembling and signing
  Eternity headers, and the light client's consistency check. Ed25519 signing is a parameter
  \<open>sign\<close>; the check itself verifies no signature. \<open>now\<close> is the clock reading, and a zero
  \<open>time.Time\<close> is \<open>None\<close>.
\<close>

section \<open>header\_builder.go\<close>

record BuildHeaderParams =
  bp_ChainID :: string
  bp_Height :: u64
  bp_Round :: u32
  bp_TimeUTC :: "i64 option"
  bp_PrevHash :: bytes
  bp_StateRoot :: bytes
  bp_TxRoot :: bytes
  bp_ReceiptsRoot :: bytes
  bp_CommitBundle :: "CommitBundle option"
  bp_ProposerPubKey :: bytes
  bp_EmissionEpoch :: u64
  bp_ConsensusParamsHash :: bytes
  bp_FeeRoot :: bytes
  bp_ExtraData :: bytes

definition BuildEternityHeader ::
  "(bytes \<Rightarrow> bytes) \<Rightarrow> cbor \<Rightarrow> i64 \<Rightarrow> BuildHeaderParams \<Rightarrow> EternityHeader result" where
  "BuildEternityHeader b3 cbor now p =
     (let t = (case bp_TimeUTC p of None \<Rightarrow> now | Some t \<Rightarrow> t)
      in case (case bp_CommitBundle p of None \<Rightarrow> Inr zero32 | Some c \<Rightarrow> cb_Hash b3 cbor c) of
           Inl e \<Rightarrow> Inl e
         | Inr commitRoot \<Rightarrow>
             let h = \<lparr>eh_Version = EternityHeaderVersionV1, eh_ChainID = bp_ChainID p,
               eh_Height = bp_Height p, eh_Round = bp_Round p, eh_TimeUTCUnix = t,
               eh_PrevHash = bp_PrevHash p, eh_StateRoot = bp_StateRoot p, eh_TxRoot = bp_TxRoot p,
               eh_ReceiptsRoot = bp_ReceiptsRoot p, eh_CommitRoot = commitRoot,
               eh_ProposerPubKey = bp_ProposerPubKey p, eh_EmissionEpoch = bp_EmissionEpoch p,
               eh_ConsensusParamsHash = bp_ConsensusParamsHash p, eh_FeeRoot = bp_FeeRoot p,
               eh_ExtraData = bp_ExtraData p\<rparr>
             in case eh_Validate h of Inl e \<Rightarrow> Inl e | Inr _ \<Rightarrow> Inr h)"

definition BuildSignedEternityHeader ::
  "(bytes \<Rightarrow> bytes) \<Rightarrow> cbor \<Rightarrow> (bytes \<Rightarrow> bytes \<Rightarrow> bytes) \<Rightarrow> i64 \<Rightarrow> BuildHeaderParams \<Rightarrow> bytes \<Rightarrow>
   (EternityHeader \<times> SignedHeader) result" where
  "BuildSignedEternityHeader b3 cbor sign now p priv =
     (if length priv \<noteq> 64 then Inl ''invalid_ed25519_private_key''
      else case BuildEternityHeader b3 cbor now p of
        Inl e \<Rightarrow> Inl e
      | Inr h \<Rightarrow> (case eh_SignBytes cbor h of
          Inl e \<Rightarrow> Inl e
        | Inr signBytes \<Rightarrow> (case eh_CanonicalCBOR cbor h of
            Inl e \<Rightarrow> Inl e
          | Inr cborBytes \<Rightarrow> (case eh_Hash b3 cbor h of
              Inl e \<Rightarrow> Inl e
            | Inr hash \<Rightarrow> Inr (h, \<lparr>sh_HeaderCBOR = cborBytes, sh_HeaderHash = hash,
                sh_ProposerPubKey = bp_ProposerPubKey p, sh_Signature = sign priv signBytes,
                sh_CommitBundle = bp_CommitBundle p\<rparr>)))))"

definition Bytes32IsZero :: "bytes \<Rightarrow> bool" where
  "Bytes32IsZero b \<longleftrightarrow> list_all (\<lambda>v. v = 0) b"

definition DeriveStateRootFallback :: "(bytes \<Rightarrow> bytes) \<Rightarrow> bytes \<Rightarrow> bytes \<Rightarrow> bytes" where
  "DeriveStateRootFallback b3 validatorsRoot stateRoot =
     (if \<not> Bytes32IsZero stateRoot then stateRoot else b3 (bytes_of ''state|v1|'' @ validatorsRoot))"

section \<open>light/verify.go\<close>

datatype light_error =
  ErrNilHeader | ErrNilCommitBundle | ErrCommitRootMismatch | ErrValidatorRootMismatch
  | ErrCommitMetadataMismatch

record Proof =
  pf_Header :: "EternityHeader option"
  pf_CommitBundle :: "CommitBundle option"
  pf_ValidatorsRoot :: bytes

definition Verify :: "(bytes \<Rightarrow> bytes) \<Rightarrow> cbor \<Rightarrow> Proof \<Rightarrow> light_error + unit" where
  "Verify b3 cbor p =
     (case pf_Header p of
        None \<Rightarrow> Inl ErrNilHeader
      | Some h \<Rightarrow> (case pf_CommitBundle p of
          None \<Rightarrow> Inl ErrNilCommitBundle
        | Some c \<Rightarrow>
            if eh_Round h \<noteq> cb_Round c then Inl ErrCommitMetadataMismatch
            else if cb_QuorumHash c \<noteq> zero32 \<and> cb_QuorumHash c \<noteq> pf_ValidatorsRoot p
            then Inl ErrCommitMetadataMismatch
            else case cb_Hash b3 cbor c of
              Inl _ \<Rightarrow> Inl ErrCommitRootMismatch
            | Inr cbHash \<Rightarrow>
                if cbHash \<noteq> eh_CommitRoot h then Inl ErrCommitRootMismatch
                else if eh_StateRoot h \<noteq> pf_ValidatorsRoot p then Inl ErrValidatorRootMismatch
                else Inr ()))"

section \<open>Properties\<close>

lemma Verify_ok_iff:
  "Verify b3 cbor p = Inr () \<longleftrightarrow>
   (\<exists>h c. pf_Header p = Some h \<and> pf_CommitBundle p = Some c \<and> eh_Round h = cb_Round c
     \<and> cb_QuorumHash c \<in> {zero32, pf_ValidatorsRoot p} \<and> cb_Hash b3 cbor c = Inr (eh_CommitRoot h)
     \<and> eh_StateRoot h = pf_ValidatorsRoot p)"
  by (auto simp: Verify_def split: option.splits sum.splits if_splits)

lemma BuildEternityHeader_Inr:
  assumes "BuildEternityHeader b3 cbor now p = Inr h"
  shows "eh_Version h = EternityHeaderVersionV1 \<and> eh_Round h = bp_Round p \<and> eh_StateRoot h = bp_StateRoot p
    \<and> eh_Height h = bp_Height p \<and> eh_PrevHash h = bp_PrevHash p
    \<and> length (eh_ExtraData h) \<le> maxExtraDataLen
    \<and> (case bp_CommitBundle p of None \<Rightarrow> eh_CommitRoot h = zero32
       | Some c \<Rightarrow> cb_Hash b3 cbor c = Inr (eh_CommitRoot h))"
  using assms
  by (auto simp: BuildEternityHeader_def eh_Validate_def Let_def split: option.splits sum.splits if_splits)

text \<open>
  Fact. Building and checking agree: a header assembled by \<open>BuildEternityHeader\<close> from a
  commit bundle passes the light client's check with that bundle exactly when the rounds agree,
  the bundle's quorum hash is zero or the validators root, and the header's state root is the
  validators root.
\<close>

theorem Verify_built_header:
  assumes "BuildEternityHeader b3 cbor now p = Inr h" and "bp_CommitBundle p = Some c"
  shows "Verify b3 cbor \<lparr>pf_Header = Some h, pf_CommitBundle = Some c, pf_ValidatorsRoot = vroot\<rparr> = Inr ()
    \<longleftrightarrow> bp_Round p = cb_Round c \<and> cb_QuorumHash c \<in> {zero32, vroot} \<and> bp_StateRoot p = vroot"
  using BuildEternityHeader_Inr [OF assms(1)] assms(2) by (auto simp: Verify_ok_iff)

definition demo_bundle :: CommitBundle where
  "demo_bundle = \<lparr>cb_Round = 4, cb_QuorumHash = zero32, cb_Bitmap = [1], cb_Step = 3, cb_AggregateSig = []\<rparr>"

definition demo_params :: BuildHeaderParams where
  "demo_params = \<lparr>bp_ChainID = ''thomas-dev-1'', bp_Height = 9, bp_Round = 4, bp_TimeUTC = None,
     bp_PrevHash = zero32, bp_StateRoot = replicate 32 7, bp_TxRoot = zero32, bp_ReceiptsRoot = zero32,
     bp_CommitBundle = Some demo_bundle, bp_ProposerPubKey = zero32, bp_EmissionEpoch = 0,
     bp_ConsensusParamsHash = zero32, bp_FeeRoot = zero32, bp_ExtraData = []\<rparr>"

lemma demo_build: "\<exists>h. BuildEternityHeader toy_hash rfc8949 5 demo_params = Inr h"
  by (simp add: BuildEternityHeader_def demo_params_def cb_Hash_eq rfc8949_def eh_Validate_def
      maxExtraDataLen_def Let_def)

theorem Verify_built_header_witness:
  "\<exists>h. BuildEternityHeader toy_hash rfc8949 5 demo_params = Inr h
     \<and> Verify toy_hash rfc8949 \<lparr>pf_Header = Some h, pf_CommitBundle = Some demo_bundle,
         pf_ValidatorsRoot = replicate 32 7\<rparr> = Inr ()"
proof -
  obtain h where h: "BuildEternityHeader toy_hash rfc8949 5 demo_params = Inr h"
    using demo_build by blast
  from Verify_built_header [OF h, of demo_bundle "replicate 32 7"] h show ?thesis
    by (auto simp: demo_params_def demo_bundle_def)
qed

text \<open>The values encoded when commit bundles with a 32-byte quorum hash are hashed.\<close>

definition bundle_ok :: "CommitBundle \<Rightarrow> bool" where
  "bundle_ok c \<longleftrightarrow> length (cb_QuorumHash c) = 32 \<and> length (cb_Bitmap c) < 2 ^ 64
     \<and> length (cb_AggregateSig c) < 2 ^ 64"

definition bundle_values :: "goval set" where
  "bundle_values = cb_canonicalFields ` {c. bundle_ok c}"

lemma rfc8949_bundle_values: "cbor_faithful rfc8949 bundle_values"
  by (rule rfc8949_faithful) (auto simp: bundle_values_def cb_canonicalFields_def bundle_ok_def)

text \<open>
  Fact. A header binds its commit bundle: if the light client accepts the same header
  with two bundles, the bundles are equal, provided CBOR is faithful on bundles and the hash does
  not collide on the two encodings.
\<close>

theorem Verify_binds_bundle:
  assumes "Verify b3 cbor \<lparr>pf_Header = Some h, pf_CommitBundle = Some c, pf_ValidatorsRoot = v\<rparr> = Inr ()"
    and "Verify b3 cbor \<lparr>pf_Header = Some h, pf_CommitBundle = Some d, pf_ValidatorsRoot = w\<rparr> = Inr ()"
    and "cbor_faithful cbor bundle_values" and "bundle_ok c" "bundle_ok d"
    and "inj_on b3 {cbor_bytes cbor (cb_canonicalFields c), cbor_bytes cbor (cb_canonicalFields d)}"
  shows "c = d \<and> v = w"
proof -
  have in_values: "cb_canonicalFields c \<in> bundle_values" "cb_canonicalFields d \<in> bundle_values"
    using assms(4,5) by (auto simp: bundle_values_def)
  have "cb_Hash b3 cbor c = cb_Hash b3 cbor d" and vw: "v = w"
    using assms(1,2) by (auto simp: Verify_ok_iff)
  then have "b3 (cbor_bytes cbor (cb_canonicalFields c)) = b3 (cbor_bytes cbor (cb_canonicalFields d))"
    using in_values assms(3)
    by (auto simp: cb_Hash_eq cbor_bytes_def cbor_faithful_def split: sum.splits dest!: bspec)
  then have "cbor_bytes cbor (cb_canonicalFields c) = cbor_bytes cbor (cb_canonicalFields d)"
    by (rule inj_onD [OF assms(6)]) simp_all
  from cbor_bytes_inject [OF assms(3) in_values this] vw show ?thesis
    by (simp add: cb_canonicalFields_inject)
qed

theorem Verify_binds_bundle_witness:
  "\<exists>h. Verify toy_hash rfc8949 \<lparr>pf_Header = Some h, pf_CommitBundle = Some demo_bundle,
         pf_ValidatorsRoot = eh_StateRoot h\<rparr> = Inr ()
     \<and> demo_bundle = demo_bundle\<lparr>cb_Step := 1 + 2\<rparr>"
proof -
  obtain h where h: "BuildEternityHeader toy_hash rfc8949 5 demo_params = Inr h"
    using demo_build by blast
  from BuildEternityHeader_Inr [OF h]
  have ok: "Verify toy_hash rfc8949 \<lparr>pf_Header = Some h, pf_CommitBundle = Some demo_bundle,
      pf_ValidatorsRoot = eh_StateRoot h\<rparr> = Inr ()"
    by (simp add: Verify_ok_iff demo_params_def demo_bundle_def)
  have same: "demo_bundle\<lparr>cb_Step := 1 + 2\<rparr> = demo_bundle" by (simp add: demo_bundle_def)
  show ?thesis
    using Verify_binds_bundle [OF ok, of "demo_bundle\<lparr>cb_Step := 1 + 2\<rparr>" "eh_StateRoot h"]
      ok rfc8949_bundle_values
    by (auto simp: same bundle_ok_def demo_bundle_def)
qed

text \<open>
  Fact. A signed header is what it says: its hash is the hash of its CBOR bytes, these are
  the canonical encoding of the header, the signature verifies under the signer's public key on the
  domain-tagged bytes, and the attached bundle's hash is the header's commit root. Of the
  signature scheme only correctness is used.
\<close>

theorem BuildSigned_correct:
  assumes "\<forall>sk m. verify (public sk) m (sign sk m)"
    and "BuildSignedEternityHeader b3 cbor sign now p priv = Inr (h, sh)"
  shows "cbor (eh_canonicalFields h) = Inr (sh_HeaderCBOR sh) \<and> sh_HeaderHash sh = b3 (sh_HeaderCBOR sh)
    \<and> verify (public priv) (EternityHeaderSignDomain @ sh_HeaderCBOR sh) (sh_Signature sh)
    \<and> (\<forall>c. sh_CommitBundle sh = Some c \<longrightarrow> cb_Hash b3 cbor c = Inr (eh_CommitRoot h))"
proof -
  have built: "BuildEternityHeader b3 cbor now p = Inr h" and "sh_CommitBundle sh = bp_CommitBundle p"
    using assms(2) by (auto simp: BuildSignedEternityHeader_def split: sum.splits if_splits)
  with BuildEternityHeader_Inr [OF built]
  have "\<forall>c. sh_CommitBundle sh = Some c \<longrightarrow> cb_Hash b3 cbor c = Inr (eh_CommitRoot h)" by auto
  with assms show ?thesis
    by (auto simp: BuildSignedEternityHeader_def eh_SignBytes_def eh_Hash_def eh_CanonicalCBOR_def
        EncodeCBORCanonical_def split: sum.splits if_splits)
qed

theorem BuildSigned_correct_witness:
  "\<exists>h sh. BuildSignedEternityHeader toy_hash rfc8949 (@) 5 demo_params (replicate 64 1) = Inr (h, sh)
     \<and> sh_HeaderHash sh = toy_hash (sh_HeaderCBOR sh)"
proof -
  obtain h where h: "BuildEternityHeader toy_hash rfc8949 5 demo_params = Inr h"
    using demo_build by blast
  then obtain sh where sh: "BuildSignedEternityHeader toy_hash rfc8949 (@) 5 demo_params (replicate 64 1) = Inr (h, sh)"
    by (simp add: BuildSignedEternityHeader_def eh_SignBytes_def eh_Hash_def eh_CanonicalCBOR_def
        EncodeCBORCanonical_def rfc8949_def)
  from BuildSigned_correct [of "\<lambda>pk m s. s = pk @ m" "\<lambda>sk. sk", OF _ sh] sh show ?thesis by auto
qed

end
