(* ===== verification/Sse.thy ===== *)
theory Sse
  imports Prelude
begin

text \<open>
  The event hub of \<open>internal/app/engine.go\<close>: subscription, unsubscription, and the goroutines
  that \<open>broadcastAsync\<close> starts. A goroutine takes a snapshot of the subscribers under the lock
  and sends afterwards without it, so its sends interleave with everything else; each send is a
  step of its own. Channels are numbered in order of creation and hold up to 32 messages. A send on
  a closed channel panics in the goroutine, which ends the process.
\<close>

type_synonym chan = nat

datatype job = Spawned bytes | Sending bytes "chan list"

record Hub =
  hub_subs :: "chan list"
  hub_bufs :: "(chan, bytes list) gomap"
  hub_closed :: "chan list"
  hub_next :: chan
  hub_jobs :: "job list"
  hub_crashed :: bool

definition emptyHub :: Hub where
  "emptyHub = \<lparr>hub_subs = [], hub_bufs = [], hub_closed = [], hub_next = 0, hub_jobs = [],
     hub_crashed = False\<rparr>"

definition chan_cap :: nat where "chan_cap = 32"

definition SubscribeForSSE :: "Hub \<Rightarrow> chan \<times> Hub" where
  "SubscribeForSSE h =
     (let ch = hub_next h
      in (ch, h\<lparr>hub_subs := hub_subs h @ [ch], hub_bufs := AList.update ch [] (hub_bufs h),
                hub_next := ch + 1\<rparr>))"

definition UnsubscribeForSSE :: "chan \<Rightarrow> Hub \<Rightarrow> Hub" where
  "UnsubscribeForSSE ch h =
     (if ch \<in> set (hub_subs h)
      then h\<lparr>hub_subs := removeAll ch (hub_subs h), hub_closed := ch # hub_closed h\<rparr>
      else h)"

definition broadcastAsync :: "bytes \<Rightarrow> Hub \<Rightarrow> Hub" where
  "broadcastAsync b h = h\<lparr>hub_jobs := hub_jobs h @ [Spawned b]\<rparr>"

definition buf :: "Hub \<Rightarrow> chan \<Rightarrow> bytes list" where
  "buf h ch = (case map_of (hub_bufs h) ch of None \<Rightarrow> [] | Some q \<Rightarrow> q)"

text \<open>\<open>select { case ch <- b: default: }\<close>\<close>

definition try_send :: "chan \<Rightarrow> bytes \<Rightarrow> Hub \<Rightarrow> Hub" where
  "try_send ch b h =
     (if ch \<in> set (hub_closed h) then h\<lparr>hub_crashed := True\<rparr>
      else if length (buf h ch) < chan_cap
      then h\<lparr>hub_bufs := AList.update ch (buf h ch @ [b]) (hub_bufs h)\<rparr>
      else h)"

text \<open>One step of the job at position \<open>i\<close>; a job with nothing left to send disappears.\<close>

definition run_job :: "nat \<Rightarrow> Hub \<Rightarrow> Hub" where
  "run_job i h =
     (if i < length (hub_jobs h) then
        case hub_jobs h ! i of
          Spawned b \<Rightarrow> h\<lparr>hub_jobs := (hub_jobs h)[i := Sending b (hub_subs h)]\<rparr>
        | Sending b [] \<Rightarrow> h\<lparr>hub_jobs := take i (hub_jobs h) @ drop (Suc i) (hub_jobs h)\<rparr>
        | Sending b (ch # chs) \<Rightarrow>
            (try_send ch b h)\<lparr>hub_jobs := (hub_jobs h)[i := Sending b chs]\<rparr>
      else h)"

text \<open>A subscriber takes the oldest message.\<close>

definition receive :: "chan \<Rightarrow> Hub \<Rightarrow> bytes option \<times> Hub" where
  "receive ch h = (case buf h ch of
     [] \<Rightarrow> (None, h)
   | b # q \<Rightarrow> (Some b, h\<lparr>hub_bufs := AList.update ch q (hub_bufs h)\<rparr>))"

inductive hub_step :: "Hub \<Rightarrow> Hub \<Rightarrow> bool" where
  subscribe: "hub_step h (snd (SubscribeForSSE h))"
| unsubscribe: "hub_step h (UnsubscribeForSSE ch h)"
| broadcast: "hub_step h (broadcastAsync b h)"
| job: "\<not> hub_crashed h \<Longrightarrow> hub_step h (run_job i h)"
| receive: "hub_step h (snd (receive ch h))"

inductive_cases hub_stepE: "hub_step h h'"

interpretation hub_sys: transition_system "(=) emptyHub" hub_step "\<lambda>h. True"
  by unfold_locales simp

abbreviation hub_reachable :: "Hub \<Rightarrow> bool" where
  "hub_reachable \<equiv> hub_sys.reachable"

section \<open>Invariant\<close>

fun job_chans :: "job \<Rightarrow> chan list" where
  "job_chans (Spawned b) = []"
| "job_chans (Sending b chs) = chs"

definition hub_ok :: "Hub \<Rightarrow> bool" where
  "hub_ok h \<longleftrightarrow> distinct (hub_subs h) \<and> set (hub_subs h) \<inter> set (hub_closed h) = {}
     \<and> (\<forall>ch \<in> set (hub_subs h) \<union> set (hub_closed h). ch < hub_next h)
     \<and> (\<forall>j \<in> set (hub_jobs h). set (job_chans j) \<subseteq> set (hub_subs h) \<union> set (hub_closed h))
     \<and> (\<forall>ch. length (buf h ch) \<le> chan_cap)"

lemma hub_ok_empty: "hub_ok emptyHub"
  by (simp add: hub_ok_def emptyHub_def buf_def)

lemma buf_update [simp]:
  "buf (h\<lparr>hub_bufs := AList.update ch q (hub_bufs h)\<rparr>) c = (if c = ch then q else buf h c)"
  by (simp add: buf_def update_conv')

lemma buf_other [simp]:
  "buf (h\<lparr>hub_subs := x\<rparr>) = buf h" "buf (h\<lparr>hub_closed := y\<rparr>) = buf h"
  "buf (h\<lparr>hub_jobs := z\<rparr>) = buf h" "buf (h\<lparr>hub_crashed := w\<rparr>) = buf h" "buf (h\<lparr>hub_next := n\<rparr>) = buf h"
  by (simp_all add: fun_eq_iff buf_def)

lemma try_send_frame [simp]:
  "hub_subs (try_send ch b h) = hub_subs h" "hub_closed (try_send ch b h) = hub_closed h"
  "hub_next (try_send ch b h) = hub_next h" "hub_jobs (try_send ch b h) = hub_jobs h"
  by (simp_all add: try_send_def)

lemma try_send_cap: "\<forall>c. length (buf h c) \<le> chan_cap \<Longrightarrow> length (buf (try_send ch b h) c) \<le> chan_cap"
  by (simp add: try_send_def)

lemma hub_ok_run_job:
  assumes "hub_ok h"
  shows "hub_ok (run_job i h)"
proof (cases "i < length (hub_jobs h)")
  case True
  then have mem: "hub_jobs h ! i \<in> set (hub_jobs h)" by simp
  have upd: "\<forall>j \<in> set ((hub_jobs h)[i := j']). P j"
    if "\<forall>j \<in> set (hub_jobs h). P j" "P j'" for P j'
    using that set_update_subset_insert [of "hub_jobs h" i j'] by blast
  show ?thesis
  proof (cases "hub_jobs h ! i")
    case (Spawned b)
    with True assms show ?thesis
      unfolding hub_ok_def run_job_def by (simp, intro upd) auto
  next
    case (Sending b chs)
    have "set (job_chans (hub_jobs h ! i)) \<subseteq> set (hub_subs h) \<union> set (hub_closed h)"
      using mem assms by (simp add: hub_ok_def)
    with Sending have sub: "set chs \<subseteq> set (hub_subs h) \<union> set (hub_closed h)" by simp
    show ?thesis
    proof (cases chs)
      case Nil
      with Sending True assms show ?thesis
        by (auto simp: hub_ok_def run_job_def dest!: in_set_takeD in_set_dropD)
    next
      case (Cons ch cs)
      with Sending True assms sub show ?thesis
        unfolding hub_ok_def run_job_def by (simp add: try_send_cap, intro upd) auto
    qed
  qed
qed (use assms in \<open>simp add: run_job_def\<close>)

lemma hub_ok_step: "hub_step h h' \<Longrightarrow> hub_ok h \<Longrightarrow> hub_ok h'"
proof (induction rule: hub_step.induct)
  case (subscribe h)
  have "buf (snd (SubscribeForSSE h)) c = (if c = hub_next h then [] else buf h c)" for c
    by (simp add: SubscribeForSSE_def buf_def update_conv' Let_def)
  moreover have "hub_subs (snd (SubscribeForSSE h)) = hub_subs h @ [hub_next h]"
    "hub_closed (snd (SubscribeForSSE h)) = hub_closed h" "hub_next (snd (SubscribeForSSE h)) = hub_next h + 1"
    "hub_jobs (snd (SubscribeForSSE h)) = hub_jobs h"
    by (simp_all add: SubscribeForSSE_def Let_def)
  moreover have "hub_next h \<notin> set (hub_subs h) \<union> set (hub_closed h)"
    using subscribe by (auto simp: hub_ok_def)
  moreover have "\<forall>j \<in> set (hub_jobs h). set (job_chans j) \<subseteq> set (hub_subs h) \<union> set (hub_closed h)"
    using subscribe by (simp add: hub_ok_def)
  then have "\<forall>j \<in> set (hub_jobs h). set (job_chans j) \<subseteq> insert (hub_next h) (set (hub_subs h) \<union> set (hub_closed h))"
    by blast
  ultimately show ?case using subscribe by (simp add: hub_ok_def less_Suc_eq)
next
  case (unsubscribe h ch)
  then show ?case by (auto simp: hub_ok_def UnsubscribeForSSE_def distinct_removeAll)
next
  case (broadcast h b)
  then show ?case by (auto simp: hub_ok_def broadcastAsync_def)
next
  case (job h i)
  then show ?case by (simp add: hub_ok_run_job)
next
  case (receive h ch)
  then have cap: "length (buf h ch) \<le> chan_cap" by (simp add: hub_ok_def)
  show ?case
  proof (cases "buf h ch")
    case (Cons b q)
    with cap have "length q \<le> chan_cap" by simp
    with Cons receive show ?thesis by (auto simp: hub_ok_def receive_def)
  qed (use receive in \<open>simp add: receive_def\<close>)
qed

interpretation hub_sys: invariant_system "(=) emptyHub" hub_step "\<lambda>h. True" hub_ok
  by unfold_locales (auto simp: hub_ok_empty hub_ok_step)

text \<open>
  Property C39. In every interleaving of subscriptions, unsubscriptions, broadcasts and the sends
  of their goroutines, no subscriber ever has more than 32 undelivered messages, subscribed and
  closed channels are disjoint, and a running goroutine only sends to channels that are or were
  subscribed.
\<close>

theorem hub_invariant:
  assumes "hub_reachable h"
  shows "(\<forall>ch. length (buf h ch) \<le> chan_cap) \<and> set (hub_subs h) \<inter> set (hub_closed h) = {}
    \<and> (\<forall>j \<in> set (hub_jobs h). set (job_chans j) \<subseteq> set (hub_subs h) \<union> set (hub_closed h))"
  using hub_sys.reachable_inv [OF assms] by (simp add: hub_ok_def)

lemma reachable_subscribed: "hub_reachable (snd (SubscribeForSSE emptyHub))"
  by (blast intro: hub_sys.reachable_init hub_sys.reachable_step hub_step.subscribe)

theorem hub_invariant_witness:
  "hub_reachable (snd (SubscribeForSSE emptyHub))
   \<and> length (buf (snd (SubscribeForSSE emptyHub)) 0) \<le> chan_cap"
  using hub_invariant [OF reachable_subscribed] reachable_subscribed by blast

text \<open>
  Fact. The process can crash: a subscriber that leaves between a broadcast's snapshot
  and its send has its channel closed, and the send panics. The reachable state after subscribing,
  broadcasting, taking the snapshot, unsubscribing and sending is a crash.
\<close>

theorem hub_crash_reachable: "\<exists>h. hub_reachable h \<and> hub_crashed h"
proof -
  let ?h1 = "snd (SubscribeForSSE emptyHub)"
  let ?h2 = "broadcastAsync [1] ?h1"
  let ?h3 = "run_job 0 ?h2"
  let ?h4 = "UnsubscribeForSSE 0 ?h3"
  have "\<not> hub_crashed ?h2" "\<not> hub_crashed ?h4" "hub_crashed (run_job 0 ?h4)" by code_simp+
  then have "hub_step ?h2 ?h3" "hub_step ?h4 (run_job 0 ?h4)" by (blast intro: hub_step.job)+
  moreover have "hub_step ?h1 ?h2" "hub_step ?h3 ?h4" by (rule hub_step.intros)+
  ultimately have "hub_reachable (run_job 0 ?h4)"
    using reachable_subscribed by (meson hub_sys.reachable_step)
  with \<open>hub_crashed (run_job 0 ?h4)\<close> show ?thesis by blast
qed

end
