(* ===== verification/Engine.thy ===== *)
theory Engine
  imports Reward_Store Light Sse
begin

text \<open>
  \<open>internal/app/engine.go\<close> with \<open>engine_alias_stub.go\<close> and \<open>engine_alias_file.go\<close>: the
  node's engine. It owns the account database, the receipts and their Merkle leaves, the committed
  rounds and Eternity headers, the commit feed and the supply counters. The
  exported methods hold the engine's mutex throughout, so each is one function on the record
  \<open>Engine\<close>; \<open>GetAccount\<close> and \<open>ApplyTransfer\<close> only take the database's own lock, and are
  modelled as one function each on the runs in which they are not overtaken by another method.

  External code is gathered in the record \<open>Env\<close>: the hash functions, CBOR, Ed25519 signing, and
  the JSON codecs of the persisted files. The file system is a map from paths to contents; which
  paths can be written, and the clock, are arguments of the operations that use them.
\<close>

section \<open>Environment and state\<close>

record ledgerV1 =
  lg_Version :: nat
  lg_Height :: u64
  lg_LastCommittedHeight :: u64
  lg_Receipts :: "TxReceipt list"
  lg_Rounds :: "RoundHeader list"

record Env =
  env_sha :: "bytes \<Rightarrow> bytes"
  env_b3 :: "bytes \<Rightarrow> bytes"
  env_cbor :: cbor
  env_sign :: "bytes \<Rightarrow> bytes \<Rightarrow> bytes"
  env_unmScore :: "bytes \<Rightarrow> ScoreRecord option"
  env_unmSupply :: "bytes \<Rightarrow> SupplyState option"
  env_encState :: "(string, Account) gomap \<Rightarrow> bytes"
  env_decState :: "bytes \<Rightarrow> (string, Account) gomap option"
  env_encLedger :: "ledgerV1 \<Rightarrow> bytes"
  env_decLedger :: "bytes \<Rightarrow> ledgerV1 option"
  env_decStrings :: "bytes \<Rightarrow> (string, string) gomap option"

record commitRecord =
  cr_Height :: u64
  cr_Root :: bytes
  cr_Bundle :: CommitBundle

record Engine =
  e_txq :: "bytes list"
  e_db :: DB
  e_receipts :: "(string, TxReceipt) gomap"
  e_leaves :: "bytes list"
  e_height :: u64
  e_rounds :: "RoundHeader list"
  e_lastCommittedHeight :: u64
  e_eternityHeaders :: "EternityHeader list"
  e_lastBlockID :: bytes
  e_lastCommitRoot :: bytes
  e_lastCommitHeight :: u64
  e_commitRootReady :: bool
  e_supply :: SupplyState
  e_lastMintedMas :: u64
  e_lastEmissionEpoch :: u64
  e_priv :: bytes
  e_pub :: bytes
  e_hub :: Hub
  e_commitFeed :: "commitRecord list"
  e_disk :: "(string, bytes) gomap"

definition DefaultChainID :: string where "DefaultChainID = ''thomas-dev-1''"
definition statePathV1 :: string where "statePathV1 = ''data/state.json''"
definition statePathV2 :: string where "statePathV2 = ''data/state_v2.json''"
definition ledgerPath :: string where "ledgerPath = ''data/ledger_v1.json''"
definition aliasSys :: string where "aliasSys = ''alias:sys''"

section \<open>JSON texts that are hashed, signed or stored as leaves\<close>

definition dec_i64 :: "i64 \<Rightarrow> string" where
  "dec_i64 i = (if sint i < 0 then ''-'' @ dec_nat (nat (- sint i)) else dec_nat (nat (sint i)))"

definition receipt_json :: "TxReceipt \<Rightarrow> bytes" where
  "receipt_json r = bytes_of
     (''{'' @ json_key ''tx_hash'' @ json_string (rc_TxHash r) @ '','' @ json_key ''from''
      @ json_string (rc_From r) @ '','' @ json_key ''to'' @ json_string (rc_To r)
      @ '','' @ json_key ''amount'' @ dec_nat (unat (rc_Amount r))
      @ '','' @ json_key ''fee'' @ dec_nat (unat (rc_Fee r))
      @ '','' @ json_key ''nonce'' @ dec_nat (unat (rc_Nonce r))
      @ '','' @ json_key ''status'' @ json_string (rc_Status r)
      @ '','' @ json_key ''height'' @ dec_nat (unat (rc_Height r))
      @ '','' @ json_key ''time_utc'' @ dec_i64 (rc_TimeUTC r) @ ''}'')"

definition CanonicalRoundHeaderBytes :: "RoundHeader \<Rightarrow> bytes" where
  "CanonicalRoundHeaderBytes h = bytes_of
     (''{'' @ json_key ''round'' @ dec_nat (unat (rh_Round h))
      @ '','' @ json_key ''from_height'' @ dec_nat (unat (rh_FromHeight h))
      @ '','' @ json_key ''to_height'' @ dec_nat (unat (rh_ToHeight h))
      @ '','' @ json_key ''tx_count'' @ dec_nat (unat (rh_TxCount h))
      @ '','' @ json_key ''root'' @ json_string (rh_Root h)
      @ '','' @ json_key ''time_utc'' @ dec_i64 (rh_TimeUTC h) @ ''}'')"

definition round_json :: "RoundHeader \<Rightarrow> bytes" where
  "round_json h = bytes_of
     (''{'' @ json_key ''round'' @ dec_nat (unat (rh_Round h))
      @ '','' @ json_key ''from_height'' @ dec_nat (unat (rh_FromHeight h))
      @ '','' @ json_key ''to_height'' @ dec_nat (unat (rh_ToHeight h))
      @ '','' @ json_key ''tx_count'' @ dec_nat (unat (rh_TxCount h))
      @ '','' @ json_key ''root'' @ json_string (rh_Root h)
      @ '','' @ json_key ''time_utc'' @ dec_i64 (rh_TimeUTC h)
      @ (if rh_SignatureHex h = [] then [] else '','' @ json_key ''signature_hex'' @ json_string (rh_SignatureHex h))
      @ ''}'')"

section \<open>Files\<close>

definition ReadFile :: "string \<Rightarrow> Engine \<Rightarrow> bytes option" where
  "ReadFile path e = map_of (e_disk e) path"

definition WriteFile :: "(string \<Rightarrow> bool) \<Rightarrow> string \<Rightarrow> bytes \<Rightarrow> Engine \<Rightarrow> unit result \<times> Engine" where
  "WriteFile wr path b e =
     (if wr path then (Inr (), e\<lparr>e_disk := AList.update path b (e_disk e)\<rparr>)
      else (Inl ''write error'', e))"

definition saveStateMas :: "Env \<Rightarrow> (string \<Rightarrow> bool) \<Rightarrow> string \<Rightarrow> Engine \<Rightarrow> unit result \<times> Engine" where
  "saveStateMas env wr path e = WriteFile wr path (env_encState env (Snapshot (e_db e))) e"

definition loadStateMas :: "Env \<Rightarrow> string \<Rightarrow> Engine \<Rightarrow> bool \<times> Engine" where
  "loadStateMas env path e =
     (case ReadFile path e of
        None \<Rightarrow> (False, e)
      | Some b \<Rightarrow> (case env_decState env b of
          None \<Rightarrow> (False, e)
        | Some m \<Rightarrow> (True, e\<lparr>e_db := Restore m (e_db e)\<rparr>)))"

definition loadStateMicro :: "Env \<Rightarrow> string \<Rightarrow> Engine \<Rightarrow> (string, Account) gomap option" where
  "loadStateMicro env path e =
     (case ReadFile path e of None \<Rightarrow> None | Some b \<Rightarrow> env_decState env b)"

definition ledger_of :: "Engine \<Rightarrow> ledgerV1" where
  "ledger_of e =
     \<lparr>lg_Version = 1, lg_Height = of_nat (length (e_leaves e)),
      lg_LastCommittedHeight = e_lastCommittedHeight e,
      lg_Receipts = sort_key rc_Height (map snd (e_receipts e)), lg_Rounds = e_rounds e\<rparr>"

definition saveLedger :: "Env \<Rightarrow> (string \<Rightarrow> bool) \<Rightarrow> string \<Rightarrow> Engine \<Rightarrow> unit result \<times> Engine" where
  "saveLedger env wr path e = WriteFile wr path (env_encLedger env (ledger_of e)) e"

definition loadLedger :: "Env \<Rightarrow> string \<Rightarrow> Engine \<Rightarrow> unit result \<times> Engine" where
  "loadLedger env path e =
     (case ReadFile path e of
        None \<Rightarrow> (Inr (), e)
      | Some b \<Rightarrow> (case env_decLedger env b of
          None \<Rightarrow> (Inl ''json'', e)
        | Some led \<Rightarrow>
            let rs = sort_key rc_Height (lg_Receipts led)
            in (Inr (), e\<lparr>e_height := of_nat (length (lg_Receipts led)),
                  e_lastCommittedHeight := lg_LastCommittedHeight led,
                  e_rounds := lg_Rounds led,
                  e_receipts := fold (\<lambda>r. AList.update (rc_TxHash r) r) rs [],
                  e_leaves := map receipt_json rs\<rparr>)))"

section \<open>Construction\<close>

definition genesis :: "(string, u64) gomap" where
  "genesis = [(''tho1alice'', 2000000 * 10), (''tho1foundation'', 0), (''tho1exchange'', 0)]"

definition blank_engine :: "(string, bytes) gomap \<Rightarrow> bytes \<times> bytes \<Rightarrow> Engine" where
  "blank_engine disk key =
     \<lparr>e_txq = [], e_db = SetFeeReceiver ''tho1foundation'' NewDB, e_receipts = [], e_leaves = [],
      e_height = 0, e_rounds = [], e_lastCommittedHeight = 0, e_eternityHeaders = [],
      e_lastBlockID = zero32, e_lastCommitRoot = zero32, e_lastCommitHeight = 0,
      e_commitRootReady = False, e_supply = zeroSupply, e_lastMintedMas = 0, e_lastEmissionEpoch = 0,
      e_priv = snd key, e_pub = fst key, e_hub = emptyHub, e_commitFeed = [], e_disk = disk\<rparr>"

text \<open>
  \<open>loaded\<close> is what \<open>crypto.LoadOrCreate\<close> returned and \<open>generated\<close> a fresh key pair, used when
  the first is missing or of the wrong size; the pair is empty when neither is available.
\<close>

definition choose_key :: "(bytes \<times> bytes) option \<Rightarrow> (bytes \<times> bytes) option \<Rightarrow> bytes \<times> bytes" where
  "choose_key loaded generated =
     (case loaded of
        Some (pub, priv) \<Rightarrow> if length pub = 32 \<and> length priv = 64 then (pub, priv)
          else (case generated of Some k \<Rightarrow> k | None \<Rightarrow> ([], []))
      | None \<Rightarrow> (case generated of Some k \<Rightarrow> k | None \<Rightarrow> ([], [])))"

text \<open>State version 2 first, then version 1 scaled from micro-THO to mas, else genesis.\<close>

definition load_or_init_state :: "Env \<Rightarrow> (string \<Rightarrow> bool) \<Rightarrow> Engine \<Rightarrow> Engine" where
  "load_or_init_state env wr e =
     (let (ok, e1) = loadStateMas env statePathV2 e
      in if ok then e1
         else case loadStateMicro env statePathV1 e1 of
           Some m \<Rightarrow>
             let m' = map (\<lambda>(k, v). (k, v\<lparr>acc_balance := acc_balance v * 10\<rparr>)) m
             in snd (saveStateMas env wr statePathV2 (e1\<lparr>e_db := Restore m' (e_db e1)\<rparr>))
         | None \<Rightarrow> snd (saveStateMas env wr statePathV2 (e1\<lparr>e_db := InitGenesis genesis (e_db e1)\<rparr>)))"

definition NewEngine ::
  "Env \<Rightarrow> (string \<Rightarrow> bool) \<Rightarrow> (string, bytes) gomap \<Rightarrow> (bytes \<times> bytes) option \<Rightarrow> (bytes \<times> bytes) option \<Rightarrow> Engine" where
  "NewEngine env wr disk loaded generated =
     (let e = load_or_init_state env wr (blank_engine disk (choose_key loaded generated));
          e = snd (loadLedger env ledgerPath e);
          (st, ok) = loadSupplyState (env_unmSupply env) (e_db e)
      in if ok then e\<lparr>e_supply := st, e_lastMintedMas := BlockMintAt (LastUpdatedHeight st),
                      e_lastEmissionEpoch := EpochOf (LastUpdatedHeight st)\<rparr>
         else e)"

section \<open>Transactions and receipts\<close>

definition PushRawTx :: "bytes \<Rightarrow> Engine \<Rightarrow> Engine" where
  "PushRawTx b e = e\<lparr>e_txq := e_txq e @ [b]\<rparr>"

definition TxCount :: "Engine \<Rightarrow> nat" where
  "TxCount e = length (e_txq e)"

definition eng_GetAccount :: "string \<Rightarrow> Engine \<Rightarrow> Account \<times> Engine" where
  "eng_GetAccount addr e = (let (acc, db) = GetAccount addr (e_db e) in (acc, e\<lparr>e_db := db\<rparr>))"

definition CurrentHeight :: "Engine \<Rightarrow> u64" where
  "CurrentHeight e = e_height e"

text \<open>The stub never handles an alias transaction.\<close>

definition tryApplyAliasSetTx :: "Transfer \<Rightarrow> i64 \<Rightarrow> Engine \<Rightarrow> bool \<times> unit result" where
  "tryApplyAliasSetTx t now e = (False, Inr ())"

definition eng_ApplyTransfer ::
  "Env \<Rightarrow> bool \<Rightarrow> (string \<Rightarrow> bool) \<Rightarrow> Transfer \<Rightarrow> Engine \<Rightarrow> unit result \<times> Engine" where
  "eng_ApplyTransfer env featAlias wr t e =
     (let plain =
        (case ApplyTransfer (tr_From t) (tr_To t) (tr_AmountMas t) (tr_FeeMas t) (tr_Nonce t) (e_db e) of
           (Inl err, db) \<Rightarrow> (Inl err, e\<lparr>e_db := db\<rparr>)
         | (Inr _, db) \<Rightarrow> saveStateMas env wr statePathV2 (e\<lparr>e_db := db\<rparr>))
      in if featAlias \<and> tr_To t = aliasSys then
           case tryApplyAliasSetTx t (CurrentHeight e) e of
             (True, Inl err) \<Rightarrow> (Inl err, e)
           | (True, Inr _) \<Rightarrow> saveStateMas env wr statePathV2 e
           | (False, _) \<Rightarrow> plain
         else plain)"

definition make_receipt :: "Env \<Rightarrow> i64 \<Rightarrow> Transfer \<Rightarrow> bool \<Rightarrow> string \<Rightarrow> Engine \<Rightarrow> TxReceipt" where
  "make_receipt env now t applied reason e =
     \<lparr>rc_TxHash = tx_Hash (env_sha env) t, rc_From = tr_From t, rc_To = tr_To t,
      rc_Amount = tr_AmountMas t, rc_Fee = tr_FeeMas t, rc_Nonce = tr_Nonce t,
      rc_Status = (if applied then ''applied'' else ''rejected:'' @ reason),
      rc_Height = of_nat (length (e_leaves e)), rc_TimeUTC = now\<rparr>"

definition StoreReceipt ::
  "Env \<Rightarrow> (string \<Rightarrow> bool) \<Rightarrow> i64 \<Rightarrow> Transfer \<Rightarrow> bool \<Rightarrow> string \<Rightarrow> Engine \<Rightarrow> TxReceipt \<times> Engine" where
  "StoreReceipt env wr now t applied reason e =
     (let e0 = e\<lparr>e_height := e_height e + 1\<rparr>;
          r = make_receipt env now t applied reason e0;
          b = receipt_json r;
          e1 = e0\<lparr>e_receipts := AList.update (rc_TxHash r) r (e_receipts e0),
                  e_leaves := e_leaves e0 @ [b]\<rparr>;
          e2 = snd (saveLedger env wr ledgerPath e1)
      in (r, e2\<lparr>e_hub := broadcastAsync b (e_hub e2)\<rparr>))"

definition GetReceipt :: "string \<Rightarrow> Engine \<Rightarrow> TxReceipt option" where
  "GetReceipt hash e = map_of (e_receipts e) hash"

definition MerkleRoot :: "Env \<Rightarrow> Engine \<Rightarrow> bytes" where
  "MerkleRoot env e = Root (env_sha env) (e_leaves e)"

definition ReceiptCount :: "Engine \<Rightarrow> nat" where
  "ReceiptCount e = length (e_leaves e)"

section \<open>Rounds and headers\<close>

definition SignRoundHeader :: "Env \<Rightarrow> RoundHeader \<Rightarrow> Engine \<Rightarrow> bytes option" where
  "SignRoundHeader env h e =
     (if e_priv e = [] then None else Some (env_sign env (e_priv e) (CanonicalRoundHeaderBytes h)))"

definition bytesTo32 :: "bytes \<Rightarrow> bytes" where
  "bytesTo32 b = take 32 (b @ replicate 32 0)"

definition eng_computeValidatorsRoot :: "Env \<Rightarrow> ScoreRecord list \<Rightarrow> bytes" where
  "eng_computeValidatorsRoot env scores =
     (if scores = [] then zero32
      else env_b3 env (bytes_of (concat
        (map (\<lambda>s. to_lower (trim_space (sr_Address s)) @ [CHR 0x0A])
          (sort_key (\<lambda>s. to_lower (sr_Address s)) scores)))))"

definition applyBlockMint :: "u64 \<Rightarrow> Engine \<Rightarrow> Engine" where
  "applyBlockMint height e =
     (let (st, epoch, minted) = ApplyBlockMint (e_supply e) height
      in e\<lparr>e_supply := st, e_db := persistSupplyState (e_db e) height st,
           e_lastMintedMas := minted, e_lastEmissionEpoch := epoch\<rparr>)"

definition commit_bundle :: "Env \<Rightarrow> RoundHeader \<Rightarrow> Engine \<Rightarrow> CommitBundle" where
  "commit_bundle env hdr e =
     (let scores = (case loadAllValidatorScores (env_unmScore env) (e_db e) of Inl _ \<Rightarrow> [] | Inr s \<Rightarrow> s);
          vroot = eng_computeValidatorsRoot env scores
      in \<lparr>cb_Round = ucast (rh_Round hdr), cb_QuorumHash = vroot, cb_Bitmap = [1], cb_Step = 3,
          cb_AggregateSig = []\<rparr>)"

definition header_fields ::
  "Env \<Rightarrow> bytes list \<Rightarrow> RoundHeader \<Rightarrow> bytes \<Rightarrow> Engine \<Rightarrow> EternityHeader" where
  "header_fields env raw hdr cbHash e =
     (let height = (if rh_ToHeight hdr = 0 then e_height e else rh_ToHeight hdr)
      in \<lparr>eh_Version = EternityHeaderVersionV1, eh_ChainID = DefaultChainID, eh_Height = height,
          eh_Round = ucast (rh_Round hdr), eh_TimeUTCUnix = rh_TimeUTC hdr,
          eh_PrevHash = e_lastBlockID e, eh_StateRoot = StateRoot (env_b3 env) (e_db e),
          eh_TxRoot = Blake3RootFromRaw (env_b3 env) raw, eh_ReceiptsRoot = zero32,
          eh_CommitRoot = cbHash, eh_ProposerPubKey = bytesTo32 (e_pub e),
          eh_EmissionEpoch = EpochOf height, eh_ConsensusParamsHash = zero32, eh_FeeRoot = zero32,
          eh_ExtraData = []\<rparr>)"

definition buildEternityHeader ::
  "Env \<Rightarrow> bytes list \<Rightarrow> RoundHeader \<Rightarrow> Engine \<Rightarrow> (EternityHeader \<times> CommitBundle) result \<times> Engine" where
  "buildEternityHeader env raw hdr e =
     (if length (e_pub e) \<noteq> 32 \<or> length (e_priv e) \<noteq> 64
      then (Inl ''engine: proposer key unavailable'', e)
      else
        let bundle = commit_bundle env hdr e
        in case cb_Hash (env_b3 env) (env_cbor env) bundle of
             Inl err \<Rightarrow> (Inl err, e)
           | Inr cbHash \<Rightarrow>
               let out = header_fields env raw hdr cbHash e
               in case eh_SignBytes (env_cbor env) out of
                    Inl err \<Rightarrow> (Inl err, e)
                  | Inr _ \<Rightarrow> (case eh_Hash (env_b3 env) (env_cbor env) out of
                      Inl err \<Rightarrow> (Inl err, e)
                    | Inr blockID \<Rightarrow>
                        (Inr (out, bundle),
                         e\<lparr>e_lastBlockID := blockID, e_lastCommitRoot := cbHash,
                           e_lastCommitHeight := eh_Height out, e_commitRootReady := True\<rparr>)))"

definition push_feed :: "commitRecord \<Rightarrow> commitRecord list \<Rightarrow> commitRecord list" where
  "push_feed rec feed = (if 64 \<le> length feed then tl feed else feed) @ [rec]"

text \<open>
  The outcome of \<open>CommitRound\<close>: no round, a round, or the panic of the slice expression when
  \<open>from\<close> has wrapped around to zero.
\<close>

datatype commit_outcome = NoRound | Committed RoundHeader | SlicePanic

definition new_round :: "Env \<Rightarrow> i64 \<Rightarrow> u64 \<Rightarrow> u64 \<Rightarrow> bytes list \<Rightarrow> Engine \<Rightarrow> RoundHeader" where
  "new_round env now from to sub e =
     (let hdr = \<lparr>rh_Round = of_nat (length (e_rounds e) + 1), rh_FromHeight = from, rh_ToHeight = to,
            rh_TxCount = of_nat (length sub), rh_Root = hex_encode (Root (env_sha env) sub),
            rh_TimeUTC = now, rh_SignatureHex = []\<rparr>
      in case SignRoundHeader env hdr e of
           None \<Rightarrow> hdr
         | Some sig \<Rightarrow> hdr\<lparr>rh_SignatureHex := hex_encode sig\<rparr>)"

definition record_round :: "Env \<Rightarrow> (string \<Rightarrow> bool) \<Rightarrow> RoundHeader \<Rightarrow> Engine \<Rightarrow> Engine" where
  "record_round env wr hdr e =
     (let e = e\<lparr>e_rounds := e_rounds e @ [hdr], e_lastCommittedHeight := rh_ToHeight hdr\<rparr>;
          e = snd (saveLedger env wr ledgerPath e)
      in e\<lparr>e_hub := broadcastAsync (round_json hdr) (e_hub e)\<rparr>)"

definition add_header :: "EternityHeader \<Rightarrow> CommitBundle \<Rightarrow> Engine \<Rightarrow> Engine" where
  "add_header h c e = e\<lparr>e_eternityHeaders := e_eternityHeaders e @ [h],
     e_commitFeed := push_feed \<lparr>cr_Height = eh_Height h, cr_Root = eh_CommitRoot h, cr_Bundle = c\<rparr>
       (e_commitFeed e)\<rparr>"

definition CommitRound ::
  "Env \<Rightarrow> (string \<Rightarrow> bool) \<Rightarrow> i64 \<Rightarrow> Engine \<Rightarrow> commit_outcome \<times> Engine" where
  "CommitRound env wr now e =
     (let leavesLen = of_nat (length (e_leaves e)) :: u64;
          e = e\<lparr>e_height := leavesLen\<rparr>;
          from = e_lastCommittedHeight e + 1;
          to = (if leavesLen < e_height e then leavesLen else e_height e)
      in if to < from then (NoRound, e)
         else
           let e = applyBlockMint to e
           in if from = 0 then (SlicePanic, e)
              else
                let sub = take (unat to - unat (from - 1)) (drop (unat (from - 1)) (e_leaves e));
                    hdr = new_round env now from to sub e;
                    e = record_round env wr hdr e
                in case buildEternityHeader env sub hdr e of
                     (Inl _, e) \<Rightarrow> (Committed hdr, e)
                   | (Inr (header, bundle), e) \<Rightarrow> (Committed hdr, add_header header bundle e))"

text \<open>
  \<open>int(n)\<close> reads \<open>n\<close> as a signed number, so an \<open>n\<close> of \<open>2^63\<close> or more passes the check
  and the index expression panics, \<open>Inl\<close> here.
\<close>

definition GetRound :: "u64 \<Rightarrow> Engine \<Rightarrow> RoundHeader option result" where
  "GetRound n e =
     (if n = 0 \<or> int (length (e_rounds e)) < sint n then Inr None
      else if unat (n - 1) < length (e_rounds e) then Inr (Some (e_rounds e ! unat (n - 1)))
      else Inl ''index out of range'')"

definition LatestEternityHeader :: "Engine \<Rightarrow> EternityHeader option" where
  "LatestEternityHeader e =
     (if e_eternityHeaders e = [] then None else Some (last (e_eternityHeaders e)))"

definition EternityHeaderAt :: "u64 \<Rightarrow> Engine \<Rightarrow> EternityHeader option" where
  "EternityHeaderAt height e = find (\<lambda>h. eh_Height h = height) (rev (e_eternityHeaders e))"

definition LatestCommitRoot :: "Engine \<Rightarrow> (bytes \<times> u64) option" where
  "LatestCommitRoot e =
     (if \<not> e_commitRootReady e then None else Some (e_lastCommitRoot e, e_lastCommitHeight e))"

definition LatestRound :: "Engine \<Rightarrow> RoundHeader option" where
  "LatestRound e = (if e_rounds e = [] then None else Some (last (e_rounds e)))"

definition PubKeyHex :: "Engine \<Rightarrow> string" where
  "PubKeyHex e = hex_encode (e_pub e)"

definition CurrentSupply :: "Engine \<Rightarrow> SupplyState" where
  "CurrentSupply e = e_supply e"

definition SupplyAt :: "Env \<Rightarrow> u64 \<Rightarrow> Engine \<Rightarrow> SupplyState \<times> bool" where
  "SupplyAt env height e =
     (if height = LastUpdatedHeight (e_supply e) then (e_supply e, True)
      else loadSupplyStateAt (env_unmSupply env) (e_db e) height)"

definition eng_ListValidatorScores :: "Env \<Rightarrow> Engine \<Rightarrow> ScoreRecord list result" where
  "eng_ListValidatorScores env e = loadAllValidatorScores (env_unmScore env) (e_db e)"

definition CommitBundleAt :: "u64 \<Rightarrow> Engine \<Rightarrow> CommitBundle option" where
  "CommitBundleAt height e =
     map_option cr_Bundle (find (\<lambda>r. cr_Height r = height) (rev (e_commitFeed e)))"

definition RecordCommitBundle :: "Env \<Rightarrow> CommitBundle \<Rightarrow> Engine \<Rightarrow> Engine" where
  "RecordCommitBundle env bundle e =
     (let e = (case cb_Hash (env_b3 env) (env_cbor env) bundle of
          Inr root \<Rightarrow> e\<lparr>e_lastCommitRoot := root\<rparr> | Inl _ \<Rightarrow> e);
          e = e\<lparr>e_lastCommitHeight := e_height e, e_commitRootReady := True\<rparr>
      in e\<lparr>e_commitFeed := push_feed \<lparr>cr_Height = e_lastCommitHeight e, cr_Root = e_lastCommitRoot e,
             cr_Bundle = bundle\<rparr> (e_commitFeed e)\<rparr>)"

section \<open>Bindings and aliases\<close>

definition getFromPubKeyMap :: "Env \<Rightarrow> Engine \<Rightarrow> (string, string) gomap option" where
  "getFromPubKeyMap env e =
     (case ReadFile ''data/from_pubkeys.json'' e of
        None \<Rightarrow> None
      | Some b \<Rightarrow> if b = [] then None else env_decStrings env b)"

definition VerifyFromBinding :: "Env \<Rightarrow> string \<Rightarrow> bytes \<Rightarrow> Engine \<Rightarrow> bool" where
  "VerifyFromBinding env addr pk e =
     (case getFromPubKeyMap env e of
        None \<Rightarrow> False
      | Some m \<Rightarrow> (case map_of m addr of
          None \<Rightarrow> False
        | Some s \<Rightarrow>
            if s = [] then False
            else case hex_decode s of
              Some hb \<Rightarrow> hb = pk
            | None \<Rightarrow> (case b64_decode False s of Some bb \<Rightarrow> bb = pk | None \<Rightarrow> False)))"

definition GetAccountPubKey :: "Env \<Rightarrow> string \<Rightarrow> Engine \<Rightarrow> string" where
  "GetAccountPubKey env addr e =
     (case getFromPubKeyMap env e of
        None \<Rightarrow> [] | Some m \<Rightarrow> (case map_of m addr of None \<Rightarrow> [] | Some s \<Rightarrow> s))"

definition aliasMap :: "Env \<Rightarrow> Engine \<Rightarrow> (string, string) gomap" where
  "aliasMap env e =
     (let dflt = [(''alice'', ''tho1alice''), (''bob'', ''tho1bob'')]
      in case ReadFile ''data/alias_map.json'' e of
           None \<Rightarrow> dflt
         | Some b \<Rightarrow>
             if b = [] then dflt
             else case env_decStrings env b of
               None \<Rightarrow> dflt | Some m \<Rightarrow> if m = [] then dflt else m)"

text \<open>The owner of an alias, and the boolean that the method returns beside it.\<close>

definition ResolveAlias :: "Env \<Rightarrow> string \<Rightarrow> Engine \<Rightarrow> string option \<times> bool" where
  "ResolveAlias env name e =
     (if name = [] then (None, False)
      else
        let name = trim_prefix name ''@''
        in case map_of (aliasMap env e) name of
             Some owner \<Rightarrow> if owner \<noteq> [] then (Some owner, True) else (None, True)
           | None \<Rightarrow> (None, True))"

definition ReverseAlias :: "Env \<Rightarrow> string \<Rightarrow> Engine \<Rightarrow> string \<times> bool" where
  "ReverseAlias env addr e =
     (if addr = [] then ([], False)
      else case find (\<lambda>(k, v). v = addr) (aliasMap env e) of
        Some (k, _) \<Rightarrow> (k, True)
      | None \<Rightarrow> ([], True))"

definition aliasFileMap :: "Env \<Rightarrow> Engine \<Rightarrow> (string, string) gomap option" where
  "aliasFileMap env e =
     (case ReadFile ''data/alias_map.json'' e of
        None \<Rightarrow> None
      | Some b \<Rightarrow>
          if b = [] then None
          else case env_decStrings env b of
            None \<Rightarrow> None | Some m \<Rightarrow> if m = [] then None else Some m)"

definition ResolveAliasFile :: "Env \<Rightarrow> string \<Rightarrow> Engine \<Rightarrow> string option \<times> bool" where
  "ResolveAliasFile env name e =
     (if name = [] then (None, True)
      else
        let name = trim_prefix name ''@''
        in case aliasFileMap env e of
             None \<Rightarrow> (None, True)
           | Some m \<Rightarrow> (case map_of m name of
               Some owner \<Rightarrow> if owner \<noteq> [] then (Some owner, True) else (None, True)
             | None \<Rightarrow> (None, True)))"

definition ReverseAliasFile :: "Env \<Rightarrow> string \<Rightarrow> Engine \<Rightarrow> string \<times> bool" where
  "ReverseAliasFile env addr e =
     (if addr = [] then ([], True)
      else case aliasFileMap env e of
        None \<Rightarrow> ([], True)
      | Some m \<Rightarrow> (case find (\<lambda>(k, v). v = addr) m of
          Some (k, _) \<Rightarrow> (k, True)
        | None \<Rightarrow> ([], True)))"

end
