(* ===== verification/Engine_Inv.thy ===== *)
theory Engine_Inv
  imports Engine
begin

text \<open>
  The engine as a transition system and its invariants: rounds tile the receipts, Eternity
  headers form a hash chain, the commit feed is bounded and consistent, and the supply counters
  are those of the committed rounds.
\<close>

section \<open>Steps\<close>

inductive engine_step :: "Env \<Rightarrow> Engine \<Rightarrow> Engine \<Rightarrow> bool" for env where
  push: "engine_step env e (PushRawTx b e)"
| account: "engine_step env e (snd (eng_GetAccount addr e))"
| transfer: "engine_step env e (snd (eng_ApplyTransfer env feat wr t e))"
| receipt: "engine_step env e (snd (StoreReceipt env wr now t applied reason e))"
| commit: "engine_step env e (snd (CommitRound env wr now e))"
| rec_bundle: "engine_step env e (RecordCommitBundle env c e)"
| hub: "hub_step (e_hub e) h \<Longrightarrow> engine_step env e (e\<lparr>e_hub := h\<rparr>)"
| files: "engine_step env e (e\<lparr>e_disk := d\<rparr>)"   \<comment> \<open>another part of the node writes a file\<close>

inductive_cases engine_stepE: "engine_step env e e'"

text \<open>A node started on any files, and one started without a ledger file.\<close>

inductive engine_start :: "Env \<Rightarrow> Engine \<Rightarrow> bool" for env where
  "engine_start env (NewEngine env wr disk loaded generated)"

inductive fresh_start :: "Env \<Rightarrow> Engine \<Rightarrow> bool" for env where
  "map_of disk ledgerPath = None \<Longrightarrow> fresh_start env (NewEngine env wr disk loaded generated)"

section \<open>What each operation leaves alone\<close>

lemma WriteFile_frame [simp]:
  "\<exists>d. snd (WriteFile wr path b e) = e\<lparr>e_disk := d\<rparr>"
  by (auto simp: WriteFile_def intro: exI [of _ "e_disk e"])

lemma saves_frame:
  "\<exists>d. snd (saveStateMas env wr path e) = e\<lparr>e_disk := d\<rparr>"
  "\<exists>d. snd (saveLedger env wr path e) = e\<lparr>e_disk := d\<rparr>"
  by (simp_all add: saveStateMas_def saveLedger_def)

definition apply_db :: "Transfer \<Rightarrow> Engine \<Rightarrow> unit result \<times> DB" where
  "apply_db t e = ApplyTransfer (tr_From t) (tr_To t) (tr_AmountMas t) (tr_FeeMas t) (tr_Nonce t) (e_db e)"

lemma eng_ApplyTransfer_eq:
  "\<exists>d. snd (eng_ApplyTransfer env feat wr t e) = e\<lparr>e_db := snd (apply_db t e), e_disk := d\<rparr>"
proof -
  obtain r db where a: "apply_db t e = (r, db)" by fastforce
  show ?thesis
  proof (cases r)
    case (Inl err)
    then show ?thesis
      using a by (auto simp: eng_ApplyTransfer_def apply_db_def tryApplyAliasSetTx_def Let_def
          intro: exI [of _ "e_disk e"])
  next
    case (Inr u)
    then have "snd (eng_ApplyTransfer env feat wr t e)
        = snd (saveStateMas env wr statePathV2 (e\<lparr>e_db := db\<rparr>))"
      using a by (simp add: eng_ApplyTransfer_def apply_db_def tryApplyAliasSetTx_def Let_def)
    with saves_frame(1) [of env wr statePathV2 "e\<lparr>e_db := db\<rparr>"] a show ?thesis by auto
  qed
qed

lemma StoreReceipt_eq:
  "\<exists>d. StoreReceipt env wr now t applied reason e =
     (let r = make_receipt env now t applied reason e
      in (r, e\<lparr>e_height := e_height e + 1, e_receipts := AList.update (rc_TxHash r) r (e_receipts e),
       e_leaves := e_leaves e @ [receipt_json r], e_disk := d,
       e_hub := broadcastAsync (receipt_json r) (e_hub e)\<rparr>))"
proof -
  define r where "r = make_receipt env now t applied reason e"
  have r: "make_receipt env now t applied reason (e\<lparr>e_height := e_height e + 1\<rparr>) = r"
    by (simp add: r_def make_receipt_def)
  define e1 where "e1 = e\<lparr>e_height := e_height e + 1,
    e_receipts := AList.update (rc_TxHash r) r (e_receipts e), e_leaves := e_leaves e @ [receipt_json r]\<rparr>"
  obtain d where d: "snd (saveLedger env wr ledgerPath e1) = e1\<lparr>e_disk := d\<rparr>"
    using saves_frame(2) by blast
  have "StoreReceipt env wr now t applied reason e
      = (r, e1\<lparr>e_disk := d, e_hub := broadcastAsync (receipt_json r) (e_hub e1)\<rparr>)"
    using d by (simp add: StoreReceipt_def r e1_def Let_def)
  then show ?thesis by (intro exI [of _ d]) (simp add: e1_def Let_def flip: r_def)
qed

section \<open>Building a header\<close>

lemma header_fields_sel [simp]:
  "eh_PrevHash (header_fields env raw hdr x e) = e_lastBlockID e"
  "eh_Height (header_fields env raw hdr x e) = (if rh_ToHeight hdr = 0 then e_height e else rh_ToHeight hdr)"
  "eh_Round (header_fields env raw hdr x e) = ucast (rh_Round hdr)"
  "eh_StateRoot (header_fields env raw hdr x e) = StateRoot (env_b3 env) (e_db e)"
  "eh_CommitRoot (header_fields env raw hdr x e) = x"
  by (simp_all add: header_fields_def Let_def)

lemma buildEternityHeader_error:
  "fst (buildEternityHeader env raw hdr e) = Inl err \<Longrightarrow> snd (buildEternityHeader env raw hdr e) = e"
  by (auto simp: buildEternityHeader_def Let_def split: sum.splits if_splits)

lemma buildEternityHeader_ok:
  assumes "buildEternityHeader env raw hdr e = (Inr (h, c), e')"
  shows "c = commit_bundle env hdr e \<and> h = header_fields env raw hdr (eh_CommitRoot h) e
    \<and> cb_Hash (env_b3 env) (env_cbor env) c = Inr (eh_CommitRoot h)
    \<and> eh_Hash (env_b3 env) (env_cbor env) h = Inr (e_lastBlockID e')
    \<and> e' = e\<lparr>e_lastBlockID := e_lastBlockID e', e_lastCommitRoot := eh_CommitRoot h,
        e_lastCommitHeight := eh_Height h, e_commitRootReady := True\<rparr>"
  using assms by (auto simp: buildEternityHeader_def Let_def split: sum.splits if_splits)

section \<open>Committing a round\<close>

definition committed_header :: "Env \<Rightarrow> Engine \<Rightarrow> RoundHeader \<Rightarrow> bool" where
  "committed_header env e hdr \<longleftrightarrow>
     rh_Round hdr = of_nat (length (e_rounds e) + 1)
     \<and> rh_FromHeight hdr = e_lastCommittedHeight e + 1
     \<and> rh_ToHeight hdr = of_nat (length (e_leaves e))
     \<and> rh_TxCount hdr = of_nat (length (e_leaves e) - unat (e_lastCommittedHeight e))
     \<and> rh_Root hdr = hex_encode (Root (env_sha env) (drop (unat (e_lastCommittedHeight e)) (e_leaves e)))
     \<and> rh_SignatureHex hdr = (if e_priv e = [] then []
         else hex_encode (env_sign env (e_priv e) (CanonicalRoundHeaderBytes hdr)))"

text \<open>The engine after minting and recording the round, before the Eternity header is built.\<close>

definition after_round :: "(string, bytes) gomap \<Rightarrow> RoundHeader \<Rightarrow> Engine \<Rightarrow> Engine" where
  "after_round d hdr e =
     (applyBlockMint (rh_ToHeight hdr) (e\<lparr>e_height := of_nat (length (e_leaves e))\<rparr>))
       \<lparr>e_rounds := e_rounds e @ [hdr], e_lastCommittedHeight := rh_ToHeight hdr, e_disk := d,
        e_hub := broadcastAsync (round_json hdr) (e_hub e)\<rparr>"

lemma Canonical_ignores_signature [simp]:
  "CanonicalRoundHeaderBytes (h\<lparr>rh_SignatureHex := s\<rparr>) = CanonicalRoundHeaderBytes h"
  by (simp add: CanonicalRoundHeaderBytes_def)

lemma applyBlockMint_frame [simp]:
  "e_leaves (applyBlockMint h e) = e_leaves e" "e_rounds (applyBlockMint h e) = e_rounds e"
  "e_priv (applyBlockMint h e) = e_priv e" "e_pub (applyBlockMint h e) = e_pub e"
  "e_hub (applyBlockMint h e) = e_hub e" "e_height (applyBlockMint h e) = e_height e"
  "e_lastCommittedHeight (applyBlockMint h e) = e_lastCommittedHeight e"
  "e_eternityHeaders (applyBlockMint h e) = e_eternityHeaders e"
  "e_lastBlockID (applyBlockMint h e) = e_lastBlockID e" "e_commitFeed (applyBlockMint h e) = e_commitFeed e"
  "e_receipts (applyBlockMint h e) = e_receipts e"
  by (simp_all add: applyBlockMint_def case_prod_beta)

lemma new_round_header:
  assumes "e_rounds e' = e_rounds e" "e_priv e' = e_priv e" "length (e_leaves e) < 2 ^ 64"
    and "unat (e_lastCommittedHeight e) \<le> length (e_leaves e)"
  shows "committed_header env e (new_round env now (e_lastCommittedHeight e + 1) (of_nat (length (e_leaves e)))
      (drop (unat (e_lastCommittedHeight e)) (e_leaves e)) e')"
  using assms by (auto simp: committed_header_def new_round_def SignRoundHeader_def Let_def
      CanonicalRoundHeaderBytes_def)

lemma record_round_eq:
  "\<exists>d. record_round env wr hdr e = e\<lparr>e_rounds := e_rounds e @ [hdr],
     e_lastCommittedHeight := rh_ToHeight hdr, e_disk := d, e_hub := broadcastAsync (round_json hdr) (e_hub e)\<rparr>"
proof -
  obtain d where "snd (saveLedger env wr ledgerPath (e\<lparr>e_rounds := e_rounds e @ [hdr],
      e_lastCommittedHeight := rh_ToHeight hdr\<rparr>)) = e\<lparr>e_rounds := e_rounds e @ [hdr],
      e_lastCommittedHeight := rh_ToHeight hdr\<rparr>\<lparr>e_disk := d\<rparr>"
    using saves_frame(2) by blast
  then show ?thesis by (intro exI [of _ d]) (simp add: record_round_def Let_def)
qed

lemma CommitRound_cases:
  assumes n: "length (e_leaves e) + 1 < 2 ^ 64" and a: "unat (e_lastCommittedHeight e) \<le> length (e_leaves e)"
  obtains
    (none) "unat (e_lastCommittedHeight e) = length (e_leaves e)"
      "CommitRound env wr now e = (NoRound, e\<lparr>e_height := of_nat (length (e_leaves e))\<rparr>)"
  | (plain) hdr d err where "unat (e_lastCommittedHeight e) < length (e_leaves e)" "committed_header env e hdr"
      "buildEternityHeader env (drop (unat (e_lastCommittedHeight e)) (e_leaves e)) hdr (after_round d hdr e)
         = (Inl err, after_round d hdr e)"
      "CommitRound env wr now e = (Committed hdr, after_round d hdr e)"
  | (header) hdr d h c e' where "unat (e_lastCommittedHeight e) < length (e_leaves e)" "committed_header env e hdr"
      "buildEternityHeader env (drop (unat (e_lastCommittedHeight e)) (e_leaves e)) hdr (after_round d hdr e)
         = (Inr (h, c), e')"
      "CommitRound env wr now e = (Committed hdr, add_header h c e')"
proof (cases "unat (e_lastCommittedHeight e) = length (e_leaves e)")
  case True
  let ?len = "of_nat (length (e_leaves e)) :: u64"
  have len: "unat ?len = length (e_leaves e)" using n by (simp add: unat_of_nat)
  have "unat (e_lastCommittedHeight e + 1) = length (e_leaves e) + 1"
    using True n by (subst u64_add_exact) simp_all
  with len have "?len < e_lastCommittedHeight e + 1" by (simp add: u64_less_iff)
  then show ?thesis using True by (intro none) (simp_all add: CommitRound_def Let_def)
next
  case False
  let ?len = "of_nat (length (e_leaves e)) :: u64" and ?a = "e_lastCommittedHeight e"
  let ?e1 = "applyBlockMint ?len (e\<lparr>e_height := ?len\<rparr>)" and ?sub = "drop (unat ?a) (e_leaves e)"
  have lt: "unat ?a < length (e_leaves e)" using a False by simp
  have len: "unat ?len = length (e_leaves e)" using n by (simp add: unat_of_nat)
  have from_: "unat (?a + 1) = unat ?a + 1" using lt n by (subst u64_add_exact) simp_all
  then have pos: "?a + 1 \<noteq> 0" by (metis add_is_0 one_neq_zero unat_eq_zero)
  have ge: "\<not> ?len < ?a + 1" using lt len from_ by (simp add: u64_less_iff)
  define hdr where "hdr = new_round env now (?a + 1) ?len ?sub ?e1"
  have hdr: "committed_header env e hdr"
    unfolding hdr_def using n a by (intro new_round_header) simp_all
  then have to: "rh_ToHeight hdr = ?len" by (simp add: committed_header_def)
  obtain d where "record_round env wr hdr ?e1 = ?e1\<lparr>e_rounds := e_rounds ?e1 @ [hdr],
     e_lastCommittedHeight := rh_ToHeight hdr, e_disk := d, e_hub := broadcastAsync (round_json hdr) (e_hub ?e1)\<rparr>"
    using record_round_eq by blast
  then have rec: "record_round env wr hdr ?e1 = after_round d hdr e"
    by (simp add: after_round_def to)
  have commit: "CommitRound env wr now e =
      (case buildEternityHeader env ?sub hdr (after_round d hdr e) of
         (Inl _, e) \<Rightarrow> (Committed hdr, e)
       | (Inr (h, c), e) \<Rightarrow> (Committed hdr, add_header h c e))"
    using pos ge by (simp add: CommitRound_def Let_def len rec split: prod.split sum.split flip: hdr_def)
  show ?thesis
  proof (cases "buildEternityHeader env ?sub hdr (after_round d hdr e)")
    case (Pair r e')
    show ?thesis
    proof (cases r)
      case (Inl err)
      with Pair buildEternityHeader_error [of env ?sub hdr "after_round d hdr e" err]
      have build: "buildEternityHeader env ?sub hdr (after_round d hdr e) = (Inl err, after_round d hdr e)"
        by simp
      then have "CommitRound env wr now e = (Committed hdr, after_round d hdr e)" by (simp add: commit)
      with lt hdr build show ?thesis by (rule plain)
    next
      case (Inr hc)
      obtain h c where hc: "hc = (h, c)" by (cases hc)
      with Inr Pair have "CommitRound env wr now e = (Committed hdr, add_header h c e')" by (simp add: commit)
      with lt hdr Pair [unfolded Inr hc] show ?thesis by (rule header)
    qed
  qed
qed

lemma below_top: "(x :: u64) \<noteq> 18446744073709551615 \<longleftrightarrow> unat x + 1 < 18446744073709551616"
proof -
  have "unat (18446744073709551615 :: u64) = 18446744073709551615" by simp
  then show ?thesis unfolding u64_eq_iff using unat_u64_lt [of x] by linarith
qed

text \<open>A commit whatever the commit position: a round is recorded and its height minted, or nothing
  happens. Only the largest 64-bit position would make the first height of the round zero.\<close>

lemma CommitRound_any:
  assumes n: "length (e_leaves e) + 1 < 2 ^ 64" and top: "e_lastCommittedHeight e \<noteq> 18446744073709551615"
  obtains (none) "CommitRound env wr now e = (NoRound, e\<lparr>e_height := of_nat (length (e_leaves e))\<rparr>)"
      "length (e_leaves e) \<le> unat (e_lastCommittedHeight e)"
  | (round) hdr where "unat (e_lastCommittedHeight e) < length (e_leaves e)" "committed_header env e hdr"
      "fst (CommitRound env wr now e) = Committed hdr" "e_rounds (snd (CommitRound env wr now e)) = e_rounds e @ [hdr]"
      "e_lastCommittedHeight (snd (CommitRound env wr now e)) = of_nat (length (e_leaves e))"
      "e_supply (snd (CommitRound env wr now e)) = fst (ApplyBlockMint (e_supply e) (rh_ToHeight hdr))"
proof (cases "unat (e_lastCommittedHeight e) \<le> length (e_leaves e)")
  case True
  have sel: "e_rounds (after_round d hdr e) = e_rounds e @ [hdr]" "e_lastCommittedHeight (after_round d hdr e) = rh_ToHeight hdr"
    "e_supply (after_round d hdr e) = fst (ApplyBlockMint (e_supply e) (rh_ToHeight hdr))" for d hdr
    by (simp_all add: after_round_def applyBlockMint_def case_prod_beta)
  have to: "rh_ToHeight hdr = of_nat (length (e_leaves e))" if "committed_header env e hdr" for hdr
    using that by (simp add: committed_header_def)
  show thesis
  proof (cases rule: CommitRound_cases [OF n True, of env wr now, case_names none' plain header])
    case none'
    then show thesis by (intro none) simp_all
  next
    case (plain hdr d err)
    then show thesis by (intro round [of hdr]) (simp_all add: sel to)
  next
    case (header hdr d h c e')
    have e': "e' = (after_round d hdr e)\<lparr>e_lastBlockID := e_lastBlockID e', e_lastCommitRoot := eh_CommitRoot h,
        e_lastCommitHeight := eh_Height h, e_commitRootReady := True\<rparr>"
      using buildEternityHeader_ok [OF header(3)] by blast
    have "e_rounds e' = e_rounds e @ [hdr]" "e_lastCommittedHeight e' = rh_ToHeight hdr"
      "e_supply e' = fst (ApplyBlockMint (e_supply e) (rh_ToHeight hdr))"
      by (subst e', simp add: sel)+
    with header show thesis by (intro round [of hdr]) (simp_all add: add_header_def to)
  qed
next
  case False
  let ?len = "of_nat (length (e_leaves e)) :: u64"
  have "unat (e_lastCommittedHeight e) + 1 < 18446744073709551616"
    using top by (simp only: below_top)
  then have "unat (e_lastCommittedHeight e + 1) = unat (e_lastCommittedHeight e) + 1" by (subst u64_add_exact) simp_all
  moreover have "unat ?len = length (e_leaves e)" using n by (simp add: unat_of_nat)
  ultimately have "?len < e_lastCommittedHeight e + 1" using False by (simp add: u64_less_iff)
  then show thesis using False by (intro none) (simp_all add: CommitRound_def Let_def)
qed

section \<open>Fresh engines\<close>

lemma kv_simps [simp]:
  "kv (Restore m db) = kv db" "kv (InitGenesis bs db) = kv db" "kv (SetFeeReceiver r db) = kv db"
proof -
  have "kv (fold (\<lambda>(addr, amt). credit addr amt) bs db) = kv db"
    by (induction bs arbitrary: db) auto
  then show "kv (Restore m db) = kv db" "kv (InitGenesis bs db) = kv db" "kv (SetFeeReceiver r db) = kv db"
    by (simp_all add: Restore_def InitGenesis_def SetFeeReceiver_def)
qed

text \<open>The state file is read or written before the ledger is looked at, and never under its path.\<close>

lemma WriteFile_state:
  "\<exists>d. snd (saveStateMas env wr statePathV2 e) = e\<lparr>e_disk := d\<rparr> \<and> map_of d ledgerPath = map_of (e_disk e) ledgerPath"
proof (cases "wr statePathV2")
  case True
  then show ?thesis
    by (intro exI [of _ "AList.update statePathV2 (env_encState env (Snapshot (e_db e))) (e_disk e)"])
      (simp add: saveStateMas_def WriteFile_def update_conv' statePathV2_def ledgerPath_def)
next
  case False
  then show ?thesis
    by (intro exI [of _ "e_disk e"]) (simp add: saveStateMas_def WriteFile_def)
qed

lemma loadStateMas_cases:
  obtains m where "loadStateMas env p e = (True, e\<lparr>e_db := Restore m (e_db e)\<rparr>)"
  | "loadStateMas env p e = (False, e)"
  by (cases "ReadFile p e"; cases "env_decState env (the (ReadFile p e))") (auto simp: loadStateMas_def)

lemma load_or_init_state_eq:
  "\<exists>db d. load_or_init_state env wr e = e\<lparr>e_db := db, e_disk := d\<rparr> \<and> kv db = kv (e_db e)
     \<and> map_of d ledgerPath = map_of (e_disk e) ledgerPath"
proof -
  have save: "\<exists>d. snd (saveStateMas env wr statePathV2 (e\<lparr>e_db := db\<rparr>)) = e\<lparr>e_db := db, e_disk := d\<rparr>
      \<and> map_of d ledgerPath = map_of (e_disk e) ledgerPath" for db
    using WriteFile_state [of env wr "e\<lparr>e_db := db\<rparr>"] by auto
  show ?thesis
  proof (cases rule: loadStateMas_cases [of env statePathV2 e])
    case (1 m)
    then show ?thesis
      by (intro exI [of _ "Restore m (e_db e)"] exI [of _ "e_disk e"]) (simp add: load_or_init_state_def)
  next
    case 2
    define db where "db = (case loadStateMicro env statePathV1 e of
        Some m \<Rightarrow> Restore (map (\<lambda>(k, v). (k, v\<lparr>acc_balance := acc_balance v * 10\<rparr>)) m) (e_db e)
      | None \<Rightarrow> InitGenesis genesis (e_db e))"
    have "load_or_init_state env wr e = snd (saveStateMas env wr statePathV2 (e\<lparr>e_db := db\<rparr>))"
      using 2 by (simp add: load_or_init_state_def db_def Let_def split: option.split)
    moreover have "kv db = kv (e_db e)" by (simp add: db_def split: option.split)
    ultimately show ?thesis using save [of db] by auto
  qed
qed

lemma loadLedger_db [simp]: "e_db (snd (loadLedger env p e)) = e_db e"
  by (simp add: loadLedger_def Let_def split: option.splits)

lemma NewEngine_load:
  "\<exists>db d. kv db = [] \<and> map_of d ledgerPath = map_of disk ledgerPath
     \<and> NewEngine env wr disk loaded generated
       = snd (loadLedger env ledgerPath ((blank_engine disk (choose_key loaded generated))\<lparr>e_db := db, e_disk := d\<rparr>))"
proof -
  let ?b = "blank_engine disk (choose_key loaded generated)"
  obtain db d where l: "load_or_init_state env wr ?b = ?b\<lparr>e_db := db, e_disk := d\<rparr>" and kv: "kv db = []"
    and d: "map_of d ledgerPath = map_of disk ledgerPath"
    using load_or_init_state_eq [of env wr ?b] by (auto simp: blank_engine_def NewDB_def)
  have "loadSupplyState u db = (zeroSupply, False)" for u
    using kv by (simp add: loadSupplyState_def GetKey_def)
  then have "NewEngine env wr disk loaded generated = snd (loadLedger env ledgerPath (?b\<lparr>e_db := db, e_disk := d\<rparr>))"
    by (simp add: NewEngine_def l Let_def)
  with kv d show ?thesis by blast
qed

lemma NewEngine_facts:
  "e_supply (NewEngine env wr disk loaded generated) = zeroSupply" "kv (e_db (NewEngine env wr disk loaded generated)) = []"
proof -
  obtain db d where "kv db = []" "NewEngine env wr disk loaded generated = snd (loadLedger env ledgerPath
      ((blank_engine disk (choose_key loaded generated))\<lparr>e_db := db, e_disk := d\<rparr>))"
    using NewEngine_load by blast
  then show "e_supply (NewEngine env wr disk loaded generated) = zeroSupply" "kv (e_db (NewEngine env wr disk loaded generated)) = []"
    by (simp_all add: loadLedger_def blank_engine_def Let_def split: option.split)
qed

lemma fresh_start_eq:
  assumes "fresh_start env e"
  shows "e_leaves e = [] \<and> e_height e = 0 \<and> e_rounds e = [] \<and> e_lastCommittedHeight e = 0
    \<and> e_eternityHeaders e = [] \<and> e_lastBlockID e = zero32 \<and> e_commitFeed e = [] \<and> e_supply e = zeroSupply
    \<and> e_receipts e = [] \<and> e_hub e = emptyHub \<and> kv (e_db e) = []"
  using assms
proof cases
  case (1 disk wr loaded generated)
  from NewEngine_load [of disk env wr loaded generated] obtain db d where "kv db = []"
    "map_of d ledgerPath = None" "e = snd (loadLedger env ledgerPath
      ((blank_engine disk (choose_key loaded generated))\<lparr>e_db := db, e_disk := d\<rparr>))"
    using 1 by auto
  then show ?thesis by (simp add: loadLedger_def ReadFile_def blank_engine_def)
qed

text \<open>
  Fact. Restarting loses the emission and header history: whatever files a node starts
  from, its supply counters are zero, its Eternity header list and commit feed are empty and the next
  header's predecessor hash is zero, although rounds and receipts are read back from the ledger.
  The supply is kept in the key/value store, which no file holds.
\<close>

theorem NewEngine_forgets:
  "let e = NewEngine env wr disk loaded generated
   in e_supply e = zeroSupply \<and> e_eternityHeaders e = [] \<and> e_lastBlockID e = zero32
      \<and> e_commitFeed e = [] \<and> \<not> e_commitRootReady e \<and> kv (e_db e) = []
      \<and> (\<forall>b led. map_of disk ledgerPath = Some b \<longrightarrow> env_decLedger env b = Some led \<longrightarrow>
          e_rounds e = lg_Rounds led \<and> e_lastCommittedHeight e = lg_LastCommittedHeight led)"
proof -
  obtain db d where "kv db = []" "map_of d ledgerPath = map_of disk ledgerPath"
    "NewEngine env wr disk loaded generated = snd (loadLedger env ledgerPath
      ((blank_engine disk (choose_key loaded generated))\<lparr>e_db := db, e_disk := d\<rparr>))"
    using NewEngine_load by blast
  then show ?thesis
    by (auto simp: loadLedger_def ReadFile_def blank_engine_def Let_def split: option.split)
qed

definition demo_ledger :: ledgerV1 where
  "demo_ledger = \<lparr>lg_Version = 1, lg_Height = 0, lg_LastCommittedHeight = 7, lg_Receipts = [], lg_Rounds = []\<rparr>"

definition demo_transfer :: Transfer where
  "demo_transfer = \<lparr>tr_Type = 1, tr_From = ''tho1alice'', tr_To = ''tho1bob'', tr_AmountMas = 5,
     tr_FeeMas = 1, tr_Nonce = 1, tr_ChainID = ''thomas-dev-1'', tr_ExpiryHeight = 0, tr_MsgCommit = []\<rparr>"

definition demo_receipt :: TxReceipt where
  "demo_receipt = \<lparr>rc_TxHash = tx_Hash toy_hash demo_transfer, rc_From = ''tho1alice'', rc_To = ''tho1bob'',
     rc_Amount = 5, rc_Fee = 1, rc_Nonce = 1, rc_Status = ''applied'', rc_Height = 0, rc_TimeUTC = 0\<rparr>"

text \<open>A codec that knows two ledgers: one with a commit position and one with a single receipt.\<close>

definition demo_ledger1 :: ledgerV1 where
  "demo_ledger1 = \<lparr>lg_Version = 1, lg_Height = 1, lg_LastCommittedHeight = 0,
     lg_Receipts = [demo_receipt], lg_Rounds = []\<rparr>"

definition demo_env :: Env where
  "demo_env = \<lparr>env_sha = toy_hash, env_b3 = toy_hash, env_cbor = rfc8949, env_sign = (\<lambda>sk m. m),
     env_unmScore = read_score, env_unmSupply = read_supply, env_encState = (\<lambda>m. []),
     env_decState = (\<lambda>b. None), env_encLedger = (\<lambda>l. []),
     env_decLedger = (\<lambda>b. if b = [1] then Some demo_ledger else Some demo_ledger1), env_decStrings = (\<lambda>b. None)\<rparr>"

theorem NewEngine_forgets_witness:
  "e_lastCommittedHeight (NewEngine demo_env (\<lambda>p. False) [(ledgerPath, [1])] None None) = 7
   \<and> e_supply (NewEngine demo_env (\<lambda>p. False) [(ledgerPath, [1])] None None) = zeroSupply"
  using NewEngine_forgets [of demo_env "\<lambda>p. False" "[(ledgerPath, [1])]" None None]
  by (simp add: Let_def demo_env_def demo_ledger_def)

section \<open>Rounds tile the receipts\<close>

definition round_at :: "(bytes \<Rightarrow> bytes) \<Rightarrow> bytes list \<Rightarrow> nat \<Rightarrow> nat \<Rightarrow> RoundHeader \<Rightarrow> bool" where
  "round_at sha ls n a h \<longleftrightarrow>
     rh_Round h = of_nat (Suc n) \<and> unat (rh_FromHeight h) = a + 1 \<and> a < unat (rh_ToHeight h)
     \<and> unat (rh_ToHeight h) \<le> length ls \<and> unat (rh_TxCount h) = unat (rh_ToHeight h) - a
     \<and> rh_Root h = hex_encode (Root sha (take (unat (rh_ToHeight h) - a) (drop a ls)))"

primrec rounds_tile ::
  "(bytes \<Rightarrow> bytes) \<Rightarrow> bytes list \<Rightarrow> nat \<Rightarrow> nat \<Rightarrow> RoundHeader list \<Rightarrow> nat \<Rightarrow> bool" where
  "rounds_tile sha ls n a [] b \<longleftrightarrow> b = a"
| "rounds_tile sha ls n a (h # hs) b \<longleftrightarrow>
     round_at sha ls n a h \<and> rounds_tile sha ls (Suc n) (unat (rh_ToHeight h)) hs b"

lemma round_at_append: "round_at sha ls n a h \<Longrightarrow> round_at sha (ls @ xs) n a h"
  by (auto simp: round_at_def)

lemma rounds_tile_append: "rounds_tile sha ls n a hs b \<Longrightarrow> rounds_tile sha (ls @ xs) n a hs b"
  by (induction hs arbitrary: n a) (auto simp: round_at_append)

lemma rounds_tile_snoc:
  "rounds_tile sha ls n a (hs @ [h]) b \<longleftrightarrow>
   (\<exists>c. rounds_tile sha ls n a hs c \<and> round_at sha ls (n + length hs) c h \<and> b = unat (rh_ToHeight h))"
  by (induction hs arbitrary: n a) auto

lemma rounds_tile_le: "rounds_tile sha ls n a hs b \<Longrightarrow> a \<le> length ls \<Longrightarrow> b \<le> length ls"
  by (induction hs arbitrary: n a) (auto simp: round_at_def)

text \<open>The headers form a chain: each names the hash of its predecessor, the first the zero hash.\<close>

primrec header_chain :: "Env \<Rightarrow> bytes \<Rightarrow> EternityHeader list \<Rightarrow> bytes \<Rightarrow> bool" where
  "header_chain env p [] q \<longleftrightarrow> q = p"
| "header_chain env p (h # hs) q \<longleftrightarrow> eh_PrevHash h = p
     \<and> (\<exists>i. eh_Hash (env_b3 env) (env_cbor env) h = Inr i \<and> header_chain env i hs q)"

lemma header_chain_snoc:
  "header_chain env p (hs @ [h]) q \<longleftrightarrow>
   header_chain env p hs (eh_PrevHash h) \<and> eh_Hash (env_b3 env) (env_cbor env) h = Inr q"
  by (induction hs arbitrary: p) auto

definition feed_ok :: "Env \<Rightarrow> commitRecord list \<Rightarrow> bool" where
  "feed_ok env feed \<longleftrightarrow> length feed \<le> 64
     \<and> (\<forall>r \<in> set feed. \<forall>root. cb_Hash (env_b3 env) (env_cbor env) (cr_Bundle r) = Inr root \<longrightarrow> cr_Root r = root)"

lemma feed_ok_push:
  assumes "feed_ok env feed" and "\<And>root. cb_Hash (env_b3 env) (env_cbor env) (cr_Bundle r) = Inr root \<Longrightarrow> cr_Root r = root"
  shows "feed_ok env (push_feed r feed)"
proof -
  have "set (tl feed) \<subseteq> set feed" by (cases feed) auto
  with assms show ?thesis by (auto simp: feed_ok_def push_feed_def)
qed

definition engine_inv :: "Env \<Rightarrow> Engine \<Rightarrow> bool" where
  "engine_inv env e \<longleftrightarrow>
     e_height e = of_nat (length (e_leaves e))
     \<and> rounds_tile (env_sha env) (e_leaves e) 0 0 (e_rounds e) (unat (e_lastCommittedHeight e))
     \<and> header_chain env zero32 (e_eternityHeaders e) (e_lastBlockID e)
     \<and> feed_ok env (e_commitFeed e)
     \<and> e_supply e = mint_all (map rh_ToHeight (e_rounds e)) zeroSupply"

lemma engine_inv_fresh: "fresh_start env e \<Longrightarrow> engine_inv env e"
  using fresh_start_eq [of env e] by (simp add: engine_inv_def feed_ok_def)

text \<open>The invariant only reads these components.\<close>

lemma engine_inv_cong:
  assumes "engine_inv env e" and "e_leaves e' = e_leaves e" "e_height e' = e_height e"
    "e_rounds e' = e_rounds e" "e_lastCommittedHeight e' = e_lastCommittedHeight e"
    "e_eternityHeaders e' = e_eternityHeaders e" "e_lastBlockID e' = e_lastBlockID e"
    "e_commitFeed e' = e_commitFeed e" "e_supply e' = e_supply e"
  shows "engine_inv env e'"
  using assms by (simp add: engine_inv_def)

lemma after_round_inv:
  assumes inv: "engine_inv env e" and n: "length (e_leaves e) + 1 < 2 ^ 64"
    and lt: "unat (e_lastCommittedHeight e) < length (e_leaves e)" and hdr: "committed_header env e hdr"
  shows "engine_inv env (after_round d hdr e)"
proof -
  let ?len = "of_nat (length (e_leaves e)) :: u64"
  have to: "rh_ToHeight hdr = ?len" and len: "unat ?len = length (e_leaves e)"
    using hdr n by (simp_all add: committed_header_def unat_of_nat)
  have "unat (e_lastCommittedHeight e + 1) = unat (e_lastCommittedHeight e) + 1"
    using lt n by (subst u64_add_exact) simp_all
  moreover have "unat (rh_TxCount hdr) = length (e_leaves e) - unat (e_lastCommittedHeight e)"
  proof -
    have "length (e_leaves e) - unat (e_lastCommittedHeight e) < 18446744073709551616" using n by simp
    from u64_of_nat_exact [OF this] show ?thesis using hdr by (simp only: committed_header_def)
  qed
  moreover have "rh_Round hdr = of_nat (Suc (length (e_rounds e)))"
    "rh_FromHeight hdr = e_lastCommittedHeight e + 1"
    "rh_Root hdr = hex_encode (Root (env_sha env) (drop (unat (e_lastCommittedHeight e)) (e_leaves e)))"
    using hdr by (simp_all add: committed_header_def)
  ultimately have "round_at (env_sha env) (e_leaves e) (length (e_rounds e)) (unat (e_lastCommittedHeight e)) hdr"
    using lt by (simp add: round_at_def to len)
  with inv have "rounds_tile (env_sha env) (e_leaves e) 0 0 (e_rounds e @ [hdr]) (length (e_leaves e))"
    by (auto simp: engine_inv_def rounds_tile_snoc to len)
  moreover have "e_supply (after_round d hdr e) = fst (ApplyBlockMint (e_supply e) ?len)"
    by (simp add: after_round_def applyBlockMint_def to case_prod_beta)
  ultimately show ?thesis
    using inv by (simp add: engine_inv_def after_round_def to len)
qed

lemma engine_inv_commit:
  assumes inv: "engine_inv env e" and n: "length (e_leaves e) + 1 < 2 ^ 64"
  shows "engine_inv env (snd (CommitRound env wr now e))"
proof -
  have le: "unat (e_lastCommittedHeight e) \<le> length (e_leaves e)"
    using inv rounds_tile_le by (fastforce simp: engine_inv_def)
  show ?thesis
  proof (cases rule: CommitRound_cases [OF n le, of env wr now, case_names none plain header])
    case none
    with inv show ?thesis by (auto simp: engine_inv_def)
  next
    case (plain hdr d err)
    with after_round_inv [OF inv n] show ?thesis by simp
  next
    case (header hdr d h c e')
    note ok = buildEternityHeader_ok [OF header(3)]
    from after_round_inv [OF inv n header(1,2)] have a: "engine_inv env (after_round d hdr e)" .
    have h: "h = header_fields env (drop (unat (e_lastCommittedHeight e)) (e_leaves e)) hdr
        (eh_CommitRoot h) (after_round d hdr e)" using ok by blast
    have prev: "eh_PrevHash h = e_lastBlockID (after_round d hdr e)" by (subst h) simp
    have e': "e' = (after_round d hdr e)\<lparr>e_lastBlockID := e_lastBlockID e', e_lastCommitRoot := eh_CommitRoot h,
        e_lastCommitHeight := eh_Height h, e_commitRootReady := True\<rparr>" using ok by blast
    have "feed_ok env (push_feed \<lparr>cr_Height = eh_Height h, cr_Root = eh_CommitRoot h, cr_Bundle = c\<rparr>
        (e_commitFeed (after_round d hdr e)))"
      using a ok by (intro feed_ok_push) (auto simp: engine_inv_def)
    moreover have "header_chain env zero32 (e_eternityHeaders (after_round d hdr e) @ [h]) (e_lastBlockID e')"
      using a ok prev by (simp add: header_chain_snoc engine_inv_def)
    ultimately have "engine_inv env (add_header h c e')"
      using a by (subst e') (simp add: engine_inv_def add_header_def)
    with header show ?thesis by simp
  qed
qed

lemma buildEternityHeader_leaves: "e_leaves (snd (buildEternityHeader env raw hdr e)) = e_leaves e"
  by (auto simp: buildEternityHeader_def Let_def split: sum.splits)

lemma record_round_leaves: "e_leaves (record_round env wr hdr e) = e_leaves e"
  using record_round_eq [of env wr hdr e] by auto

lemma CommitRound_leaves: "e_leaves (snd (CommitRound env wr now e)) = e_leaves e"
proof -
  have "e_leaves (snd (case buildEternityHeader env sub hdr (record_round env wr hdr e1) of
      (Inl _, e) \<Rightarrow> (Committed hdr, e)
    | (Inr (header, bundle), e) \<Rightarrow> (Committed hdr, add_header header bundle e))) = e_leaves e1" for sub hdr e1
    using buildEternityHeader_leaves [of env sub hdr "record_round env wr hdr e1"]
    by (auto simp: record_round_leaves add_header_def split: prod.split sum.split)
  then show ?thesis by (simp add: CommitRound_def Let_def)
qed

lemma engine_inv_record:
  assumes "engine_inv env e"
  shows "engine_inv env (RecordCommitBundle env c e) \<and> e_leaves (RecordCommitBundle env c e) = e_leaves e"
proof -
  define root where "root = (case cb_Hash (env_b3 env) (env_cbor env) c of Inr r \<Rightarrow> r | Inl _ \<Rightarrow> e_lastCommitRoot e)"
  have "RecordCommitBundle env c e = e\<lparr>e_lastCommitRoot := root, e_lastCommitHeight := e_height e,
      e_commitRootReady := True, e_commitFeed := push_feed \<lparr>cr_Height = e_height e, cr_Root = root, cr_Bundle = c\<rparr>
        (e_commitFeed e)\<rparr>"
    by (cases "cb_Hash (env_b3 env) (env_cbor env) c") (simp_all add: RecordCommitBundle_def root_def Let_def)
  moreover have "feed_ok env (push_feed \<lparr>cr_Height = e_height e, cr_Root = root, cr_Bundle = c\<rparr> (e_commitFeed e))"
    using assms by (intro feed_ok_push) (auto simp: engine_inv_def root_def)
  ultimately show ?thesis using assms by (simp add: engine_inv_def)
qed

lemma StoreReceipt_step:
  assumes "engine_inv env e"
  shows "engine_inv env (snd (StoreReceipt env wr now t applied reason e))"
    and "length (e_leaves (snd (StoreReceipt env wr now t applied reason e))) = Suc (length (e_leaves e))"
proof -
  define r where "r = make_receipt env now t applied reason e"
  obtain d where d: "snd (StoreReceipt env wr now t applied reason e)
      = e\<lparr>e_height := e_height e + 1, e_receipts := AList.update (rc_TxHash r) r (e_receipts e),
       e_leaves := e_leaves e @ [receipt_json r], e_disk := d,
       e_hub := broadcastAsync (receipt_json r) (e_hub e)\<rparr>"
    using StoreReceipt_eq [of env wr now t applied reason e] by (auto simp: Let_def r_def)
  show "engine_inv env (snd (StoreReceipt env wr now t applied reason e))"
    and "length (e_leaves (snd (StoreReceipt env wr now t applied reason e))) = Suc (length (e_leaves e))"
    unfolding d using assms by (simp_all add: engine_inv_def rounds_tile_append)
qed

lemma other_steps:
  "\<exists>q. PushRawTx b e = e\<lparr>e_txq := q\<rparr>" "\<exists>db. snd (eng_GetAccount addr e) = e\<lparr>e_db := db\<rparr>"
  by (auto simp: PushRawTx_def eng_GetAccount_def case_prod_beta)

lemma engine_step_leaves:
  assumes "engine_step env e e'"
  shows "length (e_leaves e) \<le> length (e_leaves e')"
  using assms
proof cases
  case (push b)
  then show ?thesis using other_steps(1) [of b e] by auto
next
  case (account addr)
  then show ?thesis using other_steps(2) [of addr e] by auto
next
  case (transfer feat wr t)
  then show ?thesis using eng_ApplyTransfer_eq [of env feat wr t e] by auto
next
  case (receipt wr now t applied reason)
  then show ?thesis using StoreReceipt_eq [of env wr now t applied reason e] by (auto simp: Let_def)
next
  case (commit wr now)
  then show ?thesis by (simp add: CommitRound_leaves)
next
  case (rec_bundle c)
  then show ?thesis by (simp add: RecordCommitBundle_def Let_def split: sum.splits)
next
  case (hub h)
  then show ?thesis by simp
next
  case (files d)
  then show ?thesis by simp
qed

lemma engine_inv_step:
  assumes "engine_step env e e'" and "engine_inv env e" and "length (e_leaves e') + 1 < 2 ^ 64"
  shows "engine_inv env e'"
  using assms(1)
proof cases
  case (push b)
  with other_steps(1) [of b e] show ?thesis by (auto intro: engine_inv_cong [OF assms(2)])
next
  case (account addr)
  with other_steps(2) [of addr e] show ?thesis by (auto intro: engine_inv_cong [OF assms(2)])
next
  case (transfer feat wr t)
  with eng_ApplyTransfer_eq [of env feat wr t e] show ?thesis
    by (auto intro: engine_inv_cong [OF assms(2)])
next
  case (receipt wr now t applied reason)
  with StoreReceipt_step [OF assms(2)] show ?thesis by simp
next
  case (commit wr now)
  then have "e_leaves e' = e_leaves e" by (simp add: CommitRound_leaves)
  with commit assms(3) engine_inv_commit [OF assms(2)] show ?thesis by simp
next
  case (rec_bundle c)
  with engine_inv_record [OF assms(2)] show ?thesis by simp
next
  case (hub h)
  with engine_inv_cong [OF assms(2)] show ?thesis by simp
next
  case (files d)
  with engine_inv_cong [OF assms(2)] show ?thesis by simp
qed

lemma engine_step_bound:
  "engine_step env e e' \<Longrightarrow> length (e_leaves e') + 1 < 2 ^ 64 \<Longrightarrow> length (e_leaves e) + 1 < 2 ^ 64"
  using engine_step_leaves [of env e e'] by simp

interpretation engine_sys: invariant_system "fresh_start env" "engine_step env"
    "\<lambda>e. length (e_leaves e) + 1 < 2 ^ 64" "engine_inv env" for env
  by unfold_locales (blast intro: engine_step_bound engine_inv_fresh engine_inv_step)+

abbreviation engine_reachable :: "Env \<Rightarrow> Engine \<Rightarrow> bool" where
  "engine_reachable \<equiv> engine_sys.reachable"

text \<open>
  Fact. Rounds tile the receipts: in every state that a node started without a ledger
  file reaches, by any sequence of transfers, receipts, commits, bundle injections, event
  deliveries and writes of other files, the committed rounds are numbered from 1, cover the receipts from 1 up to the last
  committed height without gap or overlap, and each carries the count and the Merkle root of exactly
  its receipts.
\<close>

theorem rounds_tile_receipts:
  assumes "engine_reachable env e" and "length (e_leaves e) + 1 < 2 ^ 64"
  shows "rounds_tile (env_sha env) (e_leaves e) 0 0 (e_rounds e) (unat (e_lastCommittedHeight e))
    \<and> unat (e_lastCommittedHeight e) \<le> length (e_leaves e) \<and> e_height e = of_nat (length (e_leaves e))"
proof -
  from engine_sys.reachable_inv [OF assms] have "engine_inv env e" .
  then show ?thesis using rounds_tile_le by (fastforce simp: engine_inv_def)
qed

text \<open>
  Fact. The Eternity headers of a reachable node form a hash chain from the zero hash to
  the current block identifier.
\<close>

theorem headers_form_chain:
  assumes "engine_reachable env e" and "length (e_leaves e) + 1 < 2 ^ 64"
  shows "header_chain env zero32 (e_eternityHeaders e) (e_lastBlockID e)"
  using engine_sys.reachable_inv [OF assms] by (simp add: engine_inv_def)

text \<open>
  Fact. The commit feed of a reachable node never holds more than 64 records, and the root
  of every record is the hash of its bundle whenever that hash can be computed.
\<close>

theorem commit_feed_bounded:
  assumes "engine_reachable env e" and "length (e_leaves e) + 1 < 2 ^ 64"
  shows "length (e_commitFeed e) \<le> 64
    \<and> (\<forall>r \<in> set (e_commitFeed e). case cb_Hash (env_b3 env) (env_cbor env) (cr_Bundle r) of
        Inr root \<Rightarrow> cr_Root r = root | Inl _ \<Rightarrow> True)"
  using engine_sys.reachable_inv [OF assms] by (auto simp: engine_inv_def feed_ok_def split: sum.split)

section \<open>Runs from any start\<close>

lemma engine_start_facts:
  assumes "engine_start env e"
  shows "e_supply e = zeroSupply" and "kv (e_db e) = []"
  using assms NewEngine_facts by (auto elim!: engine_start.cases)

text \<open>Only a commit touches the rounds, the commit position and the supply.\<close>

lemma engine_step_ledger:
  assumes "engine_step env e e'"
  shows "(\<exists>wr now. e' = snd (CommitRound env wr now e))
    \<or> e_rounds e' = e_rounds e \<and> e_lastCommittedHeight e' = e_lastCommittedHeight e \<and> e_supply e' = e_supply e"
  using assms
proof cases
  case (transfer feat wr t)
  with eng_ApplyTransfer_eq [of env feat wr t e] show ?thesis by auto
next
  case (receipt wr now t ok reason)
  with StoreReceipt_eq [of env wr now t ok reason e] show ?thesis by (auto simp: Let_def)
qed (auto simp: PushRawTx_def eng_GetAccount_def case_prod_beta RecordCommitBundle_def Let_def split: sum.split)

definition minted_since :: "Engine \<Rightarrow> Engine \<Rightarrow> bool" where
  "minted_since e0 e \<longleftrightarrow> e_lastCommittedHeight e \<noteq> 18446744073709551615
     \<and> (\<exists>new. e_rounds e = e_rounds e0 @ new \<and> e_supply e = mint_all (map rh_ToHeight new) (e_supply e0))"

lemma minted_since_step:
  assumes "engine_step env e e'" "minted_since e0 e" "length (e_leaves e') + 1 < 2 ^ 64"
  shows "minted_since e0 e'"
  using engine_step_ledger [OF assms(1)]
proof (elim disjE exE)
  fix wr now assume e': "e' = snd (CommitRound env wr now e)"
  then have n: "length (e_leaves e) + 1 < 2 ^ 64" using assms(3) by (simp add: CommitRound_leaves)
  from assms(2) obtain new where new: "e_rounds e = e_rounds e0 @ new" "e_supply e = mint_all (map rh_ToHeight new) (e_supply e0)"
    and top: "e_lastCommittedHeight e \<noteq> 18446744073709551615" by (auto simp: minted_since_def)
  have "(of_nat (length (e_leaves e)) :: u64) \<noteq> 18446744073709551615"
    unfolding below_top using n by (simp add: u64_of_nat_exact)
  then show ?thesis
    by (cases rule: CommitRound_any [OF n top, of env wr now, case_names none round])
      (use new top in \<open>auto simp: minted_since_def e' intro!: exI [of _ "new @ [hdr]" for hdr]\<close>)
qed (use assms(2) in \<open>simp add: minted_since_def\<close>)

lemma engine_runs_minted:
  assumes "(engine_step env)\<^sup>*\<^sup>* e0 e" "e_lastCommittedHeight e0 \<noteq> 18446744073709551615" "length (e_leaves e) + 1 < 2 ^ 64"
  shows "minted_since e0 e"
  using assms(1,3)
proof (induction rule: rtranclp_induct)
  case base
  with assms(2) show ?case by (simp add: minted_since_def)
next
  case (step e e')
  with engine_step_bound minted_since_step show ?case by blast
qed

text \<open>
  Property C17. The supply counters account for the rounds committed since the node started: from
  a start on any files, with or without a ledger, and after any run, the rounds are those read at
  the start followed by new ones, the total supply is the sum of the block mints at the last
  heights of the new rounds, and the three vaults add up to it. Rounds read back from a ledger do
  not count, since the counters start at zero. Assumed are fewer than \<open>2^64 - 1\<close> receipts, a commit
  position of the ledger other than \<open>2^64 - 1\<close>, and few enough new rounds for the total to fit in 64
  bits.
\<close>

theorem engine_supply_accounts:
  assumes "engine_start env e0" and "(engine_step env)\<^sup>*\<^sup>* e0 e" and "length (e_leaves e) + 1 < 2 ^ 64"
    and "e_lastCommittedHeight e0 \<noteq> 18446744073709551615"
    and "1000000 * (length (e_rounds e) - length (e_rounds e0)) < 2 ^ 64"
  shows "\<exists>new. e_rounds e = e_rounds e0 @ new
    \<and> unat (TotalMintedMas (CurrentSupply e)) = (\<Sum>h\<leftarrow>new. unat (BlockMintAt (rh_ToHeight h)))
    \<and> unat (NetworkVaultMas (CurrentSupply e)) + unat (FoundationVaultMas (CurrentSupply e))
        + unat (ExchangeVaultMas (CurrentSupply e)) = unat (TotalMintedMas (CurrentSupply e))"
proof -
  have "minted_since e0 e" using assms(2,3,4) by (intro engine_runs_minted) simp_all
  with engine_start_facts(1) [OF assms(1)] obtain new where new: "e_rounds e = e_rounds e0 @ new"
    "e_supply e = mint_all (map rh_ToHeight new) zeroSupply" by (auto simp: minted_since_def)
  with assms(5) mint_all_ok [OF supply_ok_zero, of "map rh_ToHeight new"] show ?thesis
    by (intro exI [of _ new]) (simp add: CurrentSupply_def supply_ok_def comp_def)
qed

text \<open>The commit position stays within the receipts if it was so at the start.\<close>

lemma commit_position_runs:
  assumes "(engine_step env)\<^sup>*\<^sup>* e0 e" "unat (e_lastCommittedHeight e0) \<le> length (e_leaves e0)"
    and "length (e_leaves e) + 1 < 2 ^ 64"
  shows "unat (e_lastCommittedHeight e) \<le> length (e_leaves e)"
  using assms(1,3)
proof (induction rule: rtranclp_induct)
  case (step e e')
  then have n: "length (e_leaves e) + 1 < 2 ^ 64" using engine_step_bound by blast
  with step have le: "unat (e_lastCommittedHeight e) \<le> length (e_leaves e)" by blast
  from engine_step_ledger [OF step.hyps(2)] show ?case
  proof (elim disjE exE)
    fix wr now assume e': "e' = snd (CommitRound env wr now e)"
    have "e_lastCommittedHeight e \<noteq> 18446744073709551615" using le n by (auto simp: below_top)
    then show ?thesis
      by (cases rule: CommitRound_any [OF n, of env wr now, case_names none round])
        (use le n in \<open>simp_all add: e' CommitRound_leaves u64_of_nat_exact\<close>)
  qed (use le engine_step_leaves [OF step.hyps(2)] in simp)
qed (use assms(2) in simp)

text \<open>
  Fact. A commit position ahead of the receipts blocks commits: when the ledger claims more
  committed receipts than the node has, a commit returns no round and keeps the position, whatever
  receipts are waiting, until their number exceeds the position.
\<close>

theorem CommitRound_behind:
  assumes "length (e_leaves e) + 1 < 2 ^ 64" and "e_lastCommittedHeight e \<noteq> 18446744073709551615"
    and "length (e_leaves e) \<le> unat (e_lastCommittedHeight e)"
  shows "CommitRound env wr now e = (NoRound, e\<lparr>e_height := of_nat (length (e_leaves e))\<rparr>)"
  by (cases rule: CommitRound_any [OF assms(1), of env wr now, case_names none round]) (use assms in simp_all)

theorem CommitRound_behind_witness:
  "let e = snd (StoreReceipt demo_env (\<lambda>p. False) 0 demo_transfer True []
       (NewEngine demo_env (\<lambda>p. False) [(ledgerPath, [1])] None None))
   in length (e_leaves e) = 1 \<and> fst (CommitRound demo_env (\<lambda>p. False) 0 e) = NoRound"
proof -
  define e0 where "e0 = NewEngine demo_env (\<lambda>p. False) [(ledgerPath, [1])] None None"
  define e where "e = snd (StoreReceipt demo_env (\<lambda>p. False) 0 demo_transfer True [] e0)"
  have "e_leaves e0 = []" "e_lastCommittedHeight e0 = 7"
    unfolding e0_def by code_simp+
  then have "length (e_leaves e) = 1" "e_lastCommittedHeight e = 7"
    using StoreReceipt_eq [of demo_env "\<lambda>p. False" 0 demo_transfer True "[]" e0] by (auto simp: e_def Let_def)
  with CommitRound_behind [of e demo_env "\<lambda>p. False" 0] show ?thesis
    by (simp add: Let_def flip: e0_def e_def)
qed

section \<open>Commits succeed\<close>

lemma buildEternityHeader_total:
  assumes "length (e_pub e) = 32" "length (e_priv e) = 64" and "\<forall>v. \<exists>b. env_cbor env v = Inr b"
  shows "\<exists>h c e'. buildEternityHeader env raw hdr e = (Inr (h, c), e')"
proof -
  obtain x where x: "cb_Hash (env_b3 env) (env_cbor env) (commit_bundle env hdr e) = Inr x"
    using assms(3) [rule_format, of "cb_canonicalFields (commit_bundle env hdr e)"] by (auto simp: cb_Hash_eq)
  let ?h = "header_fields env raw hdr x e"
  obtain y z where "eh_SignBytes (env_cbor env) ?h = Inr y" "eh_Hash (env_b3 env) (env_cbor env) ?h = Inr z"
    using assms(3) [rule_format, of "eh_canonicalFields ?h"]
    by (auto simp: eh_Hash_eq eh_SignBytes_def eh_CanonicalCBOR_def EncodeCBORCanonical_def)
  with x assms(1,2) show ?thesis by (simp add: buildEternityHeader_def Let_def)
qed

lemma CommitRound_header:
  assumes n: "length (e_leaves e) + 1 < 2 ^ 64"
    and lt: "unat (e_lastCommittedHeight e) < length (e_leaves e)"
    and keys: "length (e_pub e) = 32" "length (e_priv e) = 64" and cbor: "\<forall>v. \<exists>b. env_cbor env v = Inr b"
  obtains hdr h c e' where "CommitRound env wr now e = (Committed hdr, e')" "committed_header env e hdr"
    "e_rounds e' = e_rounds e @ [hdr]" "e_lastCommittedHeight e' = of_nat (length (e_leaves e))"
    "e_eternityHeaders e' = e_eternityHeaders e @ [h]" "eh_Height h = rh_ToHeight hdr"
    "e_commitFeed e' = push_feed \<lparr>cr_Height = eh_Height h, cr_Root = eh_CommitRoot h, cr_Bundle = c\<rparr> (e_commitFeed e)"
    "cb_Hash (env_b3 env) (env_cbor env) c = Inr (eh_CommitRoot h)"
proof -
  from lt have le: "unat (e_lastCommittedHeight e) \<le> length (e_leaves e)" by simp
  have sel: "e_pub (after_round d hdr e) = e_pub e" "e_priv (after_round d hdr e) = e_priv e"
    "e_rounds (after_round d hdr e) = e_rounds e @ [hdr]"
    "e_eternityHeaders (after_round d hdr e) = e_eternityHeaders e"
    "e_commitFeed (after_round d hdr e) = e_commitFeed e"
    "e_lastCommittedHeight (after_round d hdr e) = rh_ToHeight hdr" for d hdr
    by (simp_all add: after_round_def)
  show thesis
  proof (cases rule: CommitRound_cases [OF n le, of env wr now, case_names none plain header])
    case none
    with lt show thesis by simp
  next
    case (plain hdr d err)
    then show thesis
      using buildEternityHeader_total [of "after_round d hdr e" env
          "drop (unat (e_lastCommittedHeight e)) (e_leaves e)" hdr] keys cbor by (auto simp: sel)
  next
    case (header hdr d h c e')
    note ok = buildEternityHeader_ok [OF header(3)]
    have to: "rh_ToHeight hdr = of_nat (length (e_leaves e))"
      using header(2) by (simp add: committed_header_def)
    have "unat (rh_ToHeight hdr) = length (e_leaves e)" using n by (simp add: to unat_of_nat)
    with lt have nz: "rh_ToHeight hdr \<noteq> 0" by auto
    have h: "h = header_fields env (drop (unat (e_lastCommittedHeight e)) (e_leaves e)) hdr
        (eh_CommitRoot h) (after_round d hdr e)" using ok by blast
    have height: "eh_Height h = rh_ToHeight hdr" by (subst h) (simp add: nz)
    have e': "e' = (after_round d hdr e)\<lparr>e_lastBlockID := e_lastBlockID e', e_lastCommitRoot := eh_CommitRoot h,
        e_lastCommitHeight := eh_Height h, e_commitRootReady := True\<rparr>"
      and cb: "cb_Hash (env_b3 env) (env_cbor env) c = Inr (eh_CommitRoot h)" using ok by blast+
    show thesis
    proof (rule that [OF header(4,2) _ _ _ height _ cb])
      show "e_rounds (add_header h c e') = e_rounds e @ [hdr]"
        by (subst e') (simp add: add_header_def sel)
      show "e_lastCommittedHeight (add_header h c e') = of_nat (length (e_leaves e))"
        by (subst e') (simp add: add_header_def sel to)
      show "e_eternityHeaders (add_header h c e') = e_eternityHeaders e @ [h]"
        by (subst e') (simp add: add_header_def sel)
      show "e_commitFeed (add_header h c e') = push_feed \<lparr>cr_Height = eh_Height h, cr_Root = eh_CommitRoot h,
          cr_Bundle = c\<rparr> (e_commitFeed e)"
        by (subst e') (simp add: add_header_def sel)
    qed
  qed
qed

text \<open>
  Property C12. Commits make progress: in any state of an engine with a usable key pair, while CBOR
  encodes every value and there are fewer than 2^64 - 1 receipts, a commit while receipts lie above
  the commit position produces a round for all of them, appends an Eternity header of the same height and a matching feed record, so that both lookups by that
  height find them, and leaves nothing uncommitted.
\<close>

theorem CommitRound_progress:
  assumes "length (e_leaves e) + 1 < 2 ^ 64" and "unat (e_lastCommittedHeight e) < length (e_leaves e)"
    and "length (e_pub e) = 32" and "length (e_priv e) = 64" and "\<forall>v. \<exists>b. env_cbor env v = Inr b"
  shows "\<exists>hdr h c e'. CommitRound env wr now e = (Committed hdr, e') \<and> e_rounds e' = e_rounds e @ [hdr]
    \<and> e_lastCommittedHeight e' = of_nat (length (e_leaves e')) \<and> LatestEternityHeader e' = Some h
    \<and> EternityHeaderAt (rh_ToHeight hdr) e' = Some h \<and> CommitBundleAt (rh_ToHeight hdr) e' = Some c
    \<and> cb_Hash (env_b3 env) (env_cbor env) c = Inr (eh_CommitRoot h)"
proof -
  obtain hdr h c e' where *: "CommitRound env wr now e = (Committed hdr, e')"
    "e_rounds e' = e_rounds e @ [hdr]" "e_lastCommittedHeight e' = of_nat (length (e_leaves e))"
    "e_eternityHeaders e' = e_eternityHeaders e @ [h]" "eh_Height h = rh_ToHeight hdr"
    "e_commitFeed e' = push_feed \<lparr>cr_Height = eh_Height h, cr_Root = eh_CommitRoot h, cr_Bundle = c\<rparr> (e_commitFeed e)"
    "cb_Hash (env_b3 env) (env_cbor env) c = Inr (eh_CommitRoot h)"
    using CommitRound_header [OF assms] by metis
  moreover have "e_leaves e' = e_leaves e" using CommitRound_leaves [of env wr now e] *(1) by simp
  ultimately show ?thesis
    by (auto simp: LatestEternityHeader_def EternityHeaderAt_def CommitBundleAt_def push_feed_def)
qed

section \<open>A concrete run\<close>

text \<open>A node with a key pair and no files stores one receipt and commits.\<close>

definition run0 :: Engine where
  "run0 = NewEngine demo_env (\<lambda>p. False) [] (Some (replicate 32 1, replicate 64 2)) None"

definition run1 :: Engine where
  "run1 = snd (StoreReceipt demo_env (\<lambda>p. False) 0 demo_transfer True [] run0)"

definition run2 :: Engine where
  "run2 = snd (CommitRound demo_env (\<lambda>p. False) 0 run1)"

lemma run_reachable:
  "engine_reachable demo_env run0" "engine_reachable demo_env run1" "engine_reachable demo_env run2"
proof -
  show r0: "engine_reachable demo_env run0"
    unfolding run0_def by (rule engine_sys.reachable_init, rule fresh_start.intros) simp
  show r1: "engine_reachable demo_env run1"
    unfolding run1_def by (rule engine_sys.reachable_step [OF r0], rule engine_step.receipt)
  show "engine_reachable demo_env run2"
    unfolding run2_def by (rule engine_sys.reachable_step [OF r1], rule engine_step.commit)
qed

lemma run0_facts:
  "e_leaves run0 = [] \<and> e_rounds run0 = [] \<and> e_eternityHeaders run0 = [] \<and> e_commitFeed run0 = []
   \<and> e_lastCommittedHeight run0 = 0 \<and> e_pub run0 = replicate 32 1 \<and> e_priv run0 = replicate 64 2"
proof -
  obtain db d where "kv db = []" "map_of d ledgerPath = None" "run0 = snd (loadLedger demo_env ledgerPath
      ((blank_engine [] (replicate 32 1, replicate 64 2))\<lparr>e_db := db, e_disk := d\<rparr>))"
    using NewEngine_load [of "[]" demo_env "\<lambda>p. False" "Some (replicate 32 1, replicate 64 2)" None]
    by (auto simp: run0_def choose_key_def)
  then have "run0 = (blank_engine [] (replicate 32 1, replicate 64 2))\<lparr>e_db := db, e_disk := d\<rparr>"
    by (simp add: loadLedger_def ReadFile_def)
  then show ?thesis by (elim ssubst) (simp add: blank_engine_def)
qed

lemma run1_facts:
  "length (e_leaves run1) = 1 \<and> e_rounds run1 = [] \<and> e_eternityHeaders run1 = [] \<and> e_commitFeed run1 = []
   \<and> e_lastCommittedHeight run1 = 0 \<and> length (e_pub run1) = 32 \<and> length (e_priv run1) = 64"
  using StoreReceipt_eq [of demo_env "\<lambda>p. False" 0 demo_transfer True "[]" run0] run0_facts
  by (auto simp: run1_def Let_def)

lemma demo_cbor: "\<forall>v. \<exists>b. env_cbor demo_env v = Inr b"
  by (simp add: demo_env_def rfc8949_def)

lemma run2_facts:
  "length (e_leaves run2) = 1 \<and> length (e_rounds run2) = 1 \<and> length (e_eternityHeaders run2) = 1
   \<and> length (e_commitFeed run2) = 1 \<and> e_lastCommittedHeight run2 = 1"
proof -
  obtain hdr h c e' where "CommitRound demo_env (\<lambda>p. False) 0 run1 = (Committed hdr, e')"
    "e_rounds e' = e_rounds run1 @ [hdr]" "e_lastCommittedHeight e' = of_nat (length (e_leaves run1))"
    "e_eternityHeaders e' = e_eternityHeaders run1 @ [h]"
    "e_commitFeed e' = push_feed \<lparr>cr_Height = eh_Height h, cr_Root = eh_CommitRoot h, cr_Bundle = c\<rparr> (e_commitFeed run1)"
    by (rule CommitRound_header [of run1 demo_env "\<lambda>p. False" 0]) (use run1_facts demo_cbor in auto)
  moreover from this have "e_leaves run2 = e_leaves run1"
    using CommitRound_leaves [of demo_env "\<lambda>p. False" 0 run1] by (simp add: run2_def)
  ultimately show ?thesis using run1_facts by (simp add: run2_def push_feed_def)
qed

theorem rounds_tile_receipts_witness:
  "length (e_rounds run2) = 1
   \<and> rounds_tile (env_sha demo_env) (e_leaves run2) 0 0 (e_rounds run2) (unat (e_lastCommittedHeight run2))"
  using rounds_tile_receipts [OF run_reachable(3)] run2_facts by simp

theorem headers_form_chain_witness:
  "length (e_eternityHeaders run2) = 1
   \<and> header_chain demo_env zero32 (e_eternityHeaders run2) (e_lastBlockID run2)"
  using headers_form_chain [OF run_reachable(3)] run2_facts by simp

theorem commit_feed_bounded_witness:
  "length (e_commitFeed run2) = 1 \<and> length (e_commitFeed run2) \<le> 64"
  using commit_feed_bounded [OF run_reachable(3)] run2_facts by simp

theorem engine_supply_accounts_witness:
  "length (e_rounds run2) = 1
   \<and> unat (TotalMintedMas (CurrentSupply run2)) = (\<Sum>h\<leftarrow>e_rounds run2. unat (BlockMintAt (rh_ToHeight h)))"
proof -
  have start: "engine_start demo_env run0" unfolding run0_def by (rule engine_start.intros)
  have "engine_step demo_env run0 run1" unfolding run1_def by (rule engine_step.receipt)
  moreover have "engine_step demo_env run1 run2" unfolding run2_def by (rule engine_step.commit)
  ultimately have run: "(engine_step demo_env)\<^sup>*\<^sup>* run0 run2" by (rule rtranclp.rtrancl_into_rtrancl [OF r_into_rtranclp])
  show ?thesis using engine_supply_accounts [OF start run] run0_facts run2_facts by simp
qed

theorem CommitRound_progress_witness:
  "\<exists>hdr e'. CommitRound demo_env (\<lambda>p. False) 0 run1 = (Committed hdr, e') \<and> length (e_leaves e') = 1"
  using CommitRound_progress [OF _ _ _ _ demo_cbor, of run1 "\<lambda>p. False" 0] run1_facts
    CommitRound_leaves [of demo_env "\<lambda>p. False" 0 run1] by fastforce

end
