(* ===== verification/Engine_Ledger.thy ===== *)
theory Engine_Ledger
  imports Engine_Inv
begin

text \<open>
  Persistence of the receipts and rounds: what \<open>saveLedger\<close> writes and \<open>loadLedger\<close> reads back
  (\<open>internal/app/engine.go\<close>), and what a transfer leaves behind when the state file cannot be
  written.
\<close>

section \<open>Receipts and leaves\<close>

text \<open>
  Every stored receipt is filed under its transaction hash, and its height is the position of its
  JSON text among the leaves.
\<close>

definition receipt_filed :: "bytes list \<Rightarrow> string \<times> TxReceipt \<Rightarrow> bool" where
  "receipt_filed ls kr \<longleftrightarrow> rc_TxHash (snd kr) = fst kr \<and> unat (rc_Height (snd kr)) < length ls
     \<and> ls ! unat (rc_Height (snd kr)) = receipt_json (snd kr)"

definition receipts_inv :: "Engine \<Rightarrow> bool" where
  "receipts_inv e \<longleftrightarrow> gm_wf (e_receipts e) \<and> distinct (map (rc_Height \<circ> snd) (e_receipts e))
     \<and> (\<forall>kr \<in> set (e_receipts e). receipt_filed (e_leaves e) kr)"

lemma receipts_inv_cong:
  "receipts_inv e \<Longrightarrow> e_receipts e' = e_receipts e \<Longrightarrow> e_leaves e' = e_leaves e \<Longrightarrow> receipts_inv e'"
  by (simp add: receipts_inv_def)

lemma receipt_filed_append: "receipt_filed ls kr \<Longrightarrow> receipt_filed (ls @ xs) kr"
  by (auto simp: receipt_filed_def nth_append)

lemma set_update_subset: "set (AList.update k v m) \<subseteq> insert (k, v) (set m)"
  by (induction m) auto

lemma distinct_update_fresh:
  "distinct (map (f \<circ> snd) m) \<Longrightarrow> f v \<notin> f ` snd ` set m \<Longrightarrow> distinct (map (f \<circ> snd) (AList.update k v m))"
proof (induction m)
  case (Cons kv m)
  have "(f \<circ> snd) ` set (AList.update k v m) \<subseteq> insert (f v) (f ` snd ` set m)"
    using set_update_subset [of k v m] by force
  then have "f (snd kv) \<notin> (f \<circ> snd) ` set (AList.update k v m)"
    using Cons.prems by (auto simp: image_image comp_def)
  with Cons show ?case by (cases kv) auto
qed simp

lemma receipts_inv_store:
  assumes inv: "receipts_inv e" and n: "length (e_leaves e) < 2 ^ 64"
  shows "receipts_inv (snd (StoreReceipt env wr now t applied reason e))"
proof -
  define r where "r = make_receipt env now t applied reason e"
  have h: "unat (rc_Height r) = length (e_leaves e)"
    using n by (simp add: r_def make_receipt_def unat_of_nat)
  have rs: "e_receipts (snd (StoreReceipt env wr now t applied reason e)) = AList.update (rc_TxHash r) r (e_receipts e)"
    and ls: "e_leaves (snd (StoreReceipt env wr now t applied reason e)) = e_leaves e @ [receipt_json r]"
    using StoreReceipt_eq [of env wr now t applied reason e] by (auto simp: Let_def r_def)
  have "rc_Height r \<notin> rc_Height ` snd ` set (e_receipts e)"
    using inv h by (fastforce simp: receipts_inv_def receipt_filed_def)
  with inv have "distinct (map (rc_Height \<circ> snd) (AList.update (rc_TxHash r) r (e_receipts e)))"
    by (intro distinct_update_fresh) (simp_all add: receipts_inv_def)
  moreover have "receipt_filed (e_leaves e @ [receipt_json r]) (rc_TxHash r, r)"
    using h by (simp add: receipt_filed_def)
  ultimately show ?thesis
    using inv set_update_subset [of "rc_TxHash r" r "e_receipts e"] receipt_filed_append
    by (auto simp: receipts_inv_def rs ls gomap_simps)
qed

lemma CommitRound_receipts: "e_receipts (snd (CommitRound env wr now e)) = e_receipts e"
proof -
  have b: "e_receipts (snd (buildEternityHeader env sub hdr e1)) = e_receipts e1" for sub hdr e1
    by (auto simp: buildEternityHeader_def Let_def split: sum.splits)
  have r: "e_receipts (record_round env wr hdr e1) = e_receipts e1" for hdr e1
    using record_round_eq [of env wr hdr e1] by auto
  have "e_receipts (snd (case buildEternityHeader env sub hdr (record_round env wr hdr e1) of
      (Inl _, e) \<Rightarrow> (Committed hdr, e)
    | (Inr (header, bundle), e) \<Rightarrow> (Committed hdr, add_header header bundle e))) = e_receipts e1" for sub hdr e1
    using b [of sub hdr "record_round env wr hdr e1"]
    by (auto simp: r add_header_def split: prod.split sum.split)
  then show ?thesis by (simp add: CommitRound_def Let_def)
qed

lemma receipts_inv_step:
  assumes "engine_step env e e'" and "receipts_inv e" and "length (e_leaves e') + 1 < 2 ^ 64"
  shows "receipts_inv e'"
  using assms(1)
proof cases
  case (push b)
  with other_steps(1) [of b e] show ?thesis by (auto intro: receipts_inv_cong [OF assms(2)])
next
  case (account addr)
  with other_steps(2) [of addr e] show ?thesis by (auto intro: receipts_inv_cong [OF assms(2)])
next
  case (transfer feat wr t)
  with eng_ApplyTransfer_eq [of env feat wr t e] show ?thesis
    by (auto intro: receipts_inv_cong [OF assms(2)])
next
  case (receipt wr now t applied reason)
  moreover have "length (e_leaves e) < 2 ^ 64" using engine_step_leaves [OF assms(1)] assms(3) by simp
  ultimately show ?thesis using receipts_inv_store [OF assms(2)] by simp
next
  case (commit wr now)
  then show ?thesis by (auto intro: receipts_inv_cong [OF assms(2)] simp: CommitRound_receipts CommitRound_leaves)
next
  case (rec_bundle c)
  then show ?thesis
    by (auto intro: receipts_inv_cong [OF assms(2)] simp: RecordCommitBundle_def Let_def split: sum.splits)
next
  case (hub h)
  with receipts_inv_cong [OF assms(2)] show ?thesis by simp
next
  case (files d)
  with receipts_inv_cong [OF assms(2)] show ?thesis by simp
qed

interpretation receipts_sys: invariant_system "fresh_start env" "engine_step env"
    "\<lambda>e. length (e_leaves e) + 1 < 2 ^ 64" receipts_inv for env
proof unfold_locales
  show "receipts_inv e" if "fresh_start env e" for e
    using fresh_start_eq [OF that] by (simp add: receipts_inv_def)
qed (rule receipts_inv_step)

text \<open>What storing a receipt leaves behind.\<close>

lemma StoreReceipt_result:
  "fst (StoreReceipt env wr now t ok reason e) = make_receipt env now t ok reason e"
  "e_db (snd (StoreReceipt env wr now t ok reason e)) = e_db e"
  "GetReceipt (tx_Hash (env_sha env) t) (snd (StoreReceipt env wr now t ok reason e))
     = Some (make_receipt env now t ok reason e)"
proof -
  obtain d where "StoreReceipt env wr now t ok reason e = (make_receipt env now t ok reason e,
      e\<lparr>e_height := e_height e + 1, e_receipts := AList.update (tx_Hash (env_sha env) t)
        (make_receipt env now t ok reason e) (e_receipts e),
      e_leaves := e_leaves e @ [receipt_json (make_receipt env now t ok reason e)], e_disk := d,
      e_hub := broadcastAsync (receipt_json (make_receipt env now t ok reason e)) (e_hub e)\<rparr>)"
    using StoreReceipt_eq [of env wr now t ok reason e] by (auto simp: Let_def make_receipt_def)
  then show "fst (StoreReceipt env wr now t ok reason e) = make_receipt env now t ok reason e"
    "e_db (snd (StoreReceipt env wr now t ok reason e)) = e_db e"
    "GetReceipt (tx_Hash (env_sha env) t) (snd (StoreReceipt env wr now t ok reason e))
       = Some (make_receipt env now t ok reason e)"
    by (simp_all add: GetReceipt_def gomap_simps)
qed

lemma make_receipt_sel [simp]:
  "rc_TxHash (make_receipt env now t ok reason e) = tx_Hash (env_sha env) t"
  "rc_Status (make_receipt env now t ok reason e) = (if ok then ''applied'' else ''rejected:'' @ reason)"
  "rc_Amount (make_receipt env now t ok reason e) = tr_AmountMas t"
  by (simp_all add: make_receipt_def)

section \<open>Reading the ledger back\<close>

text \<open>Sorting the receipts by height restores the leaves when no receipt was overwritten.\<close>

lemma sorted_upt_words:
  fixes xs :: "u64 list"
  assumes "sorted xs" "distinct xs" "\<forall>x \<in> set xs. unat x < length xs"
  shows "map unat xs = [0..<length xs]"
proof -
  have "set (map unat xs) = {0..<length xs}"
  proof (rule card_subset_eq)
    show "card (set (map unat xs)) = card {0..<length xs}"
      using assms(2) distinct_card [of "map unat xs"] by (simp add: distinct_map inj_on_def u64_eq_iff)
  qed (use assms(3) in auto)
  moreover have "sorted (map unat xs)" using assms(1)
    by (simp add: sorted_map) (erule sorted_wrt_mono_rel [rotated], simp add: u64_le_iff)
  moreover have "distinct (map unat xs)" using assms(2) by (simp add: distinct_map inj_on_def u64_eq_iff)
  ultimately show ?thesis by (intro sorted_distinct_set_unique) simp_all
qed

lemma sorted_receipts:
  assumes "receipts_inv e" and len: "length (e_receipts e) = length (e_leaves e)"
  shows "map receipt_json (sort_key rc_Height (map snd (e_receipts e))) = e_leaves e"
proof -
  let ?rs = "sort_key rc_Height (map snd (e_receipts e))"
  have filed: "unat (rc_Height r) < length (e_leaves e) \<and> e_leaves e ! unat (rc_Height r) = receipt_json r"
    if "r \<in> set ?rs" for r
    using that assms(1) by (auto simp: receipts_inv_def receipt_filed_def)
  have "distinct (map rc_Height (map snd (e_receipts e)))" using assms(1) by (simp add: receipts_inv_def)
  then have "distinct (map rc_Height ?rs)" by (metis distinct_map distinct_sort set_sort)
  then have "map unat (map rc_Height ?rs) = [0..<length (map rc_Height ?rs)]"
    using filed len by (intro sorted_upt_words) (auto simp: image_iff)
  then have idx: "map (\<lambda>r. unat (rc_Height r)) ?rs = [0..<length (e_leaves e)]"
    using len by (simp add: comp_def)
  have "map receipt_json ?rs = map (\<lambda>r. e_leaves e ! unat (rc_Height r)) ?rs"
    using filed by (intro map_cong) simp_all
  also have "\<dots> = map ((!) (e_leaves e)) (map (\<lambda>r. unat (rc_Height r)) ?rs)" by (simp add: comp_def)
  also have "\<dots> = e_leaves e" by (simp only: idx map_nth)
  finally show ?thesis .
qed

lemma fold_update_lookup:
  assumes "\<forall>r \<in> set rs. map_of m (rc_TxHash r) = Some r" and "rc_TxHash ` set rs = fst ` set m"
  shows "map_of (fold (\<lambda>r. AList.update (rc_TxHash r) r) rs []) = map_of m"
proof -
  have gen: "map_of (fold (\<lambda>r. AList.update (rc_TxHash r) r) rs m0) k
      = (if k \<in> rc_TxHash ` set rs then map_of m k else map_of m0 k)" for k m0
    using assms(1) by (induction rs arbitrary: m0) (auto simp: update_conv')
  show ?thesis
  proof
    show "map_of (fold (\<lambda>r. AList.update (rc_TxHash r) r) rs []) k = map_of m k" for k
      using gen [of "[]" k] assms(2) map_of_eq_None_iff [of m k] by (cases "k \<in> fst ` set m") simp_all
  qed
qed

lemma reloaded_receipts:
  assumes "receipts_inv e"
  shows "map_of (fold (\<lambda>r. AList.update (rc_TxHash r) r) (sort_key rc_Height (map snd (e_receipts e))) [])
    = map_of (e_receipts e)"
proof (rule fold_update_lookup)
  have key: "rc_TxHash (snd kr) = fst kr" if "kr \<in> set (e_receipts e)" for kr
    using that assms by (simp add: receipts_inv_def receipt_filed_def)
  then show "rc_TxHash ` set (sort_key rc_Height (map snd (e_receipts e))) = fst ` set (e_receipts e)"
    by (simp add: image_image cong: image_cong_simp)
  show "\<forall>r \<in> set (sort_key rc_Height (map snd (e_receipts e))). map_of (e_receipts e) (rc_TxHash r) = Some r"
    using key assms by (auto simp: receipts_inv_def)
qed

text \<open>
  Property C13. The ledger file is a faithful copy while no transaction was recorded twice: if a
  reachable node writes its ledger, and the JSON codec reads back what it wrote, then any node that
  loads the file has the same leaves and height, the same rounds and commit position, and answers
  every receipt query as before.
\<close>

theorem ledger_roundtrip:
  assumes "engine_reachable env e" and "length (e_leaves e) + 1 < 2 ^ 64"
    and "length (e_receipts e) = length (e_leaves e)" and "wr path"
    and "env_decLedger env (env_encLedger env (ledger_of e)) = Some (ledger_of e)"
    and "e_disk e2 = e_disk (snd (saveLedger env wr path e))"
  shows "let e' = snd (loadLedger env path e2)
    in fst (loadLedger env path e2) = Inr () \<and> e_leaves e' = e_leaves e \<and> e_height e' = e_height e
      \<and> e_rounds e' = e_rounds e \<and> e_lastCommittedHeight e' = e_lastCommittedHeight e
      \<and> (\<forall>h. GetReceipt h e' = GetReceipt h e)"
proof -
  have inv: "receipts_inv e" using receipts_sys.reachable_inv [OF assms(1,2)] .
  have "e_height e = of_nat (length (e_leaves e))"
    using engine_sys.reachable_inv [OF assms(1,2)] by (simp add: engine_inv_def)
  moreover have "ReadFile path e2 = Some (env_encLedger env (ledger_of e))"
    using assms(4,6) by (simp add: ReadFile_def saveLedger_def WriteFile_def update_conv')
  moreover have "sort_key rc_Height (lg_Receipts (ledger_of e)) = sort_key rc_Height (map snd (e_receipts e))"
    by (simp add: ledger_of_def sort_key_id_if_sorted)
  moreover have "length (lg_Receipts (ledger_of e)) = length (e_leaves e)"
    using assms(3) by (simp add: ledger_of_def)
  ultimately show ?thesis
    using assms(5) sorted_receipts [OF inv assms(3)] reloaded_receipts [OF inv]
    by (simp add: loadLedger_def Let_def GetReceipt_def) (simp add: ledger_of_def)
qed

lemma run1_ledger: "ledger_of run1 = demo_ledger1"
proof -
  have "e_receipts run0 = []" using fresh_start_eq [of demo_env run0]
    by (simp add: run0_def fresh_start.intros)
  moreover have "make_receipt demo_env 0 demo_transfer True [] run0 = demo_receipt"
    using run0_facts by (simp add: make_receipt_def demo_receipt_def demo_transfer_def demo_env_def)
  ultimately show ?thesis
    using StoreReceipt_eq [of demo_env "\<lambda>p. False" 0 demo_transfer True "[]" run0] run0_facts
    by (auto simp: run1_def Let_def ledger_of_def demo_ledger1_def)
qed

theorem ledger_roundtrip_witness:
  "length (e_leaves run1) = 1
   \<and> e_leaves (snd (loadLedger demo_env ledgerPath (snd (saveLedger demo_env (\<lambda>p. True) ledgerPath run1)))) = e_leaves run1"
proof -
  have "length (e_receipts run1) = 1"
    using arg_cong [OF run1_ledger, of "length \<circ> lg_Receipts"] by (simp add: ledger_of_def demo_ledger1_def)
  moreover have "env_decLedger demo_env (env_encLedger demo_env (ledger_of run1)) = Some (ledger_of run1)"
    by (simp add: run1_ledger demo_env_def)
  ultimately show ?thesis
    using ledger_roundtrip [OF run_reachable(2), where path = ledgerPath and wr = "\<lambda>p. True"] run1_facts
    by (simp add: Let_def)
qed

end
