(* ===== verification/Rpc_Base.thy ===== *)
theory Rpc_Base
  imports Engine_Ledger
begin

text \<open>
  What the HTTP layer (\<open>internal/rpc\<close>) shares: JSON values, requests and responses, the
  configuration read from the environment, the state of the router, and the small helpers of
  \<open>router.go\<close>, \<open>metrics.go\<close> and \<open>r2p_cursor.go\<close>.

  A request body is represented by what \<open>json.Unmarshal\<close> makes of it, \<open>None\<close> when it fails; a
  response body by the value given to the JSON encoder. The members of an object are listed in the
  order in which the code adds them; clients see them sorted by name. The time formatted for
  display is an argument of the handlers that send it. A JSON number is an integer, or its text when
  it is not written as one.
\<close>

section \<open>Values\<close>

datatype json =
  JNull | JBool bool | JNum int | JDec string | JStr string | JArr "json list" | JObj "(string \<times> json) list"

definition jget :: "string \<Rightarrow> json \<Rightarrow> json option" where
  "jget k j = (case j of JObj kvs \<Rightarrow> map_of kvs k | _ \<Rightarrow> None)"

definition jget_str :: "string \<Rightarrow> json \<Rightarrow> string" where
  "jget_str k j = (case jget k j of Some (JStr s) \<Rightarrow> s | _ \<Rightarrow> [])"

definition ju64 :: "u64 \<Rightarrow> json" where "ju64 x = JNum (uint x)"
definition ji64 :: "i64 \<Rightarrow> json" where "ji64 x = JNum (sint x)"

text \<open>The body of a request to \<open>/tx\<close>, \<open>txPre\<close>.\<close>

record txPre =
  tp_Type :: i64
  tp_From :: string
  tp_To :: string
  tp_AmountMas :: i64
  tp_FeeMas :: i64
  tp_Nonce :: i64
  tp_ChainID :: string
  tp_ExpiryHeight :: i64
  tp_MsgCommitment :: string
  tp_Sig :: string

record 'b Request =
  rq_Method :: string
  rq_Path :: string
  rq_Header :: "string \<Rightarrow> string"   \<comment> \<open>empty when absent\<close>
  rq_Query :: "string \<Rightarrow> string"
  rq_Remote :: string
  rq_Body :: "'b option"

record Response =
  rs_status :: nat
  rs_header :: "(string \<times> string) list"
  rs_body :: "json option"

definition ctJSON :: "(string \<times> string) list" where
  "ctJSON = [(''Content-Type'', ''application/json'')]"

definition ctJSON8 :: "(string \<times> string) list" where
  "ctJSON8 = [(''Content-Type'', ''application/json; charset=utf-8'')]"

text \<open>\<open>w.WriteHeader\<close> alone, and a status (200 when none is set) followed by an encoded value.\<close>

definition status_only :: "nat \<Rightarrow> Response" where
  "status_only st = \<lparr>rs_status = st, rs_header = [], rs_body = None\<rparr>"

definition reply :: "nat \<Rightarrow> (string \<times> string) list \<Rightarrow> (string \<times> json) list \<Rightarrow> Response" where
  "reply st hs kvs = \<lparr>rs_status = st, rs_header = hs, rs_body = Some (JObj kvs)\<rparr>"

section \<open>State and configuration\<close>

record r2pRecord =
  r_ID :: string
  r_From :: string
  r_To :: string
  r_AmountMas :: u64
  r_Memo :: string
  r_Status :: string
  r_CreatedUTC :: i64
  r_PaidUTC :: i64
  r_DeclinedUTC :: i64
  r_CanceledUTC :: i64
  r_TxHash :: string
  r_Alias :: string
  r_AliasVersion :: i64

text \<open>
  The environment: process variables, the Ed25519 check, the JSON codec of the request-to-pay
  file, which paths can be written, and whether \<open>os.Rename\<close> succeeds.
\<close>

record Config =
  c_env :: Env
  c_getenv :: "string \<Rightarrow> string"
  c_verify :: "bytes \<Rightarrow> bytes \<Rightarrow> bytes \<Rightarrow> bool"
  c_encR2P :: "(string, r2pRecord) gomap \<Rightarrow> bytes"
  c_decR2P :: "bytes \<Rightarrow> (string, r2pRecord) gomap option"
  c_wr :: "string \<Rightarrow> bool"
  c_rename :: bool

record Router =
  rt_eng :: Engine
  rt_store :: "(string, r2pRecord) gomap"
  rt_path :: string
  rt_bindMismatch :: nat
  rt_badSig :: nat

definition incBindMismatch :: "Router \<Rightarrow> Router" where
  "incBindMismatch rt = rt\<lparr>rt_bindMismatch := rt_bindMismatch rt + 1\<rparr>"

definition incBadSigJSON :: "Router \<Rightarrow> Router" where
  "incBadSigJSON rt = rt\<lparr>rt_badSig := rt_badSig rt + 1\<rparr>"

section \<open>Numbers\<close>

text \<open>\<open>strconv.ParseInt(s, 10, 64)\<close>.\<close>

definition ParseInt :: "string \<Rightarrow> i64 option" where
  "ParseInt s =
     (let neg = (s \<noteq> [] \<and> hd s = CHR ''-'');
          ds = (if s \<noteq> [] \<and> (hd s = CHR ''-'' \<or> hd s = CHR ''+'') then tl s else s)
      in if ds = [] then None
         else case parse_digits 0 ds of
           None \<Rightarrow> None
         | Some n \<Rightarrow>
             if neg then (if n \<le> 2 ^ 63 then Some (- of_nat n) else None)
             else (if n < 2 ^ 63 then Some (of_nat n) else None))"

definition masPerMicro :: u64 where "masPerMicro = 10"
definition masPerTHO :: u64 where "masPerTHO = masPerMicro * 1000000"

definition minFeeMas :: "u64 \<Rightarrow> i64 \<Rightarrow> u64" where
  "minFeeMas amountMas bps =
     (let minByBps = (amountMas * bps + 9999) div 10000 in if minByBps < 1 then 1 else minByBps)"

definition feeBpsEnv :: "(string \<Rightarrow> string) \<Rightarrow> i64" where
  "feeBpsEnv getenv =
     (let s = trim_space (getenv ''THOMAS_FEE_BPS'')
      in if s = [] then 25
         else case ParseInt s of Some v \<Rightarrow> if 0 \<le> sint v then v else 25 | None \<Rightarrow> 25)"

definition maxMsgCommitLenEnv :: "(string \<Rightarrow> string) \<Rightarrow> i64" where
  "maxMsgCommitLenEnv getenv =
     (let s = trim_space (getenv ''THOMAS_MAX_MSG_COMMIT_LEN'')
      in if s = [] then 256
         else case ParseInt s of Some v \<Rightarrow> if 0 < sint v then v else 256 | None \<Rightarrow> 256)"

definition feeBps :: "Config \<Rightarrow> i64" where
  "feeBps c = feeBpsEnv (c_getenv c)"

definition expectedChainID :: string where
  "expectedChainID = DefaultChainID"

definition r2pUpdatedAt :: "r2pRecord \<Rightarrow> i64" where
  "r2pUpdatedAt x =
     (let m = r_CreatedUTC x;
          m = (if m <s r_PaidUTC x then r_PaidUTC x else m);
          m = (if m <s r_DeclinedUTC x then r_DeclinedUTC x else m)
      in if m <s r_CanceledUTC x then r_CanceledUTC x else m)"

section \<open>Engine methods found by reflection\<close>

text \<open>
  The router looks engine methods up by name in a list of candidates and calls the first that
  exists. The tables list the methods of the engine that appear among the candidates.
\<close>

fun first_method :: "string list \<Rightarrow> (string \<times> 'm) list \<Rightarrow> 'm option" where
  "first_method [] ms = None"
| "first_method (n # ns) ms = (case map_of ms n of Some m \<Rightarrow> Some m | None \<Rightarrow> first_method ns ms)"

text \<open>\<open>toMapFromAny\<close> on what the alias methods return.\<close>

definition alias_map :: "string option \<Rightarrow> json" where
  "alias_map owner = (case owner of
     Some o' \<Rightarrow> JObj [(''owner'', JStr o'), (''version'', JNum 1)] | None \<Rightarrow> JObj [])"

definition callEngResolveAlias :: "Env \<Rightarrow> Engine \<Rightarrow> string \<Rightarrow> json option" where
  "callEngResolveAlias env e name =
     (case first_method [''ResolveAliasFile'', ''ResolveAlias'', ''AliasResolve'', ''GetAlias'',
         ''GetAliasRecord'', ''AliasLookup'']
         [(''ResolveAliasFile'', ResolveAliasFile), (''ResolveAlias'', ResolveAlias)] of
        None \<Rightarrow> None
      | Some f \<Rightarrow> (case f env name e of (owner, ok) \<Rightarrow> Some (if ok then alias_map owner else JObj [])))"

definition callEngReverseAlias :: "Env \<Rightarrow> Engine \<Rightarrow> string \<Rightarrow> (string \<times> bool) option" where
  "callEngReverseAlias env e addr =
     map_option (\<lambda>f. f env addr e)
       (first_method [''ReverseAliasFile'', ''ReverseAlias'', ''AliasReverse'', ''GetAliasByAddress'', ''AliasOf'']
         [(''ReverseAliasFile'', ReverseAliasFile), (''ReverseAlias'', ReverseAlias)])"

definition extractInt64Map :: "json \<Rightarrow> string \<Rightarrow> i64" where
  "extractInt64Map m key =
     (case jget key m of
        Some (JNum n) \<Rightarrow> of_int n
      | _ \<Rightarrow> if key = ''version''
             then (case jget ''Version'' m of Some (JNum n) \<Rightarrow> of_int n | _ \<Rightarrow> 0) else 0)"

text \<open>Address, alias name and version; \<open>None\<close> is the result \<open>ok = false\<close>.\<close>

definition resolveAddressMaybeAlias :: "Env \<Rightarrow> Engine \<Rightarrow> string \<Rightarrow> (string \<times> string \<times> i64) option" where
  "resolveAddressMaybeAlias env e inp =
     (if has_prefix inp ''@'' then
        (case callEngResolveAlias env e inp of
           None \<Rightarrow> None
         | Some rec \<Rightarrow>
             let ad = jget_str ''address'' rec
             in if ad = [] then None
                else Some (ad, trim_prefix inp ''@'', extractInt64Map rec ''version''))
      else Some (inp, [], 0))"

definition resolveAddrMaybeAlias :: "Env \<Rightarrow> Engine \<Rightarrow> string \<Rightarrow> string result" where
  "resolveAddrMaybeAlias env e inp =
     (case resolveAddressMaybeAlias env e inp of
        Some (addr, _, _) \<Rightarrow> if addr = [] then Inl ''bad_owner_or_alias'' else Inr addr
      | None \<Rightarrow> Inl ''bad_owner_or_alias'')"

section \<open>Cursors\<close>

definition encodeR2PCursor :: "i64 \<Rightarrow> string \<Rightarrow> string" where
  "encodeR2PCursor ts i = b64_encode True (bytes_of (dec_i64 ts @ ''|'' @ i))"

definition decodeR2PCursor :: "string \<Rightarrow> (i64 \<times> string) option" where
  "decodeR2PCursor s =
     (let legacy = (case ParseInt s of Some t \<Rightarrow> Some (t, []) | None \<Rightarrow> None)
      in if s = [] then Some (0, [])
         else case b64_decode True s of
           None \<Rightarrow> legacy
         | Some b \<Rightarrow>
             let raw = map (\<lambda>x. char_of (unat x)) b;
                 a = takeWhile (\<lambda>c. c \<noteq> CHR ''|'') raw
             in if CHR ''|'' \<in> set raw
                then (case ParseInt a of Some t \<Rightarrow> Some (t, drop (length a + 1) raw) | None \<Rightarrow> legacy)
                else legacy)"

section \<open>Properties\<close>

text \<open>
  Fact. While the product does not overflow, the minimum fee is the amount times the
  basis points over ten thousand, rounded up, and at least one.
\<close>

theorem minFeeMas_exact:
  assumes "unat amountMas * unat bps + 9999 < 2 ^ 64"
  shows "unat (minFeeMas amountMas bps) = max 1 ((unat amountMas * unat bps + 9999) div 10000)"
proof -
  have "unat (amountMas * bps) = unat amountMas * unat bps" using assms by (intro u64_mult_exact) simp
  then have sum: "unat (amountMas * bps + 9999) = unat amountMas * unat bps + 9999"
    using assms by (subst u64_add_exact) simp_all
  have "unat ((amountMas * bps + 9999) div 10000) = (unat amountMas * unat bps + 9999) div 10000"
    by (simp add: unat_div sum)
  then show ?thesis by (auto simp: minFeeMas_def Let_def u64_less_iff max_def)
qed

theorem minFeeMas_exact_witness: "unat (minFeeMas 1000000 25) = 2500"
  using minFeeMas_exact [of 1000000 25] by simp

text \<open>
  Fact. The product of amount and basis points wraps: at the default 25 basis points a
  transfer of 737869762948382065 mas has a minimum fee of one mas.
\<close>

theorem minFeeMas_wraps: "minFeeMas 737869762948382065 25 = 1"
  by code_simp

text \<open>
  Fact. An address that starts with an at sign never resolves: the alias methods of the
  engine answer with the member \<open>owner\<close>, the router reads \<open>address\<close>. Every other string resolves
  to itself.
\<close>

theorem resolveAddressMaybeAlias_table:
  "resolveAddressMaybeAlias env e inp = (if has_prefix inp ''@'' then None else Some (inp, [], 0))"
  by (simp add: resolveAddressMaybeAlias_def callEngResolveAlias_def jget_str_def jget_def alias_map_def
      split: prod.split option.split)

text \<open>Decimal text of a signed number and back.\<close>

lemma dec_nat_no_sign: "hd (dec_nat n) \<noteq> CHR ''-'' \<and> hd (dec_nat n) \<noteq> CHR ''+''"
proof -
  have "hd (dec_nat n) \<in> set (dec_nat n)" by simp
  then have "digit_val (hd (dec_nat n)) \<noteq> None" by (rule digits_dec_nat)
  then show ?thesis by (auto simp: digit_val_def)
qed

lemma ParseInt_dec_i64: "ParseInt (dec_i64 x) = Some x"
proof (cases "sint x < 0")
  case True
  have lo: "- (2 ^ 63) \<le> sint x" using sint_ge [of x] by simp
  have "of_nat (nat (- sint x)) = (of_int (- sint x) :: i64)" using True by (intro of_nat_nat) simp
  then have "- of_nat (nat (- sint x)) = x" by (simp del: of_nat_nat)
  moreover have "nat (- sint x) \<le> 2 ^ 63" using lo by simp
  ultimately show ?thesis using True by (simp add: ParseInt_def dec_i64_def parse_digits_dec_nat)
next
  case False
  have hi: "sint x < 2 ^ 63" using sint_lt [of x] by simp
  have "of_nat (nat (sint x)) = (of_int (sint x) :: i64)" using False by (intro of_nat_nat) simp
  then have "of_nat (nat (sint x)) = x" by (simp del: of_nat_nat)
  moreover have "nat (sint x) < 2 ^ 63" using hi by simp
  ultimately show ?thesis
    using False dec_nat_no_sign [of "nat (sint x)"] by (simp add: ParseInt_def dec_i64_def parse_digits_dec_nat)
qed

lemma dec_i64_no_bar: "CHR ''|'' \<notin> set (dec_i64 x)"
proof -
  have "digit_val (CHR ''|'') = None" by code_simp
  then have "CHR ''|'' \<notin> set (dec_nat n)" for n using digits_dec_nat [of "CHR ''|''" n] by auto
  then show ?thesis by (simp add: dec_i64_def)
qed

lemma char_of_byte_of [simp]: "map (\<lambda>b. char_of (unat b)) (bytes_of s) = s"
  by (simp add: bytes_of_def comp_def)

lemma b64_encode_nonempty: "bs \<noteq> [] \<Longrightarrow> b64_encode url bs \<noteq> []"
  by (metis b64_decode_encode b64_encode_inject b64_encode.simps(1))

text \<open>
  Fact. A page cursor is read back as the timestamp and record identifier it was made
  from, whatever characters the identifier has.
\<close>

theorem r2p_cursor_roundtrip: "decodeR2PCursor (encodeR2PCursor ts i) = Some (ts, i)"
proof -
  have "takeWhile (\<lambda>c. c \<noteq> CHR ''|'') (dec_i64 ts @ CHR ''|'' # i) = dec_i64 ts"
    using dec_i64_no_bar [of ts] by (subst takeWhile_append2) auto
  moreover have "b64_encode True (bytes_of (dec_i64 ts @ CHR ''|'' # i)) \<noteq> []"
    by (intro b64_encode_nonempty) (simp add: bytes_of_def)
  ultimately show ?thesis
    by (simp add: decodeR2PCursor_def encodeR2PCursor_def ParseInt_dec_i64 Let_def del: bytes_of_append)
qed

end
