(* ===== verification/R2P.thy ===== *)
theory R2P
  imports Rpc_Base
begin

text \<open>
  Requests to pay: \<open>internal/rpc/r2p_persist.go\<close> and the handlers \<open>/r2p/*\<close> of
  \<open>internal/rpc/router.go\<close>.

  A record is shared by pointer, so every handler sees and changes the entry of the store. The
  handlers release the lock between looking a record up and changing it; each is written as a check
  followed by its effects, and the handler as a whole is their composition. The clock and the
  random identifier are arguments.
\<close>

section \<open>Persistence\<close>

text \<open>
  \<open>json.Unmarshal\<close> on the file is \<open>c_decR2P\<close>. It stands for the decoder on files without a
  \<open>null\<close> in the place of a record; such a null would be a nil pointer in the map. Nothing else
  is checked: identifiers, amounts and states are taken as the file has them.
\<close>

definition SetR2PStorage :: "Config \<Rightarrow> string \<Rightarrow> Router \<Rightarrow> Router" where
  "SetR2PStorage c path rt =
     (if rt_path rt \<noteq> [] then rt
      else
        let rt = rt\<lparr>rt_path := path\<rparr>
        in case ReadFile path (rt_eng rt) of
             None \<Rightarrow> rt
           | Some b \<Rightarrow>
               if b = [] then rt
               else case c_decR2P c b of None \<Rightarrow> rt | Some loaded \<Rightarrow> rt\<lparr>rt_store := loaded\<rparr>)"

text \<open>Write a temporary file, remove the old one, rename.\<close>

definition r2pSaveLocked :: "Config \<Rightarrow> Router \<Rightarrow> Router" where
  "r2pSaveLocked c rt =
     (if rt_path rt = [] then rt
      else
        let b = c_encR2P c (rt_store rt);
            tmp = rt_path rt @ ''.tmp''
        in if \<not> c_wr c tmp then rt
           else
             let d = AList.update tmp b (e_disk (rt_eng rt));
                 d = AList.delete (rt_path rt) d;
                 d = (if c_rename c then AList.delete tmp (AList.update (rt_path rt) b d) else d)
             in rt\<lparr>rt_eng := (rt_eng rt)\<lparr>e_disk := d\<rparr>\<rparr>)"

section \<open>Helpers\<close>

definition has_infix :: "string \<Rightarrow> string \<Rightarrow> bool" where
  "has_infix s p \<longleftrightarrow> list_ex (\<lambda>i. has_prefix (drop i s) p) [0..<length s + 1]"

definition isInsufficientFunds :: "string option \<Rightarrow> string \<Rightarrow> bool" where
  "isInsufficientFunds err reason =
     (let s = to_lower reason;
          s = (case err of Some m \<Rightarrow> if s = [] then to_lower m else s | None \<Rightarrow> s);
          s = map (\<lambda>ch. if ch = CHR '' '' then CHR ''_'' else ch) s;
          s = map (\<lambda>ch. if ch = CHR ''-'' then CHR ''_'' else ch) s
      in has_infix s ''insufficient_funds'')"

text \<open>\<open>loopback\<close> says whether the remote address is \<open>IsLoopback\<close> in package \<open>net\<close>.\<close>

definition devFreeR2PEnabled :: "Config \<Rightarrow> (string \<Rightarrow> bool) \<Rightarrow> 'b Request \<Rightarrow> bool" where
  "devFreeR2PEnabled c loopback rq \<longleftrightarrow>
     c_getenv c ''THOMAS_DEV_FREE_R2P'' = ''1'' \<and> loopback (rq_Remote rq)"

definition featR2P :: "Config \<Rightarrow> bool" where
  "featR2P c \<longleftrightarrow> c_getenv c ''THOMAS_FEAT_R2P'' = ''1''"

definition featAlias :: "Config \<Rightarrow> bool" where
  "featAlias c \<longleftrightarrow> c_getenv c ''THOMAS_FEAT_ALIAS'' = ''1''"

definition record_json :: "r2pRecord \<Rightarrow> json" where
  "record_json r = JObj
     ([(''id'', JStr (r_ID r)), (''from'', JStr (r_From r)), (''to'', JStr (r_To r)),
       (''amount_mas'', ju64 (r_AmountMas r))]
      @ (if r_Memo r = [] then [] else [(''memo'', JStr (r_Memo r))])
      @ [(''status'', JStr (r_Status r)), (''created_utc'', ji64 (r_CreatedUTC r))]
      @ (if r_PaidUTC r = 0 then [] else [(''paid_utc'', ji64 (r_PaidUTC r))])
      @ (if r_DeclinedUTC r = 0 then [] else [(''declined_utc'', ji64 (r_DeclinedUTC r))])
      @ (if r_CanceledUTC r = 0 then [] else [(''canceled_utc'', ji64 (r_CanceledUTC r))])
      @ (if r_TxHash r = [] then [] else [(''tx_hash'', JStr (r_TxHash r))])
      @ (if r_Alias r = [] then [] else [(''alias'', JStr (r_Alias r))])
      @ (if r_AliasVersion r = 0 then [] else [(''alias_version'', ji64 (r_AliasVersion r))]))"

definition receipt_obj :: "TxReceipt \<Rightarrow> json" where
  "receipt_obj r = JObj [(''tx_hash'', JStr (rc_TxHash r)), (''from'', JStr (rc_From r)),
     (''to'', JStr (rc_To r)), (''amount'', ju64 (rc_Amount r)), (''fee'', ju64 (rc_Fee r)),
     (''nonce'', ju64 (rc_Nonce r)), (''status'', JStr (rc_Status r)), (''height'', ju64 (rc_Height r)),
     (''time_utc'', ji64 (rc_TimeUTC r))]"

text \<open>Guards that the changing handlers share: method, feature flag, body.\<close>

definition not_implemented :: Response where
  "not_implemented = reply 501 [] [(''error'', JStr ''not_implemented'')]"

definition closed_reply :: "(string \<times> string) list \<Rightarrow> r2pRecord \<Rightarrow> Response" where
  "closed_reply hs r = reply 200 hs [(''ok'', JBool True), (''id'', JStr (r_ID r)),
     (''status'', JStr (r_Status r)), (''tx_hash'', JStr (r_TxHash r))]"

section \<open>Create and get\<close>

record createBody =
  ci_From :: string
  ci_To :: string
  ci_AmountMas :: i64
  ci_Memo :: string

definition new_record :: "string \<Rightarrow> i64 \<Rightarrow> string \<times> string \<times> i64 \<Rightarrow> string \<Rightarrow> createBody \<Rightarrow> r2pRecord" where
  "new_record i now payee payer inp =
     \<lparr>r_ID = i, r_From = fst payee, r_To = payer, r_AmountMas = ci_AmountMas inp, r_Memo = ci_Memo inp,
      r_Status = ''open'', r_CreatedUTC = now, r_PaidUTC = 0, r_DeclinedUTC = 0, r_CanceledUTC = 0,
      r_TxHash = [], r_Alias = fst (snd payee),
      r_AliasVersion = (if fst (snd payee) \<noteq> [] then snd (snd payee) else 0)\<rparr>"

definition r2pCreate ::
  "Config \<Rightarrow> string \<Rightarrow> i64 \<Rightarrow> createBody Request \<Rightarrow> Router \<Rightarrow> Response \<times> Router" where
  "r2pCreate c i now rq rt =
     (if rq_Method rq \<noteq> ''POST'' then (status_only 405, rt)
      else if \<not> featR2P c then (not_implemented, rt)
      else case rq_Body rq of
        None \<Rightarrow> (reply 400 [] [(''ok'', JBool False), (''error'', JStr ''bad_json'')], rt)
      | Some inp \<Rightarrow>
          (case (resolveAddressMaybeAlias (c_env c) (rt_eng rt) (ci_From inp),
                 resolveAddressMaybeAlias (c_env c) (rt_eng rt) (ci_To inp)) of
             (Some payee, Some (payerAddr, _)) \<Rightarrow>
               if sint (ci_AmountMas inp) \<le> 0
               then (reply 400 [] [(''ok'', JBool False), (''error'', JStr ''bad_params'')], rt)
               else
                 let rec = new_record i now payee payerAddr inp;
                     rt = r2pSaveLocked c (rt\<lparr>rt_store := AList.update i rec (rt_store rt)\<rparr>)
                 in (reply 200 ctJSON [(''ok'', JBool True), (''id'', JStr i)], rt)
           | _ \<Rightarrow> (reply 400 [] [(''ok'', JBool False), (''error'', JStr ''bad_params'')], rt)))"

definition r2pGet :: "'b Request \<Rightarrow> Router \<Rightarrow> Response" where
  "r2pGet rq rt =
     (let i = rq_Query rq ''id''
      in if rq_Method rq \<noteq> ''GET'' then status_only 405
         else if i = [] then reply 400 [] [(''ok'', JBool False), (''error'', JStr ''missing_id'')]
         else case map_of (rt_store rt) i of
           None \<Rightarrow> reply 404 [] [(''ok'', JBool False), (''error'', JStr ''not_found'')]
         | Some rec \<Rightarrow> reply 200 ctJSON [(''ok'', JBool True), (''record'', record_json rec)])"

section \<open>Approve\<close>

record partyBody =
  pi_ID :: string
  pi_Party :: string     \<comment> \<open>\<open>payer\<close> for approve and decline, \<open>payee\<close> for cancel\<close>

record approveBody = partyBody +
  pi_FeeMas :: i64

text \<open>The party named in the body, the record's own when none is, must be the record's.\<close>

definition party_ok :: "Config \<Rightarrow> string \<Rightarrow> string \<Rightarrow> Router \<Rightarrow> bool" where
  "party_ok c given own rt \<longleftrightarrow>
     (let p = (if trim_space given = [] then own else trim_space given)
      in resolveAddrMaybeAlias (c_env c) (rt_eng rt) p = Inr own)"

definition approve_transfer :: "Config \<Rightarrow> i64 \<Rightarrow> r2pRecord \<Rightarrow> u64 \<Rightarrow> Transfer" where
  "approve_transfer c given rec nonce =
     (let fee = (if sint given \<le> 0 then minFeeMas (r_AmountMas rec) (feeBps c) else given)
      in \<lparr>tr_Type = 1, tr_From = r_To rec, tr_To = r_From rec, tr_AmountMas = r_AmountMas rec,
          tr_FeeMas = fee, tr_Nonce = nonce, tr_ChainID = expectedChainID, tr_ExpiryHeight = 0,
          tr_MsgCommit = []\<rparr>)"

text \<open>Everything up to building the transfer; \<open>Inl\<close> is an early response.\<close>

definition approve_check ::
  "Config \<Rightarrow> approveBody Request \<Rightarrow> Router \<Rightarrow> (Response + string \<times> string \<times> Transfer) \<times> Router" where
  "approve_check c rq rt =
     (if rq_Method rq \<noteq> ''POST'' then (Inl (status_only 405), rt)
      else if \<not> featR2P c then (Inl not_implemented, rt)
      else case rq_Body rq of
        None \<Rightarrow> (Inl (reply 400 [] [(''error'', JStr ''bad_json'')]), rt)
      | Some inp \<Rightarrow>
          if pi_ID inp = [] then (Inl (reply 400 [] [(''error'', JStr ''bad_json'')]), rt)
          else case map_of (rt_store rt) (pi_ID inp) of
            None \<Rightarrow> (Inl (reply 404 [] [(''error'', JStr ''not_found'')]), rt)
          | Some rec \<Rightarrow>
              if r_Status rec \<noteq> ''open'' then (Inl (closed_reply ctJSON8 rec), rt)
              else if \<not> party_ok c (pi_Party inp) (r_To rec) rt
              then (Inl (reply 400 [] [(''error'', JStr ''payer_mismatch'')]), rt)
              else
                let (acc, e) = eng_GetAccount (r_To rec) (rt_eng rt)
                in (Inr (pi_ID inp, r_ID rec, approve_transfer c (pi_FeeMas inp) rec (acc_nonce acc + 1)),
                    rt\<lparr>rt_eng := e\<rparr>))"

text \<open>Applying the transfer and storing the receipt; \<open>Inr\<close> is the hash for the record.\<close>

definition approve_pay ::
  "Config \<Rightarrow> bool \<Rightarrow> i64 \<Rightarrow> string \<Rightarrow> Transfer \<Rightarrow> Router \<Rightarrow> (Response + string) \<times> Router" where
  "approve_pay c free now rid t rt =
     (case eng_ApplyTransfer (c_env c) (featAlias c) (c_wr c) t (rt_eng rt) of
        (Inl err, e) \<Rightarrow>
          let reason = ''apply:'' @ err
          in if free \<and> isInsufficientFunds (Some err) reason
             then (Inr (''dev-'' @ rid), rt\<lparr>rt_eng := e\<rparr>)
             else
               let (rc, e) = StoreReceipt (c_env c) (c_wr c) now t False reason e
               in (Inl (reply 400 [] [(''ok'', JBool False), (''error'', JStr reason),
                     (''receipt'', receipt_obj rc)]), rt\<lparr>rt_eng := e\<rparr>)
      | (Inr _, e) \<Rightarrow>
          let (rc, e) = StoreReceipt (c_env c) (c_wr c) now t True [] e
          in (Inr (rc_TxHash rc), rt\<lparr>rt_eng := e\<rparr>))"

definition set_record :: "string \<Rightarrow> (r2pRecord \<Rightarrow> r2pRecord) \<Rightarrow> Router \<Rightarrow> Router" where
  "set_record i f rt =
     (case map_of (rt_store rt) i of
        None \<Rightarrow> rt | Some rec \<Rightarrow> rt\<lparr>rt_store := AList.update i (f rec) (rt_store rt)\<rparr>)"

definition paid :: "i64 \<Rightarrow> string \<Rightarrow> r2pRecord \<Rightarrow> r2pRecord" where
  "paid now h rec = rec\<lparr>r_Status := ''paid'', r_PaidUTC := now, r_TxHash := h\<rparr>"

definition approve_finish :: "Config \<Rightarrow> i64 \<Rightarrow> string \<Rightarrow> string \<Rightarrow> string \<Rightarrow> Router \<Rightarrow> Response \<times> Router" where
  "approve_finish c now i rid h rt =
     (reply 200 ctJSON8 [(''ok'', JBool True), (''id'', JStr rid), (''tx_hash'', JStr h)],
      r2pSaveLocked c (set_record i (paid now h) rt))"

text \<open>The clock is read twice: \<open>now\<close> by \<open>StoreReceipt\<close>, \<open>later\<close> for the paid time.\<close>

definition r2pApprove ::
  "Config \<Rightarrow> (string \<Rightarrow> bool) \<Rightarrow> i64 \<Rightarrow> i64 \<Rightarrow> approveBody Request \<Rightarrow> Router \<Rightarrow> Response \<times> Router" where
  "r2pApprove c loopback now later rq rt =
     (case approve_check c rq rt of
        (Inl resp, rt) \<Rightarrow> (resp, rt)
      | (Inr (i, rid, t), rt) \<Rightarrow>
          (case approve_pay c (devFreeR2PEnabled c loopback rq) now rid t rt of
             (Inl resp, rt) \<Rightarrow> (resp, rt)
           | (Inr h, rt) \<Rightarrow> approve_finish c later i rid h rt))"

section \<open>Decline and cancel\<close>

text \<open>
  Both look the record up, save the store as it is, and check; \<open>own\<close> selects the party, \<open>Inr\<close>
  is the key and the identifier of a record that may be closed.
\<close>

definition close_check ::
  "Config \<Rightarrow> (r2pRecord \<Rightarrow> string) \<Rightarrow> string \<Rightarrow> partyBody Request \<Rightarrow> Router \<Rightarrow> (Response + string \<times> string) \<times> Router" where
  "close_check c own mismatch rq rt =
     (if rq_Method rq \<noteq> ''POST'' then (Inl (status_only 405), rt)
      else if \<not> featR2P c then (Inl not_implemented, rt)
      else case rq_Body rq of
        None \<Rightarrow> (Inl (reply 400 [] [(''error'', JStr ''bad_json'')]), rt)
      | Some inp \<Rightarrow>
          if pi_ID inp = [] then (Inl (reply 400 [] [(''error'', JStr ''bad_json'')]), rt)
          else
            let rt = r2pSaveLocked c rt
            in case map_of (rt_store rt) (pi_ID inp) of
                 None \<Rightarrow> (Inl (reply 404 [] [(''error'', JStr ''not_found'')]), rt)
               | Some rec \<Rightarrow>
                   if r_Status rec \<noteq> ''open'' then (Inl (closed_reply ctJSON rec), rt)
                   else if \<not> party_ok c (pi_Party inp) (own rec) rt
                   then (Inl (reply 400 [] [(''error'', JStr mismatch)]), rt)
                   else (Inr (pi_ID inp, r_ID rec), rt))"

definition declined :: "i64 \<Rightarrow> r2pRecord \<Rightarrow> r2pRecord" where
  "declined now rec = rec\<lparr>r_Status := ''declined'', r_DeclinedUTC := now, r_TxHash := []\<rparr>"

definition canceled :: "i64 \<Rightarrow> r2pRecord \<Rightarrow> r2pRecord" where
  "canceled now rec = rec\<lparr>r_Status := ''canceled'', r_CanceledUTC := now, r_TxHash := []\<rparr>"

text \<open>\<open>saveR2P\<close> does nothing.\<close>

definition saveR2P :: "Router \<Rightarrow> Router" where "saveR2P rt = rt"

definition close_finish ::
  "string \<Rightarrow> (r2pRecord \<Rightarrow> r2pRecord) \<Rightarrow> string \<Rightarrow> string \<Rightarrow> Router \<Rightarrow> Response \<times> Router" where
  "close_finish st f i rid rt =
     (reply 200 ctJSON [(''ok'', JBool True), (''id'', JStr rid), (''status'', JStr st)],
      saveR2P (set_record i f rt))"

definition r2pDecline :: "Config \<Rightarrow> i64 \<Rightarrow> partyBody Request \<Rightarrow> Router \<Rightarrow> Response \<times> Router" where
  "r2pDecline c now rq rt =
     (case close_check c r_To ''payer_mismatch'' rq rt of
        (Inl resp, rt) \<Rightarrow> (resp, rt)
      | (Inr (i, rid), rt) \<Rightarrow> close_finish ''declined'' (declined now) i rid rt)"

definition r2pCancel :: "Config \<Rightarrow> i64 \<Rightarrow> partyBody Request \<Rightarrow> Router \<Rightarrow> Response \<times> Router" where
  "r2pCancel c now rq rt =
     (case close_check c r_From ''payee_mismatch'' rq rt of
        (Inl resp, rt) \<Rightarrow> (resp, rt)
      | (Inr (i, rid), rt) \<Rightarrow> close_finish ''canceled'' (canceled now) i rid rt)"

section \<open>List\<close>

definition normalizeStatus :: "string \<Rightarrow> string option" where
  "normalizeStatus s =
     (if s \<in> set [''open'', ''paid'', ''declined'', ''canceled''] then Some s
      else if s = ''approved'' then Some ''paid'' else None)"

text \<open>The wanted status, empty for every status, or the error.\<close>

definition want_status :: "string \<Rightarrow> string \<Rightarrow> string result" where
  "want_status state status =
     (if state \<noteq> [] \<and> status \<noteq> [] then Inl ''conflicting_state_status''
      else if status \<noteq> [] then
        (case normalizeStatus status of Some ws \<Rightarrow> Inr ws | None \<Rightarrow> Inl ''bad_status'')
      else if state \<noteq> [] then
        (if state = ''all'' then Inr []
         else case normalizeStatus state of Some ws \<Rightarrow> Inr ws | None \<Rightarrow> Inl ''bad_state'')
      else Inr ''open'')"

definition addr_filter :: "Config \<Rightarrow> Engine \<Rightarrow> string \<Rightarrow> string" where
  "addr_filter c e v =
     (if v = [] then []
      else case resolveAddressMaybeAlias (c_env c) e v of Some (addr, _) \<Rightarrow> addr | None \<Rightarrow> v)"

definition list_match :: "string \<Rightarrow> string \<Rightarrow> string \<Rightarrow> string \<Rightarrow> string \<Rightarrow> r2pRecord \<Rightarrow> bool" where
  "list_match role owner want fromF toF rec \<longleftrightarrow>
     \<not> (role = ''outbox'' \<and> r_From rec \<noteq> owner) \<and> \<not> (role = ''inbox'' \<and> r_To rec \<noteq> owner)
     \<and> \<not> (role = ''all'' \<and> \<not> (r_From rec = owner \<or> r_To rec = owner))
     \<and> \<not> (want \<noteq> [] \<and> r_Status rec \<noteq> want) \<and> \<not> (fromF \<noteq> [] \<and> r_From rec \<noteq> fromF)
     \<and> \<not> (toF \<noteq> [] \<and> r_To rec \<noteq> toF)"

definition r2pList_out ::
  "Config \<Rightarrow> (string \<Rightarrow> string) \<Rightarrow> Router \<Rightarrow> r2pRecord list result" where
  "r2pList_out c q rt =
     (let owner = trim_space (q ''owner'')
      in if owner = [] then Inl ''missing_owner''
         else case resolveAddressMaybeAlias (c_env c) (rt_eng rt) owner of
           None \<Rightarrow> Inl ''bad_owner''
         | Some (ownerAddr, _) \<Rightarrow>
             let role = to_lower (trim_space (q ''role''));
                 role = (if role = [] then ''outbox'' else role)
             in if role \<notin> set [''outbox'', ''inbox'', ''all''] then Inl ''bad_role''
                else case want_status (to_lower (trim_space (q ''state''))) (to_lower (trim_space (q ''status''))) of
                  Inl err \<Rightarrow> Inl err
                | Inr want \<Rightarrow>
                    let fromF = addr_filter c (rt_eng rt) (trim_space (q ''from''));
                        toF = addr_filter c (rt_eng rt) (trim_space (q ''to''))
                    in Inr (sort_key (\<lambda>r. - sint (r_CreatedUTC r))
                         (filter (list_match role ownerAddr want fromF toF) (map snd (rt_store rt)))))"

definition r2pListHandlerOpaque :: "Config \<Rightarrow> 'b Request \<Rightarrow> Router \<Rightarrow> Response" where
  "r2pListHandlerOpaque c rq rt =
     (if rq_Method rq \<noteq> ''GET'' then status_only 405
      else if \<not> featR2P c
      then reply 501 [] [(''ok'', JBool False), (''error'', JStr ''not_implemented'')]
      else case r2pList_out c (rq_Query rq) rt of
        Inl err \<Rightarrow> reply 400 [] [(''ok'', JBool False), (''error'', JStr err)]
      | Inr out \<Rightarrow> reply 200 [] [(''ok'', JBool True), (''records'', JArr (map record_json out))])"

end
