(* ===== verification/R2P_Props.thy ===== *)
theory R2P_Props
  imports R2P
begin

text \<open>
  Properties of the request-to-pay handlers: what an approval does to the ledger, the life cycle
  of a record when handlers do not overlap, what can happen when they do, and what a restart finds
  on disk.
\<close>

section \<open>What the parts change\<close>

lemma save_frame: "\<exists>d. r2pSaveLocked c rt = rt\<lparr>rt_eng := (rt_eng rt)\<lparr>e_disk := d\<rparr>\<rparr>"
proof (cases "rt_path rt = [] \<or> \<not> c_wr c (rt_path rt @ ''.tmp'')")
  case True
  then show ?thesis by (intro exI [of _ "e_disk (rt_eng rt)"]) (auto simp: r2pSaveLocked_def Let_def)
next
  case False
  then show ?thesis by (auto simp: r2pSaveLocked_def Let_def)
qed

lemma save_sel [simp]:
  "rt_store (r2pSaveLocked c rt) = rt_store rt" "rt_path (r2pSaveLocked c rt) = rt_path rt"
  "e_db (rt_eng (r2pSaveLocked c rt)) = e_db (rt_eng rt)"
  "e_receipts (rt_eng (r2pSaveLocked c rt)) = e_receipts (rt_eng rt)"
  "e_leaves (rt_eng (r2pSaveLocked c rt)) = e_leaves (rt_eng rt)"
  using save_frame [of c rt] by auto

lemma set_record_sel [simp]:
  "rt_eng (set_record i f rt) = rt_eng rt" "rt_path (set_record i f rt) = rt_path rt"
  by (simp_all add: set_record_def split: option.split)

lemma set_record_store:
  "map_of (rt_store (set_record i f rt)) =
     (case map_of (rt_store rt) i of None \<Rightarrow> map_of (rt_store rt)
      | Some rec \<Rightarrow> (map_of (rt_store rt))(i \<mapsto> f rec))"
  by (simp add: set_record_def gomap_simps split: option.split)

lemma party_ok_iff:
  "party_ok c given own rt \<longleftrightarrow>
     own \<noteq> [] \<and> \<not> has_prefix own ''@'' \<and> (trim_space given = [] \<or> trim_space given = own)"
  by (auto simp: party_ok_def resolveAddrMaybeAlias_def Let_def
      resolveAddressMaybeAlias_def callEngResolveAlias_def jget_str_def jget_def alias_map_def
      split: prod.split option.split)

text \<open>An approval that passes its checks.\<close>

lemma approve_check_Inr:
  assumes "approve_check c rq rt = (Inr (i, rid, t), rt1)"
  obtains rec inp where "rq_Method rq = ''POST''" "featR2P c" "rq_Body rq = Some inp" "i = pi_ID inp" "i \<noteq> []"
    "map_of (rt_store rt) i = Some rec" "r_Status rec = ''open''" "rid = r_ID rec"
    "party_ok c (pi_Party inp) (r_To rec) rt"
    "t = approve_transfer c (pi_FeeMas inp) rec (acc_nonce (acct (e_db (rt_eng rt)) (r_To rec)) + 1)"
    "rt1 = rt\<lparr>rt_eng := snd (eng_GetAccount (r_To rec) (rt_eng rt))\<rparr>"
proof -
  have acc: "fst (eng_GetAccount a e) = acct (e_db e) a" for a e
    by (simp add: eng_GetAccount_def GetAccount_def case_prod_beta)
  show thesis
    using assms
    by (auto simp: approve_check_def case_prod_beta acc Let_def split: option.splits if_splits intro!: that)
qed

lemma approve_check_Inl: "approve_check c rq rt = (Inl resp, rt1) \<Longrightarrow> rt1 = rt"
  by (auto simp: approve_check_def case_prod_beta Let_def split: option.splits if_splits)

lemma close_check_eq:
  assumes "close_check c own m rq rt = (r, rt1)"
  shows "rt1 = rt \<or> rt1 = r2pSaveLocked c rt"
  using assms by (auto simp: close_check_def Let_def split: option.splits if_splits)

lemma close_check_Inr:
  assumes "close_check c own m rq rt = (Inr (i, rid), rt1)"
  obtains rec where "map_of (rt_store rt) i = Some rec" "r_Status rec = ''open''" "rid = r_ID rec"
    "rt1 = r2pSaveLocked c rt"
  using assms by (auto simp: close_check_def Let_def split: option.splits if_splits)

lemma approve_pay_store [simp]:
  "rt_store (snd (approve_pay c free now rid t rt)) = rt_store rt"
  "rt_path (snd (approve_pay c free now rid t rt)) = rt_path rt"
  by (simp_all add: approve_pay_def case_prod_beta Let_def split: sum.split)

text \<open>A payment that went through, without the development mode.\<close>

lemma eng_ApplyTransfer_ok:
  assumes "eng_ApplyTransfer env feat wr t e = (Inr u, e')"
  shows "apply_db t e = (Inr (), e_db e') \<and> e_receipts e' = e_receipts e \<and> e_leaves e' = e_leaves e"
proof -
  obtain d where e': "e' = e\<lparr>e_db := snd (apply_db t e), e_disk := d\<rparr>"
    using eng_ApplyTransfer_eq [of env feat wr t e] assms by auto
  have "fst (apply_db t e) = Inr ()"
    using assms by (cases "apply_db t e"; cases "fst (apply_db t e)")
      (auto simp: eng_ApplyTransfer_def apply_db_def tryApplyAliasSetTx_def Let_def split: if_splits)
  then show ?thesis using e' by (simp add: prod_eq_iff)
qed

lemma approve_pay_Inr:
  assumes "approve_pay c False now rid t rt = (Inr h, rt')"
  shows "apply_db t (rt_eng rt) = (Inr (), e_db (rt_eng rt')) \<and> h = tx_Hash (env_sha (c_env c)) t
    \<and> (\<exists>r. GetReceipt h (rt_eng rt') = Some r \<and> rc_Status r = ''applied'' \<and> rc_Amount r = tr_AmountMas t)"
proof -
  obtain u e where ok: "eng_ApplyTransfer (c_env c) (featAlias c) (c_wr c) t (rt_eng rt) = (Inr u, e)"
    using assms by (cases "eng_ApplyTransfer (c_env c) (featAlias c) (c_wr c) t (rt_eng rt)";
        cases "fst (eng_ApplyTransfer (c_env c) (featAlias c) (c_wr c) t (rt_eng rt))")
      (auto simp: approve_pay_def case_prod_beta Let_def)
  then show ?thesis
    using assms eng_ApplyTransfer_ok [OF ok]
    by (auto simp: approve_pay_def case_prod_beta StoreReceipt_result)
qed

section \<open>Paying a request\<close>

lemma approve_settles:
  assumes "r2pApprove c loopback now later rq rt = (resp, rt')" and "\<not> devFreeR2PEnabled c loopback rq"
    and "map_of (rt_store rt) i = Some rec" "r_Status rec = ''open''"
    and "map_of (rt_store rt') i = Some rec'" "r_Status rec' \<noteq> ''open''"
  shows "\<exists>t. tr_From t = r_To rec \<and> tr_To t = r_From rec \<and> tr_AmountMas t = r_AmountMas rec
    \<and> tr_Nonce t = acc_nonce (acct (e_db (rt_eng rt)) (r_To rec)) + 1
    \<and> apply_db t (snd (eng_GetAccount (r_To rec) (rt_eng rt))) = (Inr (), e_db (rt_eng rt'))
    \<and> rec' = paid later (tx_Hash (env_sha (c_env c)) t) rec
    \<and> (\<exists>r. GetReceipt (r_TxHash rec') (rt_eng rt') = Some r \<and> rc_Status r = ''applied'')"
proof -
  obtain chk rt1 where chk: "approve_check c rq rt = (chk, rt1)" by fastforce
  show ?thesis
  proof (cases chk)
    case (Inl resp1)
    with chk assms(1) have "rt' = rt" by (auto simp: r2pApprove_def dest: approve_check_Inl)
    with assms(3-6) show ?thesis by simp
  next
    case (Inr irt)
    then obtain j rid t where "chk = Inr (j, rid, t)" by (cases irt) auto
    with chk have chk: "approve_check c rq rt = (Inr (j, rid, t), rt1)" by simp
    then obtain rec1 and inp :: approveBody where j: "map_of (rt_store rt) j = Some rec1"
      and t: "t = approve_transfer c (pi_FeeMas inp) rec1 (acc_nonce (acct (e_db (rt_eng rt)) (r_To rec1)) + 1)"
      and rt1: "rt1 = rt\<lparr>rt_eng := snd (eng_GetAccount (r_To rec1) (rt_eng rt))\<rparr>"
      by (rule approve_check_Inr) blast
    obtain pay rt2 where pay: "approve_pay c False now rid t rt1 = (pay, rt2)" by fastforce
    have store2: "rt_store rt2 = rt_store rt" 
      using arg_cong [OF pay, of "\<lambda>x. rt_store (snd x)"] rt1 by simp
    show ?thesis
    proof (cases pay)
      case (Inl resp2)
      with pay chk assms(1,2) have "rt' = rt2" by (simp add: r2pApprove_def)
      with store2 assms(3-6) show ?thesis by simp
    next
      case (Inr h)
      note paid_ok = approve_pay_Inr [OF pay [unfolded Inr]]
      from Inr pay chk assms(1,2) have rt': "rt' = r2pSaveLocked c (set_record j (paid later h) rt2)"
        by (simp add: r2pApprove_def approve_finish_def)
      then have store': "map_of (rt_store rt') = (map_of (rt_store rt))(j \<mapsto> paid later h rec1)"
        using j store2 by (simp add: set_record_store)
      with assms(3-6) have "i = j" by (auto split: if_splits)
      with j assms(3,5) store' have rec: "rec1 = rec" "rec' = paid later h rec" by auto
      show ?thesis
        using paid_ok by (intro exI [of _ t]) (auto simp: rec rt1 rt' t approve_transfer_def paid_def GetReceipt_def)
    qed
  qed
qed

text \<open>
  Property C11. An approval pays what was asked: if an open request is no longer open after the
  handler ran outside the development mode, then a transfer of exactly the requested amount from the
  payer to the payee with the payer's next nonce has been applied to the accounts, an \<open>applied\<close>
  receipt is filed under its hash, and the record is marked paid with that hash and otherwise
  unchanged.
\<close>

theorem r2pApprove_pays:
  assumes "r2pApprove c loopback now later rq rt = (resp, rt')" and "\<not> devFreeR2PEnabled c loopback rq"
    and "map_of (rt_store rt) i = Some rec" "r_Status rec = ''open''"
    and "map_of (rt_store rt') i = Some rec'" "r_Status rec' \<noteq> ''open''"
  shows "\<exists>t. tr_From t = r_To rec \<and> tr_To t = r_From rec \<and> tr_AmountMas t = r_AmountMas rec
    \<and> tr_Nonce t = acc_nonce (acct (e_db (rt_eng rt)) (r_To rec)) + 1
    \<and> apply_db t (snd (eng_GetAccount (r_To rec) (rt_eng rt))) = (Inr (), e_db (rt_eng rt'))
    \<and> rec' = paid later (tx_Hash (env_sha (c_env c)) t) rec
    \<and> (\<exists>r. GetReceipt (r_TxHash rec') (rt_eng rt') = Some r \<and> rc_Status r = ''applied'')"
  using assms by (rule approve_settles)

definition demo_cfg :: Config where
  "demo_cfg = \<lparr>c_env = demo_env, c_getenv = (\<lambda>k. if k = ''THOMAS_FEAT_R2P'' then ''1'' else []),
     c_verify = (\<lambda>pk m s. s = pk @ m), c_encR2P = (\<lambda>m. [of_nat (length m)]),
     c_decR2P = (\<lambda>b. None), c_wr = (\<lambda>p. True), c_rename = True\<rparr>"

definition demo_rec :: r2pRecord where
  "demo_rec = \<lparr>r_ID = ''a1'', r_From = ''tho1bob'', r_To = ''tho1alice'', r_AmountMas = 30, r_Memo = [],
     r_Status = ''open'', r_CreatedUTC = 7, r_PaidUTC = 0, r_DeclinedUTC = 0, r_CanceledUTC = 0,
     r_TxHash = [], r_Alias = [], r_AliasVersion = 0\<rparr>"

definition demo_rt :: Router where
  "demo_rt = \<lparr>rt_eng = (blank_engine [] ([], []))\<lparr>e_db := demo_db\<rparr>, rt_store = [(''a1'', demo_rec)],
     rt_path = ''r2p.json'', rt_bindMismatch = 0, rt_badSig = 0\<rparr>"

definition demo_rq :: "approveBody Request" where
  "demo_rq = \<lparr>rq_Method = ''POST'', rq_Path = ''/r2p/approve'', rq_Header = (\<lambda>k. []), rq_Query = (\<lambda>k. []),
     rq_Remote = [], rq_Body = Some \<lparr>pi_ID = ''a1'', pi_Party = [], pi_FeeMas = 0\<rparr>\<rparr>"

lemma demo_approve:
  "map_of (rt_store (snd (r2pApprove demo_cfg (\<lambda>a. False) 9 10 demo_rq demo_rt))) ''a1''
   = Some (paid 10 (tx_Hash toy_hash (approve_transfer demo_cfg 0 demo_rec 1)) demo_rec)"
  by code_simp

theorem r2pApprove_pays_witness:
  "\<exists>t. tr_AmountMas t = 30 \<and> fst (apply_db t (snd (eng_GetAccount ''tho1alice'' (rt_eng demo_rt)))) = Inr ()"
proof -
  obtain resp rt' where run: "r2pApprove demo_cfg (\<lambda>a. False) 9 10 demo_rq demo_rt = (resp, rt')" by fastforce
  have "map_of (rt_store demo_rt) ''a1'' = Some demo_rec" "r_Status demo_rec = ''open''"
    "\<not> devFreeR2PEnabled demo_cfg (\<lambda>a. False) demo_rq"
    by (simp_all add: demo_rt_def demo_rec_def devFreeR2PEnabled_def)
  from r2pApprove_pays [OF run this(3) this(1,2)] demo_approve run show ?thesis
    by (auto simp: demo_rec_def paid_def)
qed

section \<open>Life cycle\<close>

text \<open>
  Handlers that run one after the other, with arbitrary changes of the engine in between. A new
  identifier is not in use.
\<close>

inductive r2p_step :: "Config \<Rightarrow> Router \<Rightarrow> Router \<Rightarrow> bool" for c where
  create: "map_of (rt_store rt) i = None \<Longrightarrow> r2p_step c rt (snd (r2pCreate c i now rq rt))"
| approve: "r2p_step c rt (snd (r2pApprove c loopback now later rq rt))"
| decline: "r2p_step c rt (snd (r2pDecline c now rq rt))"
| cancel: "r2p_step c rt (snd (r2pCancel c now rq rt))"
| engine: "r2p_step c rt (rt\<lparr>rt_eng := e\<rparr>)"

inductive_cases r2p_stepE: "r2p_step c rt rt'"

text \<open>What may happen to one record: nothing, or an open one is closed in one of three ways.\<close>

definition rec_evolves :: "r2pRecord \<Rightarrow> r2pRecord \<Rightarrow> bool" where
  "rec_evolves r r' \<longleftrightarrow> r' = r
     \<or> (r_Status r = ''open'' \<and> (\<exists>now h. r' = paid now h r \<or> r' = declined now r \<or> r' = canceled now r))"

definition store_evolves :: "Router \<Rightarrow> Router \<Rightarrow> bool" where
  "store_evolves rt rt' \<longleftrightarrow>
     (\<forall>i r. map_of (rt_store rt) i = Some r \<longrightarrow> (\<exists>r'. map_of (rt_store rt') i = Some r' \<and> rec_evolves r r'))"

lemma store_evolves_same: "rt_store rt' = rt_store rt \<Longrightarrow> store_evolves rt rt'"
  by (simp add: store_evolves_def rec_evolves_def)

lemma fresh_key: "\<exists>k :: string. map_of s k = None"
proof -
  obtain k :: string where "k \<notin> fst ` set s" 
    using ex_new_if_finite [OF infinite_UNIV_listI, of "fst ` set s"] by auto
  then show ?thesis by (auto simp: map_of_eq_None_iff)
qed

text \<open>What one handler may do to the store: nothing, open a record, or close an open one.\<close>

inductive store_next :: "string \<Rightarrow> (string, r2pRecord) gomap \<Rightarrow> (string, r2pRecord) gomap \<Rightarrow> bool" for i where
  same: "store_next i s s"
| opened: "r_ID r = i \<Longrightarrow> r_Status r = ''open'' \<Longrightarrow> 0 < sint (r_AmountMas r) \<Longrightarrow> store_next i s (AList.update i r s)"
| closed: "map_of s j = Some r \<Longrightarrow> r_Status r = ''open'' \<Longrightarrow> r' = paid now h r \<or> r' = declined now r \<or> r' = canceled now r
    \<Longrightarrow> store_next i s (AList.update j r' s)"

lemma store_next_set:
  assumes "rt_store rt = s" "map_of s j = Some r" "r_Status r = ''open''"
    and "f r = paid now h r \<or> f r = declined now r \<or> f r = canceled now r"
  shows "store_next i s (rt_store (set_record j f rt))"
  using assms by (simp add: set_record_def store_next.closed)

lemma r2pApprove_next: "store_next i (rt_store rt) (rt_store (snd (r2pApprove c loopback now later rq rt)))"
proof -
  obtain chk rt1 where chk: "approve_check c rq rt = (chk, rt1)" by fastforce
  show ?thesis
  proof (cases chk)
    case (Inl resp1)
    with chk show ?thesis by (auto simp: r2pApprove_def dest!: approve_check_Inl intro: store_next.same)
  next
    case (Inr irt)
    then obtain j rid t where "chk = Inr (j, rid, t)" by (cases irt) auto
    with chk have chk: "approve_check c rq rt = (Inr (j, rid, t), rt1)" by simp
    then obtain rec1 where j: "map_of (rt_store rt) j = Some rec1" "r_Status rec1 = ''open''"
      and rt1: "rt_store rt1 = rt_store rt"
      by (elim approve_check_Inr) auto
    obtain pay rt2 where pay: "approve_pay c (devFreeR2PEnabled c loopback rq) now rid t rt1 = (pay, rt2)"
      by fastforce
    have store2: "rt_store rt2 = rt_store rt"
      using arg_cong [OF pay, of "\<lambda>x. rt_store (snd x)"] rt1 by simp
    then have "store_next i (rt_store rt) (rt_store (set_record j (paid later h) rt2))" for h
      using j by (rule store_next_set) blast
    with store2 pay chk show ?thesis
      by (auto simp: r2pApprove_def approve_finish_def store_next.same split: sum.split)
  qed
qed

lemma close_next:
  assumes "\<And>r. f r = declined now r \<or> f r = canceled now r"
  shows "store_next i (rt_store rt) (rt_store (snd (case close_check c own m rq rt of
     (Inl resp, rt) \<Rightarrow> (resp, rt) | (Inr (i, rid), rt) \<Rightarrow> close_finish st f i rid rt)))"
proof -
  obtain chk rt1 where chk: "close_check c own m rq rt = (chk, rt1)" by fastforce
  then have store1: "rt_store rt1 = rt_store rt" using close_check_eq by fastforce
  show ?thesis
  proof (cases chk)
    case (Inl resp)
    with chk store1 show ?thesis by (simp add: store_next.same)
  next
    case (Inr ir)
    then obtain j rid where "chk = Inr (j, rid)" by (cases ir) auto
    with chk have chk: "close_check c own m rq rt = (Inr (j, rid), rt1)" by simp
    then obtain r where "map_of (rt_store rt) j = Some r" "r_Status r = ''open''" by (rule close_check_Inr)
    with store1 have "store_next i (rt_store rt) (rt_store (set_record j f rt1))"
      by (rule store_next_set) (use assms in blast)
    with chk show ?thesis by (simp add: close_finish_def saveR2P_def)
  qed
qed

lemma decline_cancel_next:
  "store_next i (rt_store rt) (rt_store (snd (r2pDecline c now rq rt)))"
  "store_next i (rt_store rt) (rt_store (snd (r2pCancel c now rq rt)))"
  unfolding r2pDecline_def r2pCancel_def by (rule close_next [of _ now], simp)+

lemma r2pCreate_next: "store_next i (rt_store rt) (rt_store (snd (r2pCreate c i now rq rt)))"
  by (auto simp: r2pCreate_def Let_def new_record_def intro: store_next.intros split: option.split prod.split)

lemma store_next_evolves:
  assumes "store_next i (rt_store rt) (rt_store rt')" and "map_of (rt_store rt) i = None"
  shows "store_evolves rt rt'"
  using assms(1)
proof cases
  case (opened r)
  with assms(2) show ?thesis by (auto simp: store_evolves_def rec_evolves_def gomap_simps)
next
  case (closed j r r' now h)
  then show ?thesis by (auto simp: store_evolves_def rec_evolves_def gomap_simps)
qed (simp add: store_evolves_same)

lemma r2p_step_evolves: "r2p_step c rt rt' \<Longrightarrow> store_evolves rt rt'"
proof (induction rule: r2p_step.induct)
  case (create rt i now rq)
  then show ?case by (rule store_next_evolves [OF r2pCreate_next])
next
  case (approve rt loopback now rq)
  then show ?case using store_next_evolves [OF r2pApprove_next] fresh_key by blast
next
  case (decline rt now rq)
  then show ?case using store_next_evolves [OF decline_cancel_next(1)] fresh_key by blast
next
  case (cancel rt now rq)
  then show ?case using store_next_evolves [OF decline_cancel_next(2)] fresh_key by blast
next
  case (engine rt e)
  then show ?case by (simp add: store_evolves_same)
qed

lemma rec_evolves_trans: "rec_evolves r s \<Longrightarrow> rec_evolves s t \<Longrightarrow> rec_evolves r t"
  by (auto simp: rec_evolves_def paid_def declined_def canceled_def)

lemma store_evolves_trans: "store_evolves rt rt' \<Longrightarrow> store_evolves rt' rt'' \<Longrightarrow> store_evolves rt rt''"
  unfolding store_evolves_def by (meson rec_evolves_trans)

text \<open>
  Fact. The life cycle of a request, when handlers do not overlap: a record is never
  removed, its parties, amount, memo and creation time never change, an open record is closed at
  most once, as paid, declined or canceled, and a closed record never changes again.
\<close>

theorem r2p_life_cycle:
  assumes "(r2p_step c)\<^sup>*\<^sup>* rt rt'" and "map_of (rt_store rt) i = Some r"
  shows "\<exists>r'. map_of (rt_store rt') i = Some r'
    \<and> (if r_Status r = ''open''
       then r' = r \<or> (\<exists>now h. r' = paid now h r \<or> r' = declined now r \<or> r' = canceled now r)
       else r' = r)"
proof -
  from assms(1) have "store_evolves rt rt'"
    by (induction rule: rtranclp_induct) (auto intro: store_evolves_same store_evolves_trans r2p_step_evolves)
  with assms(2) obtain r' where r': "map_of (rt_store rt') i = Some r'" "rec_evolves r r'"
    unfolding store_evolves_def by blast
  then show ?thesis by (intro exI [of _ r']) (auto simp: rec_evolves_def)
qed

theorem r2p_life_cycle_witness:
  "\<exists>rt' r'. (r2p_step demo_cfg)\<^sup>*\<^sup>* demo_rt rt' \<and> map_of (rt_store rt') ''a1'' = Some r' \<and> r_AmountMas r' = 30"
proof -
  let ?rt = "snd (r2pApprove demo_cfg (\<lambda>a. False) 9 10 demo_rq demo_rt)"
  have run: "(r2p_step demo_cfg)\<^sup>*\<^sup>* demo_rt ?rt" by (rule r_into_rtranclp) (rule r2p_step.approve)
  from r2p_life_cycle [OF run, of "''a1''" demo_rec] run show ?thesis
    by (auto simp: demo_rt_def demo_rec_def paid_def declined_def canceled_def)
qed

end
