(* ===== verification/R2P_Race.thy ===== *)
theory R2P_Race
  imports R2P_Props
begin

text \<open>
  Requests to pay when handlers overlap, when files cannot be written, and across restarts. The
  lock is held only around single accesses of the store, so the parts of two handlers may
  alternate.
\<close>

section \<open>Overlapping handlers\<close>

lemma approve_check_intro:
  assumes "rq_Method rq = ''POST''" "featR2P c" "rq_Body rq = Some inp" "pi_ID inp \<noteq> []"
    "map_of (rt_store rt) (pi_ID inp) = Some rec" "r_Status rec = ''open''"
    "party_ok c (pi_Party inp) (r_To rec) rt"
  shows "approve_check c rq rt =
    (Inr (pi_ID inp, r_ID rec, approve_transfer c (pi_FeeMas inp) rec (acc_nonce (acct (e_db (rt_eng rt)) (r_To rec)) + 1)),
     rt\<lparr>rt_eng := snd (eng_GetAccount (r_To rec) (rt_eng rt))\<rparr>)"
proof -
  have "fst (eng_GetAccount (r_To rec) (rt_eng rt)) = acct (e_db (rt_eng rt)) (r_To rec)"
    by (simp add: eng_GetAccount_def GetAccount_def case_prod_beta)
  then show ?thesis using assms by (simp add: approve_check_def case_prod_beta Let_def)
qed

lemma eng_GetAccount_sel [simp]:
  "acct (e_db (snd (eng_GetAccount a e))) = acct (e_db e)"
  "feeReceiver (e_db (snd (eng_GetAccount a e))) = feeReceiver (e_db e)"
  by (simp_all add: eng_GetAccount_def GetAccount_def case_prod_beta)

text \<open>After the first transfer and before the record is marked, the same request passes again.\<close>

lemma approve_check_again:
  assumes chk: "approve_check c rq rt = (Inr (i, rid, t), rt1)"
    and pay: "approve_pay c False now rid t rt1 = (Inr h, rt2)"
  shows "approve_check c rq rt2 = (Inr (i, rid, t\<lparr>tr_Nonce := tr_Nonce t + 1\<rparr>),
    rt2\<lparr>rt_eng := snd (eng_GetAccount (tr_From t) (rt_eng rt2))\<rparr>)"
proof -
  from chk obtain rec and inp :: approveBody where
    r: "rq_Method rq = ''POST''" "featR2P c" "rq_Body rq = Some inp" "i = pi_ID inp" "i \<noteq> []"
    "map_of (rt_store rt) i = Some rec" "r_Status rec = ''open''" "rid = r_ID rec"
    "party_ok c (pi_Party inp) (r_To rec) rt"
    and t: "t = approve_transfer c (pi_FeeMas inp) rec (acc_nonce (acct (e_db (rt_eng rt)) (r_To rec)) + 1)"
    and rt1: "rt1 = rt\<lparr>rt_eng := snd (eng_GetAccount (r_To rec) (rt_eng rt))\<rparr>"
    by (rule approve_check_Inr)
  have store: "rt_store rt2 = rt_store rt"
    using arg_cong [OF pay, of "\<lambda>x. rt_store (snd x)"] rt1 by simp
  have from_: "tr_From t = r_To rec" by (simp add: t approve_transfer_def Let_def)
  from approve_pay_Inr [OF pay] have "apply_db t (rt_eng rt1) = (Inr (), e_db (rt_eng rt2))" by simp
  then have "acc_nonce (acct (e_db (rt_eng rt2)) (r_To rec)) = tr_Nonce t"
    by (auto simp: apply_db_def from_ dest!: ApplyTransfer_nonce [where a = "r_To rec"])
  moreover have "t\<lparr>tr_Nonce := tr_Nonce t + 1\<rparr> = approve_transfer c (pi_FeeMas inp) rec (tr_Nonce t + 1)"
    by (simp add: t approve_transfer_def Let_def)
  moreover have "party_ok c (pi_Party inp) (r_To rec) rt2" using r(9) by (simp add: party_ok_iff)
  ultimately show ?thesis
    using r store by (subst approve_check_intro [of rq c inp rt2 rec]) (simp_all add: from_)
qed

lemma approve_pay_intro:
  assumes "c_wr c statePathV2" and "apply_db t (rt_eng rt) = (Inr (), db)"
  shows "\<exists>rt'. approve_pay c free now rid t rt = (Inr (tx_Hash (env_sha (c_env c)) t), rt') \<and> e_db (rt_eng rt') = db
    \<and> rt_store rt' = rt_store rt
    \<and> (\<exists>r. GetReceipt (tx_Hash (env_sha (c_env c)) t) (rt_eng rt') = Some r \<and> rc_Status r = ''applied'')"
proof -
  obtain e where "eng_ApplyTransfer (c_env c) (featAlias c) (c_wr c) t (rt_eng rt) = (Inr (), e)" "e_db e = db"
    using assms
    by (cases "featAlias c \<and> tr_To t = aliasSys")
      (simp_all add: eng_ApplyTransfer_def apply_db_def saveStateMas_def WriteFile_def tryApplyAliasSetTx_def)
  then show ?thesis by (simp add: approve_pay_def case_prod_beta Let_def StoreReceipt_result)
qed

lemma approve_pay_written:
  assumes "approve_pay c False now rid t rt = (Inr h, rt')"
  shows "c_wr c statePathV2"
  using assms
  by (auto simp: approve_pay_def eng_ApplyTransfer_def tryApplyAliasSetTx_def saveStateMas_def WriteFile_def
      case_prod_beta Let_def split: sum.splits if_splits prod.splits)

text \<open>
  Property C40. Two approvals of the same request can both pay: if after the first transfer the
  payer still has the amount and the fee, then the same request, sent before the first handler
  marks the record, passes the checks again and its transfer is applied too. When payer, payee and
  fee receiver are three accounts, the payer has then lost amount and fee twice and the payee has
  gained the amount twice; both handlers mark the record paid, and it names the hash of the
  second payment only.
\<close>

theorem approve_twice_pays:
  assumes chk: "approve_check c rq rt = (Inr (i, rid, t), rt1)"
    and pay: "approve_pay c False now rid t rt1 = (Inr h, rt2)"
    and funds: "tr_AmountMas t + tr_FeeMas t \<le> acc_balance (acct (e_db (rt_eng rt2)) (tr_From t))"
    and apart: "tr_To t \<noteq> tr_From t" "feeReceiver (e_db (rt_eng rt)) \<notin> {tr_From t, tr_To t}"
  shows "\<exists>t' h' rt3 rt4 rt5 r. approve_check c rq rt2 = (Inr (i, rid, t'), rt3)
    \<and> approve_pay c False now' rid t' rt3 = (Inr h', rt4)
    \<and> rt5 = snd (approve_finish c later' i rid h' (snd (approve_finish c later i rid h rt4)))
    \<and> acc_balance (acct (e_db (rt_eng rt5)) (tr_From t))
        = acc_balance (acct (e_db (rt_eng rt)) (tr_From t)) - 2 * (tr_AmountMas t + tr_FeeMas t)
    \<and> acc_balance (acct (e_db (rt_eng rt5)) (tr_To t)) = acc_balance (acct (e_db (rt_eng rt)) (tr_To t)) + 2 * tr_AmountMas t
    \<and> map_of (rt_store rt5) i = Some r \<and> r_Status r = ''paid'' \<and> r_TxHash r = h'"
proof -
  let ?t = "t\<lparr>tr_Nonce := tr_Nonce t + 1\<rparr>" and ?rt3 = "rt2\<lparr>rt_eng := snd (eng_GetAccount (tr_From t) (rt_eng rt2))\<rparr>"
  from chk obtain rec and inp :: approveBody where rec: "map_of (rt_store rt) i = Some rec"
    and rt1: "rt1 = rt\<lparr>rt_eng := snd (eng_GetAccount (r_To rec) (rt_eng rt))\<rparr>"
    by (rule approve_check_Inr)
  have store: "rt_store rt2 = rt_store rt"
    using arg_cong [OF pay, of "\<lambda>x. rt_store (snd x)"] rt1 by simp
  from approve_pay_Inr [OF pay] have first: "apply_db t (rt_eng rt1) = (Inr (), e_db (rt_eng rt2))" by simp
  note moved = ApplyTransfer_moves [OF first [unfolded apply_db_def]]
  have fr: "feeReceiver (e_db (rt_eng rt1)) = feeReceiver (e_db (rt_eng rt))" "acct (e_db (rt_eng rt1)) = acct (e_db (rt_eng rt))"
    by (simp_all add: rt1)
  have nonce: "tr_Nonce t + 1 = acc_nonce (acct (e_db (rt_eng ?rt3)) (tr_From t)) + 1"
    using ApplyTransfer_nonce [OF first [unfolded apply_db_def], of "tr_From t"] by simp
  obtain db where second: "apply_db ?t (rt_eng ?rt3) = (Inr (), db)"
    using ApplyTransfer_accepts [OF nonce, of "tr_AmountMas t" "tr_FeeMas t" "tr_To t"] funds by (auto simp: apply_db_def)
  note moved2 = ApplyTransfer_moves [OF second [unfolded apply_db_def]]
  obtain rt4 h' where rt4: "approve_pay c False now' rid ?t ?rt3 = (Inr h', rt4)" "e_db (rt_eng rt4) = db"
      "rt_store rt4 = rt_store rt"
    using approve_pay_intro [OF approve_pay_written [OF pay] second, of False now' rid] store by auto
  define rt5 where "rt5 = snd (approve_finish c later' i rid h' (snd (approve_finish c later i rid h rt4)))"
  have db5: "e_db (rt_eng rt5) = db"
    and rec5: "map_of (rt_store rt5) i = Some (paid later' h' (paid later h rec))"
    using rt4 rec by (simp_all add: rt5_def approve_finish_def set_record_store)
  have twice: "x - y - y = x - 2 * y" "x + y + y = x + 2 * y" for x y :: u64 by (simp_all add: algebra_simps)
  have "acc_balance (acct (e_db (rt_eng rt2)) (tr_From t)) = acc_balance (acct (e_db (rt_eng rt)) (tr_From t)) - (tr_AmountMas t + tr_FeeMas t)"
    "acc_balance (acct (e_db (rt_eng rt2)) (tr_To t)) = acc_balance (acct (e_db (rt_eng rt)) (tr_To t)) + tr_AmountMas t"
    using moved(2,3) apart by (auto simp add: fr)
  moreover have "acc_balance (acct db (tr_From t)) = acc_balance (acct (e_db (rt_eng rt2)) (tr_From t)) - (tr_AmountMas t + tr_FeeMas t)"
    "acc_balance (acct db (tr_To t)) = acc_balance (acct (e_db (rt_eng rt2)) (tr_To t)) + tr_AmountMas t"
    using moved2(2,3) moved(1) apart by (auto simp add: fr)
  ultimately have "acc_balance (acct (e_db (rt_eng rt5)) (tr_From t))
      = acc_balance (acct (e_db (rt_eng rt)) (tr_From t)) - 2 * (tr_AmountMas t + tr_FeeMas t)"
    "acc_balance (acct (e_db (rt_eng rt5)) (tr_To t)) = acc_balance (acct (e_db (rt_eng rt)) (tr_To t)) + 2 * tr_AmountMas t"
    by (simp_all only: db5 twice)
  moreover have "r_Status (paid later' h' (paid later h rec)) = ''paid''" "r_TxHash (paid later' h' (paid later h rec)) = h'"
    by (simp_all add: paid_def)
  ultimately show ?thesis using approve_check_again [OF chk pay] rt4(1) rt5_def rec5 by blast
qed

definition demo_rt1 :: Router where
  "demo_rt1 = demo_rt\<lparr>rt_eng := snd (eng_GetAccount ''tho1alice'' (rt_eng demo_rt))\<rparr>"

definition demo_t1 :: Transfer where
  "demo_t1 = approve_transfer demo_cfg 0 demo_rec 1"

lemma demo_chk_any:
  "approve_check (demo_cfg\<lparr>c_wr := w\<rparr>) demo_rq demo_rt = (Inr (''a1'', ''a1'', demo_t1), demo_rt1)"
proof -
  have "acct demo_db ''tho1alice'' = \<lparr>acc_balance = 100, acc_nonce = 0\<rparr>" by code_simp
  then show ?thesis
    by (subst approve_check_intro [of _ _ "\<lparr>pi_ID = ''a1'', pi_Party = [], pi_FeeMas = 0\<rparr>" _ demo_rec])
      (simp_all add: demo_rq_def demo_rt_def demo_rt1_def demo_t1_def demo_rec_def featR2P_def demo_cfg_def
        party_ok_iff str_simps approve_transfer_def feeBps_def)
qed

lemma demo_chk: "approve_check demo_cfg demo_rq demo_rt = (Inr (''a1'', ''a1'', demo_t1), demo_rt1)"
  using demo_chk_any [of "c_wr demo_cfg"] by simp

lemma demo_pay: "\<exists>h rt2. approve_pay demo_cfg False 9 ''a1'' demo_t1 demo_rt1 = (Inr h, rt2)"
proof -
  have "case fst (approve_pay demo_cfg False 9 ''a1'' demo_t1 demo_rt1) of Inr h \<Rightarrow> True | Inl _ \<Rightarrow> False"
    by code_simp
  then show ?thesis by (metis (no_types, lifting) old.sum.simps(5) prod.collapse sum.exhaust)
qed

theorem approve_twice_pays_witness:
  "\<exists>rt2 rt3 rt4 rt5 t h h'. approve_pay demo_cfg False 9 ''a1'' demo_t1 demo_rt1 = (Inr h, rt2)
    \<and> approve_check demo_cfg demo_rq rt2 = (Inr (''a1'', ''a1'', t), rt3)
    \<and> approve_pay demo_cfg False 10 ''a1'' t rt3 = (Inr h', rt4)
    \<and> rt5 = snd (approve_finish demo_cfg 12 ''a1'' ''a1'' h' (snd (approve_finish demo_cfg 11 ''a1'' ''a1'' h rt4)))
    \<and> acc_balance (acct (e_db (rt_eng rt5)) ''tho1bob'') = 60"
proof -
  obtain h rt2 where pay: "approve_pay demo_cfg False 9 ''a1'' demo_t1 demo_rt1 = (Inr h, rt2)" using demo_pay by blast
  have t1: "tr_From demo_t1 = ''tho1alice''" "tr_To demo_t1 = ''tho1bob''" "tr_AmountMas demo_t1 = 30"
    by (simp_all add: demo_t1_def approve_transfer_def demo_rec_def)
  have "tr_AmountMas demo_t1 + tr_FeeMas demo_t1
      \<le> acc_balance (acct (snd (apply_db demo_t1 (rt_eng demo_rt1))) (tr_From demo_t1))"
    and start: "acc_balance (acct (e_db (rt_eng demo_rt)) ''tho1bob'') = 0"
    and fr: "feeReceiver (e_db (rt_eng demo_rt)) = ''tho1foundation''"
    by code_simp+
  with approve_pay_Inr [OF pay]
  have "tr_AmountMas demo_t1 + tr_FeeMas demo_t1 \<le> acc_balance (acct (e_db (rt_eng rt2)) (tr_From demo_t1))" by simp
  from approve_twice_pays [OF demo_chk pay this, of 10 12 11] pay show ?thesis
    by (simp add: t1 start fr) blast
qed

text \<open>
  Fact. A paid request can end up declined: when a decline passes its check before the
  approval marks the record and finishes after it, the transfer has been applied, yet the record
  says \<open>declined\<close> and its transaction hash is empty.
\<close>

theorem paid_then_declined:
  assumes "approve_check c rq rt = (Inr (i, rid, t), rt1)"
    and "close_check c r_To m rq2 rt1 = (Inr (i, rid2), rt2)"
    and "approve_pay c False now rid t rt2 = (Inr h, rt3)"
  shows "let rt4 = snd (approve_finish c now i rid h rt3);
             rt5 = snd (close_finish ''declined'' (declined now2) i rid2 rt4)
    in apply_db t (rt_eng rt2) = (Inr (), e_db (rt_eng rt5))
      \<and> (\<exists>r. map_of (rt_store rt5) i = Some r \<and> r_Status r = ''declined'' \<and> r_TxHash r = [] \<and> r_PaidUTC r = now)"
proof -
  from assms(1) obtain rec and inp :: approveBody where "map_of (rt_store rt) i = Some rec"
    "rt1 = rt\<lparr>rt_eng := snd (eng_GetAccount (r_To rec) (rt_eng rt))\<rparr>" by (rule approve_check_Inr)
  moreover have "rt_store rt2 = rt_store rt1" using close_check_eq [OF assms(2)] by auto
  moreover have "rt_store rt3 = rt_store rt2" using arg_cong [OF assms(3), of "\<lambda>x. rt_store (snd x)"] by simp
  ultimately have i: "map_of (rt_store rt3) i = Some rec" by simp
  then show ?thesis
    using approve_pay_Inr [OF assms(3)]
    by (simp add: Let_def approve_finish_def close_finish_def saveR2P_def set_record_store paid_def declined_def)
qed

definition demo_decline :: "partyBody Request" where
  "demo_decline = \<lparr>rq_Method = ''POST'', rq_Path = ''/r2p/decline'', rq_Header = (\<lambda>k. []), rq_Query = (\<lambda>k. []),
     rq_Remote = [], rq_Body = Some \<lparr>pi_ID = ''a1'', pi_Party = []\<rparr>\<rparr>"

lemma demo_close:
  "close_check demo_cfg r_To [] demo_decline demo_rt1 = (Inr (''a1'', ''a1''), r2pSaveLocked demo_cfg demo_rt1)"
  by (simp add: close_check_def Let_def demo_decline_def featR2P_def demo_cfg_def demo_rt1_def demo_rt_def
      demo_rec_def party_ok_iff str_simps)

lemma demo_race_pay:
  "\<exists>h rt3. approve_pay demo_cfg False 9 ''a1'' demo_t1 (r2pSaveLocked demo_cfg demo_rt1) = (Inr h, rt3)"
proof -
  have "case fst (approve_pay demo_cfg False 9 ''a1'' demo_t1 (r2pSaveLocked demo_cfg demo_rt1)) of
      Inr h \<Rightarrow> True | Inl _ \<Rightarrow> False"
    by code_simp
  then show ?thesis by (metis (no_types, lifting) old.sum.simps(5) prod.collapse sum.exhaust)
qed

theorem paid_then_declined_witness:
  "\<exists>i (rt5 :: Router) r. map_of (rt_store rt5) i = Some r \<and> r_Status r = ''declined'' \<and> r_PaidUTC r = 9"
proof -
  obtain h rt3 where "approve_pay demo_cfg False 9 ''a1'' demo_t1 (r2pSaveLocked demo_cfg demo_rt1) = (Inr h, rt3)"
    using demo_race_pay by blast
  from paid_then_declined [OF demo_chk demo_close this, of 10] show ?thesis by (simp add: Let_def) blast
qed

section \<open>Files\<close>

text \<open>
  Fact. Money can move while the request stays open: if the transfer applies but the
  state file cannot be written, the payer is told the approval failed, the record is still open and
  can be approved again, and the accounts keep the transfer.
\<close>

theorem approve_unsaved_stays_open:
  assumes "approve_check c rq rt = (Inr (i, rid, t), rt1)" and "\<not> devFreeR2PEnabled c loopback rq"
    and "apply_db t (rt_eng rt1) = (Inr (), db)" and "\<not> c_wr c statePathV2" and "\<not> featAlias c"
  shows "let (resp, rt') = r2pApprove c loopback now later rq rt
    in rs_status resp = 400 \<and> rt_store rt' = rt_store rt \<and> e_db (rt_eng rt') = db"
proof -
  have store1: "rt_store rt1 = rt_store rt" using assms(1) by (auto elim!: approve_check_Inr)
  have "eng_ApplyTransfer (c_env c) (featAlias c) (c_wr c) t (rt_eng rt1)
      = (Inl ''write error'', (rt_eng rt1)\<lparr>e_db := db\<rparr>)"
    using assms(3-5) by (simp add: eng_ApplyTransfer_def apply_db_def saveStateMas_def WriteFile_def Let_def)
  then show ?thesis
    using assms(1,2) store1
    by (simp add: r2pApprove_def approve_pay_def case_prod_beta Let_def reply_def StoreReceipt_result)
qed

lemma demo_unsaved: "fst (apply_db demo_t1 (rt_eng demo_rt1)) = Inr ()"
  by code_simp

theorem approve_unsaved_stays_open_witness:
  "rs_status (fst (r2pApprove (demo_cfg\<lparr>c_wr := (\<lambda>p. False)\<rparr>) (\<lambda>a. False) 9 10 demo_rq demo_rt)) = 400"
proof -
  have "apply_db demo_t1 (rt_eng demo_rt1) = (Inr (), snd (apply_db demo_t1 (rt_eng demo_rt1)))"
    using demo_unsaved by (simp add: prod_eq_iff)
  from approve_unsaved_stays_open [OF demo_chk_any _ this, of "\<lambda>a. False" "\<lambda>p. False" 9] show ?thesis
    by (simp add: devFreeR2PEnabled_def featAlias_def demo_cfg_def case_prod_beta Let_def)
qed

lemma save_file:
  assumes "rt_path rt \<noteq> []" "c_wr c (rt_path rt @ ''.tmp'')"
  shows "ReadFile (rt_path rt) (rt_eng (r2pSaveLocked c rt)) = (if c_rename c then Some (c_encR2P c (rt_store rt)) else None)"
  using assms by (simp add: r2pSaveLocked_def ReadFile_def Let_def gomap_simps)

text \<open>
  Property C37. The saved store survives a restart, provided the temporary file can be written, the
  rename succeeds and the codec reads back what it wrote: a router that starts from the disk a
  save left has exactly the saved records.
\<close>

theorem r2p_save_restart:
  assumes "rt_path rt \<noteq> []" "c_wr c (rt_path rt @ ''.tmp'')" "c_rename c"
    and "c_decR2P c (c_encR2P c (rt_store rt)) = Some (rt_store rt)" "c_encR2P c (rt_store rt) \<noteq> []"
    and "rt_path rt0 = []" "e_disk (rt_eng rt0) = e_disk (rt_eng (r2pSaveLocked c rt))"
  shows "rt_store (SetR2PStorage c (rt_path rt) rt0) = rt_store rt"
  using save_file [OF assms(1,2)] assms(3-) by (simp add: SetR2PStorage_def ReadFile_def Let_def)

definition demo_cfg2 :: Config where
  "demo_cfg2 = demo_cfg\<lparr>c_encR2P := (\<lambda>m. [1]), c_decR2P := (\<lambda>b. Some [(''a1'', demo_rec)])\<rparr>"

definition demo_rt0 :: "(string, bytes) gomap \<Rightarrow> Router" where
  "demo_rt0 d = \<lparr>rt_eng = blank_engine d ([], []), rt_store = [], rt_path = [], rt_bindMismatch = 0, rt_badSig = 0\<rparr>"

lemma demo2_hyps:
  "rt_path demo_rt \<noteq> []" "c_wr demo_cfg2 p" "c_rename demo_cfg2"
  "c_decR2P demo_cfg2 (c_encR2P demo_cfg2 (rt_store demo_rt)) = Some (rt_store demo_rt)"
  "c_encR2P demo_cfg2 (rt_store demo_rt) \<noteq> []" "rt_path (demo_rt0 d) = []" "e_disk (rt_eng (demo_rt0 d)) = d"
  by (simp_all add: demo_cfg2_def demo_cfg_def demo_rt_def demo_rt0_def blank_engine_def)

theorem r2p_save_restart_witness:
  "rt_store (SetR2PStorage demo_cfg2 ''r2p.json'' (demo_rt0 (e_disk (rt_eng (r2pSaveLocked demo_cfg2 demo_rt)))))
   = [(''a1'', demo_rec)]"
  using r2p_save_restart [OF demo2_hyps] by (simp add: demo_rt_def)

text \<open>
  Fact. A decline is forgotten by a restart: the handler saves the store before it
  changes the record and never after, so that the file it leaves still holds the open record.
\<close>

theorem r2pDecline_lost_on_restart:
  assumes "rt_path rt \<noteq> []" "c_wr c (rt_path rt @ ''.tmp'')" "c_rename c"
    and "c_decR2P c (c_encR2P c (rt_store rt)) = Some (rt_store rt)" "c_encR2P c (rt_store rt) \<noteq> []"
    and "map_of (rt_store rt) i = Some r" "r_Status r = ''open''"
    and "map_of (rt_store (snd (r2pDecline c now rq rt))) i = Some (declined now r)"
    and "rt_path rt0 = []" "e_disk (rt_eng rt0) = e_disk (rt_eng (snd (r2pDecline c now rq rt)))"
  shows "map_of (rt_store (SetR2PStorage c (rt_path rt) rt0)) i = Some r"
proof -
  obtain chk rt1 where chk: "close_check c r_To ''payer_mismatch'' rq rt = (chk, rt1)" by fastforce
  have "declined now r \<noteq> r" using assms(7) by (auto simp: declined_def dest: arg_cong [of _ _ r_Status])
  moreover have "rt_store rt1 = rt_store rt" using close_check_eq [OF chk] by auto
  ultimately obtain j rid where "chk = Inr (j, rid)"
    using chk assms(6,8) by (cases chk) (auto simp: r2pDecline_def)
  with chk have chk: "close_check c r_To ''payer_mismatch'' rq rt = (Inr (j, rid), rt1)" by simp
  then have "rt1 = r2pSaveLocked c rt" by (rule close_check_Inr)
  with chk have "e_disk (rt_eng rt0) = e_disk (rt_eng (r2pSaveLocked c rt))"
    using assms(10) by (simp add: r2pDecline_def close_finish_def saveR2P_def)
  then have "ReadFile (rt_path rt) (rt_eng rt0) = Some (c_encR2P c (rt_store rt))"
    using save_file [OF assms(1,2)] assms(3) by (simp add: ReadFile_def)
  then show ?thesis using assms(4-6,9) by (simp add: SetR2PStorage_def ReadFile_def Let_def)
qed

lemma demo_declined:
  "map_of (rt_store (snd (r2pDecline demo_cfg2 9 demo_decline demo_rt))) ''a1'' = Some (declined 9 demo_rec)"
  by code_simp

theorem r2pDecline_lost_on_restart_witness:
  "map_of (rt_store (SetR2PStorage demo_cfg2 ''r2p.json''
     (demo_rt0 (e_disk (rt_eng (snd (r2pDecline demo_cfg2 9 demo_decline demo_rt))))))) ''a1'' = Some demo_rec"
proof -
  have "map_of (rt_store demo_rt) ''a1'' = Some demo_rec" "r_Status demo_rec = ''open''" "rt_path demo_rt = ''r2p.json''"
    by (simp_all add: demo_rt_def demo_rec_def)
  with r2pDecline_lost_on_restart [OF demo2_hyps(1-5) this(1,2) demo_declined demo2_hyps(6,7)]
  show ?thesis by simp
qed

text \<open>
  Fact. Saving removes the old file before it renames the new one: if the rename fails,
  no file is left under the path and a restart finds no records.
\<close>

theorem r2p_failed_rename_loses_file:
  assumes "rt_path rt \<noteq> []" "c_wr c (rt_path rt @ ''.tmp'')" "\<not> c_rename c"
    and "rt_path rt0 = []" "e_disk (rt_eng rt0) = e_disk (rt_eng (r2pSaveLocked c rt))"
  shows "rt_store (SetR2PStorage c (rt_path rt) rt0) = rt_store rt0"
  using save_file [OF assms(1,2)] assms(3-) by (simp add: SetR2PStorage_def ReadFile_def Let_def)

theorem r2p_failed_rename_loses_file_witness:
  "let c = demo_cfg2\<lparr>c_rename := False\<rparr>
   in rt_store (SetR2PStorage c ''r2p.json'' (demo_rt0 (e_disk (rt_eng (r2pSaveLocked c demo_rt))))) = []"
  using r2p_failed_rename_loses_file [of demo_rt "demo_cfg2\<lparr>c_rename := False\<rparr>"
      "demo_rt0 (e_disk (rt_eng (r2pSaveLocked (demo_cfg2\<lparr>c_rename := False\<rparr>) demo_rt)))"] demo2_hyps
  by (simp add: Let_def demo_rt_def demo_rt0_def)

end
