(* ===== verification/Cbor_Decode.thy ===== *)
theory Cbor_Decode
  imports Cbor
begin

text \<open>
  Reading CBOR back. \<open>cbor.Unmarshal\<close> into a slice of interfaces is a parameter \<open>uncbor\<close>; what
  the code relies on is that it returns, for an encoded array, the elements in their decoded Go
  types: a non-negative integer comes back as \<open>uint64\<close>, a negative one as \<open>int64\<close>, and the
  null that a nil byte slice was written as comes back as a nil interface (\<open>cbor_any\<close>). \<open>rfc8949_array\<close> reads the encoding of theory \<open>Cbor\<close> and shows that this can
  hold.
\<close>

type_synonym uncbor = "bytes \<Rightarrow> goval list result"

fun cbor_any :: "goval \<Rightarrow> goval" where
  "cbor_any (GInt i) = (if 0 \<le> sint i then GUint i else GInt i)"
| "cbor_any GNilBytes = GPtr None"
| "cbor_any v = v"

definition cbor_reads :: "uncbor \<Rightarrow> cbor \<Rightarrow> goval \<Rightarrow> bool" where
  "cbor_reads uncbor cbor v \<longleftrightarrow>
     (\<forall>vs b. v = GSlice vs \<longrightarrow> cbor v = Inr b \<longrightarrow> uncbor b = Inr (map cbor_any vs))"

section \<open>A reader for the concrete encoder\<close>

definition be_val :: "bytes \<Rightarrow> nat" where
  "be_val bs = fold (\<lambda>b n. n * 256 + unat b) bs 0"

definition cbor_unhead :: "bytes \<Rightarrow> (nat \<times> nat \<times> bytes) option" where
  "cbor_unhead bs = (case bs of
     [] \<Rightarrow> None
   | b # r \<Rightarrow>
       let m = unat b div 32; t = unat b mod 32; w = 2 ^ (t - 24)
       in if t < 24 then Some (m, t, r)
          else if 27 < t \<or> length r < w then None
          else Some (m, be_val (take w r), drop w r))"

definition cbor_atom :: "bytes \<Rightarrow> (goval \<times> bytes) option" where
  "cbor_atom bs = (case cbor_unhead bs of
     None \<Rightarrow> None
   | Some (m, n, r) \<Rightarrow>
       if m = 0 then Some (GUint (of_nat n), r)
       else if m = 1 then (if n < 2 ^ 63 then Some (GInt (- of_nat n - 1), r) else None)
       else if m = 2 then (if length r < n then None else Some (GBytes (take n r), drop n r))
       else if m = 3 then (if length r < n then None
         else Some (GString (map (\<lambda>b. char_of (unat b)) (take n r)), drop n r))
       else if m = 7 \<and> n \<in> {20, 21} then Some (GBool (n = 21), r)
       else if m = 7 \<and> n = 22 then Some (GPtr None, r)
       else None)"

fun cbor_atoms :: "nat \<Rightarrow> bytes \<Rightarrow> (goval list \<times> bytes) option" where
  "cbor_atoms 0 bs = Some ([], bs)"
| "cbor_atoms (Suc n) bs = (case cbor_atom bs of
     None \<Rightarrow> None
   | Some (v, r) \<Rightarrow> map_option (\<lambda>(vs, r'). (v # vs, r')) (cbor_atoms n r))"

definition rfc8949_array :: uncbor where
  "rfc8949_array bs = (case cbor_unhead bs of
     Some (m, n, r) \<Rightarrow>
       (if m \<noteq> 4 then Inl ''cbor: cannot unmarshal''
        else case cbor_atoms n r of
          Some (vs, []) \<Rightarrow> Inr vs
        | _ \<Rightarrow> Inl ''unexpected EOF'')
   | None \<Rightarrow> Inl ''unexpected EOF'')"

section \<open>It reads what the encoder writes\<close>

lemma fold_be_bytes: "fold (\<lambda>b n. n * 256 + unat b) (be_bytes k n) a = a * 256 ^ k + n mod 256 ^ k"
proof (induction k arbitrary: a)
  case (Suc k)
  have byte: "unat (of_nat (n div 256 ^ k mod 256) :: byte) = n div 256 ^ k mod 256"
    by (simp add: unat_of_nat)
  have "n mod 256 ^ Suc k = 256 ^ k * (n div 256 ^ k mod 256) + n mod 256 ^ k"
    by (simp only: power_Suc2 mod_mult2_eq)
  with Suc byte show ?case by (simp add: algebra_simps)
qed simp

lemma be_val_be_bytes: "n < 256 ^ k \<Longrightarrow> be_val (be_bytes k n) = n"
  by (simp add: be_val_def fold_be_bytes)

lemma cbor_unhead_long:
  assumes "m < 8" "24 \<le> t" "t \<le> 27" "w = 2 ^ (t - 24)" "n < 256 ^ w"
  shows "cbor_unhead (of_nat (32 * m + t) # be_bytes w n @ r) = Some (m, n, r)"
proof -
  have "unat (of_nat (32 * m + t) :: byte) = 32 * m + t"
    using assms(1-3) by (subst unat_of_nat) simp
  with assms show ?thesis by (simp add: cbor_unhead_def be_val_be_bytes Let_def)
qed

lemma cbor_unhead_head:
  assumes "m < 8" "n < 256 ^ 8"
  shows "cbor_unhead (cbor_head m n @ r) = Some (m, n, r)"
proof -
  consider "n < 24" | "24 \<le> n" "n < 256 ^ 1" | "256 ^ 1 \<le> n" "n < 256 ^ 2" | "256 ^ 2 \<le> n" "n < 256 ^ 4"
    | "256 ^ 4 \<le> n" by linarith
  then show ?thesis
  proof cases
    case 1
    then have "unat (of_nat (32 * m + n) :: byte) = 32 * m + n" using assms(1) by (subst unat_of_nat) simp
    with 1 show ?thesis by (simp add: cbor_head_def cbor_unhead_def Let_def)
  next
    case 2
    then have "cbor_head m n = of_nat (32 * m + 24) # be_bytes 1 n" by (simp add: cbor_head_def)
    then show ?thesis using cbor_unhead_long [OF assms(1) _ _ _ 2(2), of 24 r] by (simp only: append_Cons) simp
  next
    case 3
    then have "cbor_head m n = of_nat (32 * m + 25) # be_bytes 2 n" by (simp add: cbor_head_def)
    then show ?thesis using cbor_unhead_long [OF assms(1) _ _ _ 3(2), of 25 r] by simp
  next
    case 4
    then have "cbor_head m n = of_nat (32 * m + 26) # be_bytes 4 n" by (simp add: cbor_head_def)
    then show ?thesis using cbor_unhead_long [OF assms(1) _ _ _ 4(2), of 26 r] by simp
  next
    case 5
    then have "cbor_head m n = of_nat (32 * m + 27) # be_bytes 8 n" by (simp add: cbor_head_def)
    then show ?thesis using cbor_unhead_long [OF assms(1) _ _ _ assms(2), of 27 r] by simp
  qed
qed

text \<open>The elements of the arrays that the program encodes.\<close>

fun cbor_flat :: "goval \<Rightarrow> bool" where
  "cbor_flat (GInt i) = True"
| "cbor_flat (GSlice vs) = False"
| "cbor_flat v = cbor_plain v"

lemma unat_negative_i64:
  assumes "sint (i :: i64) < 0"
  shows "unat (- i - 1) < 2 ^ 63"
proof -
  have lo: "- (2 ^ 63) \<le> sint i" using sint_ge [of i] by simp
  have "- i - 1 = of_int (- sint i - 1)" by simp
  also have "\<dots> = of_nat (nat (- sint i - 1))" using assms by (subst of_nat_nat) simp_all
  finally have "unat (- i - 1) = nat (- sint i - 1)" using lo by (simp add: unat_of_nat)
  with lo assms show ?thesis by simp
qed

lemma chars_of_bytes: "map (\<lambda>b. char_of (unat b)) (bytes_of s) = s"
  by (simp add: bytes_of_def comp_def)

lemma unat_lt_256_8: "unat (i :: u64) < 256 ^ 8"
  using unat_u64_lt [of i] by simp

lemma cbor_atom_enc:
  assumes "cbor_flat v"
  shows "cbor_atom (cbor_enc v @ r) = Some (cbor_any v, r)"
  using assms
proof (cases v rule: cbor_flat.cases)
  case (1 i)
  have "unat (- i - 1) < 2 ^ 63" if "\<not> 0 \<le> sint i" using unat_negative_i64 [of i] that by simp
  then show ?thesis
    using unat_lt_256_8 [of i] unat_lt_256_8 [of "- i - 1"] by (auto simp: 1 cbor_atom_def cbor_unhead_head)
qed (use unat_lt_256_8 in \<open>simp_all add: cbor_atom_def cbor_unhead_head chars_of_bytes\<close>)

lemma cbor_atoms_enc:
  "list_all cbor_flat vs \<Longrightarrow> cbor_atoms (length vs) (concat (map cbor_enc vs) @ r) = Some (map cbor_any vs, r)"
  by (induction vs) (simp_all add: cbor_atom_enc)

lemma rfc8949_array_enc:
  assumes "list_all cbor_flat vs" "length vs < 256 ^ 8"
  shows "rfc8949_array (cbor_enc (GSlice vs)) = Inr (map cbor_any vs)"
  using cbor_unhead_head [of 4 "length vs" "concat (map cbor_enc vs)"] cbor_atoms_enc [OF assms(1), of "[]"] assms(2)
  by (simp add: rfc8949_array_def)

lemma rfc8949_reads:
  "list_all cbor_flat vs \<Longrightarrow> length vs < 256 ^ 8 \<Longrightarrow> cbor_reads rfc8949_array rfc8949 (GSlice vs)"
  using rfc8949_array_enc [of vs] by (auto simp only: cbor_reads_def rfc8949_def sum.inject goval.inject)

end
