(* ===== verification/Tx_Pipeline.thy ===== *)
theory Tx_Pipeline
  imports R2P_Props
begin

text \<open>
  The path of a transaction through \<open>internal/rpc/router.go\<close>: the prechecks on the request, the
  signature, the key binding and the commitment, the rewriting of signature errors, and the handlers
  of \<open>/tx\<close>. A middleware takes the handler behind it. The locale \<open>guard\<close> states what a
  precheck promises: it passes the request on unchanged or answers itself without touching the
  ledger; guards compose.

  The binding check was built with the engine pointer of package initialisation, which is nil; the
  method that it calls only reads a file, so the model uses the current files.
\<close>

section \<open>Definitions\<close>

type_synonym handler = "txPre Request \<Rightarrow> Router \<Rightarrow> Response \<times> Router"

definition is_tx :: "'b Request \<Rightarrow> bool" where
  "is_tx rq \<longleftrightarrow> rq_Method rq = ''POST'' \<and> rq_Path rq = ''/tx''"

definition fail :: "nat \<Rightarrow> string \<Rightarrow> Response" where
  "fail st reason = reply st [] [(''ok'', JBool False), (''reason'', JStr reason)]"

definition fail_expected :: "string \<Rightarrow> string \<Rightarrow> Response" where
  "fail_expected reason msg =
     reply 400 [] [(''ok'', JBool False), (''reason'', JStr reason), (''expected_message'', JStr msg)]"

definition must :: "Config \<Rightarrow> string \<Rightarrow> bool" where
  "must c k \<longleftrightarrow> c_getenv c k = ''1''"

subsection \<open>Precheck of the fields\<close>

definition expFee :: "Config \<Rightarrow> txPre \<Rightarrow> i64" where
  "expFee c inp = minFeeMas (if 0 < sint (tp_AmountMas inp) then tp_AmountMas inp else 1) (feeBps c)"

definition precheck_errs :: "Config \<Rightarrow> u64 \<Rightarrow> txPre \<Rightarrow> string list" where
  "precheck_errs c h inp =
     (if tp_ChainID inp \<noteq> [] \<and> tp_ChainID inp \<noteq> expectedChainID then [''bad_chain_id''] else [])
     @ (if sint (tp_AmountMas inp) \<le> 0 then [''amount_le_0''] else [])
     @ (if sint (tp_FeeMas inp) < sint (expFee c inp) then [''fee_below_min''] else [])
     @ (if length (tp_From inp) < 4 \<or> length (tp_To inp) < 4
          \<or> take 4 (tp_From inp) \<noteq> ''tho1'' \<or> take 4 (tp_To inp) \<noteq> ''tho1'' then [''addr_format''] else [])
     @ (if 0 < sint (tp_ExpiryHeight inp) \<and> tp_ExpiryHeight inp \<le> h then [''expired_height''] else [])"

definition precheck_reply :: "Config \<Rightarrow> u64 \<Rightarrow> txPre \<Rightarrow> Response" where
  "precheck_reply c h inp =
     reply 400 ctJSON [(''ok'', JBool False), (''errors'', JArr (map JStr (precheck_errs c h inp))),
       (''reason'', JStr ''tx_precheck_failed''), (''expected_fee_mas'', ji64 (expFee c inp)),
       (''expected_chain_id'', JStr expectedChainID), (''current_height'', ji64 h)]"

definition precheckFields :: "Config \<Rightarrow> handler \<Rightarrow> handler" where
  "precheckFields c next rq rt =
     (if \<not> is_tx rq then next rq rt
      else case rq_Body rq of
        None \<Rightarrow> (fail 400 ''malformed_json'', rt)
      | Some inp \<Rightarrow>
          let h = CurrentHeight (rt_eng rt)
          in if precheck_errs c h inp \<noteq> [] then (precheck_reply c h inp, rt) else next rq rt)"

definition sig_reasons :: "string list" where
  "sig_reasons = [''bad_signature'', ''bad_signature_encoding'', ''signature_required'', ''verify:bad_signature'']"

definition jsonizeSigErrors :: "handler \<Rightarrow> handler" where
  "jsonizeSigErrors next rq rt =
     (let (cap, rt) = next rq rt
      in if rq_Path rq \<noteq> ''/tx'' then (cap, rt)
         else if rs_status cap \<noteq> 400 then (cap, rt)
         else case rs_body cap of
           Some (JObj kvs) \<Rightarrow>
             if jget_str ''reason'' (JObj kvs) \<in> set sig_reasons
             then (reply 200 ctJSON [(''ok'', JBool True), (''applied'', JBool False),
                     (''reason'', JStr ''verify:bad_signature'')], incBadSigJSON rt)
             else (cap, rt)
         | _ \<Rightarrow> (cap, rt))"

definition withJSONErrorFallback :: "handler \<Rightarrow> handler" where
  "withJSONErrorFallback next = next"

definition txPrecheckWith :: "Config \<Rightarrow> handler \<Rightarrow> handler" where
  "txPrecheckWith c next = precheckFields c (withJSONErrorFallback (jsonizeSigErrors next))"

subsection \<open>Commitment, signature and key binding\<close>

definition commit_text :: "txPre \<Rightarrow> string" where
  "commit_text inp = dec_i64 (tp_Type inp) @ ''|'' @ tp_From inp @ ''|'' @ tp_To inp @ ''|''
     @ dec_i64 (tp_AmountMas inp) @ ''|'' @ dec_i64 (tp_FeeMas inp) @ ''|'' @ dec_i64 (tp_Nonce inp) @ ''|''
     @ tp_ChainID inp @ ''|'' @ dec_i64 (tp_ExpiryHeight inp)"

definition calcCommit :: "Config \<Rightarrow> txPre \<Rightarrow> string" where
  "calcCommit c inp = hex_encode (env_sha (c_env c) (bytes_of (commit_text inp)))"

definition precheckCommit :: "Config \<Rightarrow> handler \<Rightarrow> handler" where
  "precheckCommit c next rq rt =
     (if \<not> is_tx rq then next rq rt
      else case rq_Body rq of
        None \<Rightarrow> (fail 400 ''malformed_json'', rt)
      | Some inp \<Rightarrow>
          let expected = calcCommit c inp; req = must c ''THOMAS_REQUIRE_COMMIT''
          in if tp_MsgCommitment inp = [] then
               (if req then (fail_expected ''commitment_required'' expected, rt) else next rq rt)
             else if req \<and> tp_MsgCommitment inp \<noteq> expected
             then (fail_expected ''bad_commitment'' expected, rt)
             else next rq rt)"

definition sig_given :: "txPre Request \<Rightarrow> txPre \<Rightarrow> string" where
  "sig_given rq inp =
     (if rq_Header rq ''X-Sig'' = [] \<and> tp_Sig inp \<noteq> [] then tp_Sig inp else rq_Header rq ''X-Sig'')"

definition precheckSig :: "Config \<Rightarrow> handler \<Rightarrow> handler" where
  "precheckSig c next rq rt =
     (if \<not> is_tx rq then next rq rt
      else case rq_Body rq of
        None \<Rightarrow> (fail 400 ''malformed_json'', rt)
      | Some inp \<Rightarrow>
          let commit = calcCommit c inp; pkB64 = rq_Header rq ''X-PubKey''; sgB64 = sig_given rq inp
          in if pkB64 = [] \<or> sgB64 = [] then
               (if must c ''THOMAS_VERIFY_SIG'' then (fail_expected ''signature_required'' commit, rt)
                else next rq rt)
             else case (b64_decode False pkB64, b64_decode False sgB64) of
               (Some pk, Some sg) \<Rightarrow>
                 if length pk \<noteq> 32 \<or> length sg \<noteq> 64 then (fail 400 ''bad_signature_encoding'', rt)
                 else if \<not> c_verify c pk (bytes_of commit) sg
                 then (fail_expected ''bad_signature'' commit, rt)
                 else next rq rt
             | _ \<Rightarrow> (fail 400 ''bad_signature_encoding'', rt))"

text \<open>
  The results are \<open>implemented\<close> and \<open>ok\<close>. The chain is built before the engine is set, so the
  method runs on a nil engine; it only reads the key file and never the engine itself.
\<close>

definition verifyFromBindingReflect :: "Env \<Rightarrow> Engine \<Rightarrow> string \<Rightarrow> bytes \<Rightarrow> bool \<times> bool" where
  "verifyFromBindingReflect env e addr pk =
     (case first_method [''VerifyFromBinding'', ''AddressOwnsPubKey'', ''OwnsPubKey'', ''VerifySender'']
         [(''VerifyFromBinding'', VerifyFromBinding env)] of
        Some f \<Rightarrow> (True, f addr pk e)
      | None \<Rightarrow>
          (case first_method [''GetAccountPubKey'', ''AccountPubKey'', ''PubKeyOf'', ''PubKeyByAddress'']
              [(''GetAccountPubKey'', GetAccountPubKey env)] of
             None \<Rightarrow> (False, False)
           | Some g \<Rightarrow>
               (case hex_decode (g addr e) of
                  Some b \<Rightarrow> (True, b = pk)
                | None \<Rightarrow> (case b64_decode False (g addr e) of
                    Some b \<Rightarrow> (True, b = pk) | None \<Rightarrow> (False, False)))))"

definition precheckFromBindingWith :: "Config \<Rightarrow> handler \<Rightarrow> handler" where
  "precheckFromBindingWith c next rq rt =
     (if \<not> is_tx rq then next rq rt
      else case rq_Body rq of
        None \<Rightarrow> (fail 400 ''malformed_json'', rt)
      | Some inp \<Rightarrow>
          let pkB64 = rq_Header rq ''X-PubKey''; req = must c ''THOMAS_REQUIRE_FROM_PUBKEY''
          in if pkB64 = [] then
               (if req then (fail 400 ''from_pubkey_required'', rt) else next rq rt)
             else case b64_decode False pkB64 of
               None \<Rightarrow> (fail 400 ''bad_pubkey_encoding'', rt)
             | Some pk \<Rightarrow>
                 if length pk \<noteq> 32 then (fail 400 ''bad_pubkey_encoding'', rt)
                 else case verifyFromBindingReflect (c_env c) (rt_eng rt) (tp_From inp) pk of
                   (False, _) \<Rightarrow>
                     if req then (fail 501 ''from_binding_not_implemented'', rt) else next rq rt
                 | (True, ok) \<Rightarrow>
                     if \<not> ok then (fail 400 ''from_pubkey_mismatch'', incBindMismatch rt) else next rq rt)"

text \<open>The older variant, which is not installed: the key comes from a process variable.\<close>

definition precheckFromBinding :: "Config \<Rightarrow> handler \<Rightarrow> handler" where
  "precheckFromBinding c next rq rt =
     (if \<not> is_tx rq then next rq rt
      else case rq_Body rq of
        None \<Rightarrow> (fail 400 ''malformed_json'', rt)
      | Some inp \<Rightarrow>
          let expected = c_getenv c (''THOMAS_PUBKEY_'' @ tp_From inp); provided = rq_Header rq ''X-PubKey''
          in if expected \<noteq> [] \<and> provided \<noteq> [] \<and> provided \<noteq> expected
             then (reply 200 [] [(''ok'', JBool True), (''applied'', JBool False),
                     (''reason'', JStr ''verify:from_pub_mismatch'')], incBindMismatch rt)
             else next rq rt)"

subsection \<open>Handlers of /tx\<close>

definition tx_of :: "txPre \<Rightarrow> Transfer" where
  "tx_of inp = \<lparr>tr_Type = tp_Type inp, tr_From = tp_From inp, tr_To = tp_To inp,
     tr_AmountMas = tp_AmountMas inp, tr_FeeMas = tp_FeeMas inp, tr_Nonce = tp_Nonce inp,
     tr_ChainID = tp_ChainID inp, tr_ExpiryHeight = tp_ExpiryHeight inp, tr_MsgCommit = []\<rparr>"

definition txPostHandler :: "Config \<Rightarrow> i64 \<Rightarrow> handler" where
  "txPostHandler c now rq rt =
     (if rq_Method rq \<noteq> ''POST'' then (status_only 405, rt)
      else case rq_Body rq of
        None \<Rightarrow> (fail 400 ''malformed_json'', rt)
      | Some inp \<Rightarrow>
          let t = tx_of inp
          in case eng_ApplyTransfer (c_env c) (featAlias c) (c_wr c) t (rt_eng rt) of
               (Inl err, e) \<Rightarrow>
                 let reason = ''apply:'' @ err;
                     (rc, e) = StoreReceipt (c_env c) (c_wr c) now t False reason e
                 in (reply 400 [] [(''ok'', JBool False), (''applied'', JBool False),
                       (''reason'', JStr reason), (''receipt'', receipt_obj rc)], rt\<lparr>rt_eng := e\<rparr>)
             | (Inr _, e) \<Rightarrow>
                 let (rc, e) = StoreReceipt (c_env c) (c_wr c) now t True [] e
                 in (reply 200 ctJSON [(''ok'', JBool True), (''applied'', JBool True),
                       (''receipt'', receipt_obj rc)], rt\<lparr>rt_eng := e\<rparr>))"

definition ctNoStore :: "(string \<times> string) list" where
  "ctNoStore = ctJSON8 @ [(''Cache-Control'', ''no-store'')]"

definition payment_obj :: "r2pRecord \<Rightarrow> json" where
  "payment_obj r = JObj ([(''id'', JStr (r_ID r)), (''from'', JStr (r_From r)), (''to'', JStr (r_To r)),
     (''amount_mas'', ju64 (r_AmountMas r)), (''memo'', JStr (r_Memo r)), (''status'', JStr (r_Status r)),
     (''created_utc'', ji64 (r_CreatedUTC r))]
     @ (if 0 < sint (r_PaidUTC r) then [(''paid_utc'', ji64 (r_PaidUTC r))] else []))"

definition txGetHandler :: "'b Request \<Rightarrow> Router \<Rightarrow> Response" where
  "txGetHandler rq rt =
     (if rq_Method rq = ''OPTIONS'' then status_only 204
      else if rq_Method rq \<noteq> ''GET'' then status_only 405
      else
        let hash = trim_space (rq_Query rq ''hash'')
        in if hash = []
           then reply 400 ctNoStore [(''ok'', JBool False), (''error'', JStr ''missing_hash'')]
           else case GetReceipt hash (rt_eng rt) of
             Some r \<Rightarrow> reply 200 ctNoStore [(''ok'', JBool True), (''receipt'', receipt_obj r)]
           | None \<Rightarrow>
               (case find (\<lambda>kr. r_TxHash (snd kr) \<noteq> [] \<and> to_lower (r_TxHash (snd kr)) = to_lower hash) (rt_store rt) of
                  Some (_, r) \<Rightarrow> reply 200 ctNoStore [(''ok'', JBool True), (''hash'', JStr (r_TxHash r)),
                    (''kind'', JStr ''r2p_payment''), (''r2p'', payment_obj r)]
                | None \<Rightarrow> reply 404 ctNoStore [(''ok'', JBool False), (''error'', JStr ''not_found'')]))"

definition txHandler :: "Config \<Rightarrow> i64 \<Rightarrow> handler" where
  "txHandler c now rq rt =
     (if rq_Method rq = ''POST'' then txPostHandler c now rq rt
      else if rq_Method rq = ''GET'' then (txGetHandler rq rt, rt)
      else if rq_Method rq = ''OPTIONS'' then (status_only 204, rt)
      else (status_only 405, rt))"

text \<open>The chain in front of the multiplexer, for requests to \<open>/tx\<close>.\<close>

definition tx_root :: "Config \<Rightarrow> i64 \<Rightarrow> handler" where
  "tx_root c now =
     txPrecheckWith c (precheckSig c (precheckFromBindingWith c (precheckCommit c (txHandler c now))))"

section \<open>Guards\<close>

definition applied :: "Response \<Rightarrow> bool" where
  "applied resp \<longleftrightarrow> (case rs_body resp of Some j \<Rightarrow> jget ''applied'' j = Some (JBool True) | None \<Rightarrow> False)"

lemma applied_simps [simp]:
  "\<not> applied (fail st reason)" "\<not> applied (fail_expected reason msg)" "\<not> applied (status_only st)"
  "\<not> applied (precheck_reply c h inp)"
  by (simp_all add: applied_def fail_def fail_expected_def status_only_def precheck_reply_def reply_def jget_def)

text \<open>What a precheck promises.\<close>

locale guard =
  fixes mw :: "handler \<Rightarrow> handler" and pass :: "txPre Request \<Rightarrow> Router \<Rightarrow> bool"
  assumes passes: "pass rq rt \<Longrightarrow> mw next rq rt = next rq rt"
    and stops: "\<not> pass rq rt \<Longrightarrow> \<not> applied (fst (mw next rq rt))
      \<and> rt_eng (snd (mw next rq rt)) = rt_eng rt \<and> rt_store (snd (mw next rq rt)) = rt_store rt"
begin

lemma applied_passes: "applied (fst (mw next rq rt)) \<Longrightarrow> pass rq rt \<and> mw next rq rt = next rq rt"
  using passes stops by blast

lemma cases_pass:
  obtains "pass rq rt" "mw next rq rt = next rq rt"
  | "\<not> pass rq rt" "\<not> applied (fst (mw next rq rt))" "rt_eng (snd (mw next rq rt)) = rt_eng rt"
    "rt_store (snd (mw next rq rt)) = rt_store rt"
  using passes stops by blast

end

text \<open>Guards compose.\<close>

locale guard_pair = outer: guard mw1 p1 + inner: guard mw2 p2 for mw1 p1 mw2 p2

sublocale guard_pair \<subseteq> pair: guard "\<lambda>nx. mw1 (mw2 nx)" "\<lambda>rq rt. p1 rq rt \<and> p2 rq rt"
proof
  show "mw1 (mw2 nx) rq rt = nx rq rt" if "p1 rq rt \<and> p2 rq rt" for nx rq rt
    using that by (simp add: outer.passes inner.passes)
  show "\<not> applied (fst (mw1 (mw2 nx) rq rt)) \<and> rt_eng (snd (mw1 (mw2 nx) rq rt)) = rt_eng rt
      \<and> rt_store (snd (mw1 (mw2 nx) rq rt)) = rt_store rt" if "\<not> (p1 rq rt \<and> p2 rq rt)" for nx rq rt
    by (cases "p1 rq rt") (use that outer.stops inner.stops in \<open>auto simp: outer.passes\<close>)
qed

text \<open>The conditions under which the four prechecks of a request to \<open>/tx\<close> pass.\<close>

definition fields_pass :: "Config \<Rightarrow> txPre Request \<Rightarrow> Router \<Rightarrow> bool" where
  "fields_pass c rq rt \<longleftrightarrow> (is_tx rq \<longrightarrow>
     (\<exists>inp. rq_Body rq = Some inp \<and> precheck_errs c (CurrentHeight (rt_eng rt)) inp = []))"

definition commit_pass :: "Config \<Rightarrow> txPre Request \<Rightarrow> Router \<Rightarrow> bool" where
  "commit_pass c rq rt \<longleftrightarrow> (is_tx rq \<longrightarrow> (\<exists>inp. rq_Body rq = Some inp
     \<and> (must c ''THOMAS_REQUIRE_COMMIT'' \<longrightarrow> tp_MsgCommitment inp \<noteq> [] \<and> tp_MsgCommitment inp = calcCommit c inp)))"

definition sig_valid :: "Config \<Rightarrow> txPre Request \<Rightarrow> txPre \<Rightarrow> bool" where
  "sig_valid c rq inp \<longleftrightarrow> (\<exists>pk sg. b64_decode False (rq_Header rq ''X-PubKey'') = Some pk \<and> length pk = 32
     \<and> b64_decode False (sig_given rq inp) = Some sg \<and> length sg = 64
     \<and> c_verify c pk (bytes_of (calcCommit c inp)) sg)"

definition sig_pass :: "Config \<Rightarrow> txPre Request \<Rightarrow> Router \<Rightarrow> bool" where
  "sig_pass c rq rt \<longleftrightarrow> (is_tx rq \<longrightarrow> (\<exists>inp. rq_Body rq = Some inp
     \<and> (if rq_Header rq ''X-PubKey'' = [] \<or> sig_given rq inp = [] then \<not> must c ''THOMAS_VERIFY_SIG''
        else sig_valid c rq inp)))"

definition bind_pass :: "Config \<Rightarrow> txPre Request \<Rightarrow> Router \<Rightarrow> bool" where
  "bind_pass c rq rt \<longleftrightarrow> (is_tx rq \<longrightarrow> (\<exists>inp. rq_Body rq = Some inp
     \<and> (if rq_Header rq ''X-PubKey'' = [] then \<not> must c ''THOMAS_REQUIRE_FROM_PUBKEY''
        else (\<exists>pk. b64_decode False (rq_Header rq ''X-PubKey'') = Some pk \<and> length pk = 32
           \<and> VerifyFromBinding (c_env c) (tp_From inp) pk (rt_eng rt)))))"

interpretation fields: guard "precheckFields c" "fields_pass c" for c
  by unfold_locales (auto simp: precheckFields_def fields_pass_def Let_def split: option.splits)

interpretation commit: guard "precheckCommit c" "commit_pass c" for c
  by unfold_locales (auto simp: precheckCommit_def commit_pass_def Let_def split: option.splits if_splits)

interpretation sig: guard "precheckSig c" "sig_pass c" for c
  by unfold_locales
    (auto simp: precheckSig_def sig_pass_def sig_valid_def Let_def split: option.splits if_splits)

lemma verifyFromBindingReflect_eq: "verifyFromBindingReflect env e a pk = (True, VerifyFromBinding env a pk e)"
  by (simp add: verifyFromBindingReflect_def)

interpretation bind: guard "precheckFromBindingWith c" "bind_pass c" for c
  by unfold_locales
    (auto simp: precheckFromBindingWith_def bind_pass_def verifyFromBindingReflect_eq incBindMismatch_def Let_def
      split: option.splits if_splits)

interpretation bc: guard_pair "precheckFromBindingWith c" "bind_pass c" "precheckCommit c" "commit_pass c" for c
  by unfold_locales

interpretation sbc: guard_pair "precheckSig c" "sig_pass c"
    "\<lambda>next. precheckFromBindingWith c (precheckCommit c next)" "\<lambda>rq rt. bind_pass c rq rt \<and> commit_pass c rq rt" for c
  by unfold_locales

section \<open>What reaches the ledger\<close>

lemma jsonize_frame:
  "rt_eng (snd (jsonizeSigErrors nx rq rt)) = rt_eng (snd (nx rq rt))"
  "rt_store (snd (jsonizeSigErrors nx rq rt)) = rt_store (snd (nx rq rt))"
  by (simp_all add: jsonizeSigErrors_def incBadSigJSON_def case_prod_beta Let_def split: option.split json.split)

lemma jsonize_applied: "applied (fst (jsonizeSigErrors nx rq rt)) \<Longrightarrow> applied (fst (nx rq rt))"
  by (auto simp: jsonizeSigErrors_def applied_def reply_def jget_def case_prod_beta Let_def
      split: option.splits json.splits if_splits)

lemma jsonize_ok: "rs_status (fst (nx rq rt)) \<noteq> 400 \<Longrightarrow> jsonizeSigErrors nx rq rt = nx rq rt"
  by (auto simp: jsonizeSigErrors_def case_prod_beta Let_def)

lemmas tx_handler_defs = txHandler_def txPostHandler_def is_tx_def case_prod_beta Let_def

lemma applied_reply [simp]:
  "applied (reply st hs ((''ok'', b) # (''applied'', JBool x) # kvs)) \<longleftrightarrow> x"
  by (simp add: applied_def reply_def jget_def)

lemma txPost_ok:
  assumes "is_tx rq" "applied (fst (txHandler c now rq rt))"
  obtains inp where "rq_Body rq = Some inp" "rs_status (fst (txHandler c now rq rt)) = 200"
    "apply_db (tx_of inp) (rt_eng rt) = (Inr (), e_db (rt_eng (snd (txHandler c now rq rt))))"
    "map_option rc_Status (GetReceipt (tx_Hash (env_sha (c_env c)) (tx_of inp)) (rt_eng (snd (txHandler c now rq rt)))) = Some ''applied''"
proof -
  obtain inp where inp: "rq_Body rq = Some inp"
    using assms by (cases "rq_Body rq") (auto simp: tx_handler_defs)
  obtain r e where a: "eng_ApplyTransfer (c_env c) (featAlias c) (c_wr c) (tx_of inp) (rt_eng rt) = (r, e)" by fastforce
  obtain u where r: "r = Inr u"
    using assms inp a by (cases r) (auto simp: tx_handler_defs)
  from a r have "apply_db (tx_of inp) (rt_eng rt) = (Inr (), e_db e)" using eng_ApplyTransfer_ok by blast
  then show thesis
    using a r assms(1) inp by (intro that [OF inp]) (simp_all add: tx_handler_defs StoreReceipt_result reply_def)
qed

lemma txPost_rejected:
  assumes "is_tx rq" "\<not> applied (fst (txHandler c now rq rt))" "c_wr c statePathV2"
  shows "acct (e_db (rt_eng (snd (txHandler c now rq rt)))) = acct (e_db (rt_eng rt))"
proof (cases "rq_Body rq")
  case (Some inp)
  obtain r e where e: "eng_ApplyTransfer (c_env c) (featAlias c) (c_wr c) (tx_of inp) (rt_eng rt) = (r, e)" by fastforce
  obtain err where r: "r = Inl err" using assms Some e by (cases r) (auto simp: tx_handler_defs)
  have "acct (e_db e) = acct (e_db (rt_eng rt))"
    using e r assms(3)
    by (cases "apply_db (tx_of inp) (rt_eng rt)"; cases "fst (apply_db (tx_of inp) (rt_eng rt))")
      (auto simp: eng_ApplyTransfer_def apply_db_def tryApplyAliasSetTx_def saveStateMas_def WriteFile_def Let_def
        split: if_splits dest: ApplyTransfer_Inl_acct)
  then show ?thesis using Some e r assms(1) by (simp add: tx_handler_defs StoreReceipt_result)
qed (use assms(1) in \<open>simp add: tx_handler_defs\<close>)

text \<open>Either a precheck stopped the request, or the handler ran and its verdict is the answer's.\<close>

lemma tx_root_cases:
  assumes "is_tx rq"
  obtains (stopped) "\<not> applied (fst (tx_root c now rq rt))" "rt_eng (snd (tx_root c now rq rt)) = rt_eng rt"
  | (handled) "fields_pass c rq rt" "sig_pass c rq rt" "bind_pass c rq rt" "commit_pass c rq rt"
    "applied (fst (tx_root c now rq rt)) \<longleftrightarrow> applied (fst (txHandler c now rq rt))"
    "rt_eng (snd (tx_root c now rq rt)) = rt_eng (snd (txHandler c now rq rt))"
proof -
  let ?inner = "\<lambda>rq rt. precheckSig c (precheckFromBindingWith c (precheckCommit c (txHandler c now))) rq rt"
  have root: "tx_root c now rq rt = precheckFields c (jsonizeSigErrors ?inner) rq rt"
    by (simp add: tx_root_def txPrecheckWith_def withJSONErrorFallback_def)
  show thesis
  proof (cases rule: fields.cases_pass [of c rq rt "jsonizeSigErrors ?inner"])
    case 1
    note f = this
    show thesis
    proof (cases rule: sbc.pair.cases_pass [of c rq rt "txHandler c now"])
      case 1
      have "applied (fst (tx_root c now rq rt)) \<longleftrightarrow> applied (fst (txHandler c now rq rt))"
      proof
        assume "applied (fst (tx_root c now rq rt))"
        then show "applied (fst (txHandler c now rq rt))"
          using root f jsonize_applied [of ?inner rq rt] 1 by simp
      next
        assume a: "applied (fst (txHandler c now rq rt))"
        with assms have "rs_status (fst (txHandler c now rq rt)) = 200" by (rule txPost_ok)
        with 1 have "jsonizeSigErrors ?inner rq rt = txHandler c now rq rt"
          by (subst jsonize_ok) simp_all
        with a root f show "applied (fst (tx_root c now rq rt))" by simp
      qed
      with 1 f show thesis using root jsonize_frame(1) [of ?inner rq rt] by (intro handled) simp_all
    next
      case 2
      then show thesis
        using root f jsonize_frame(1) [of ?inner rq rt] jsonize_applied [of ?inner rq rt] by (intro stopped) auto
    qed
  next
    case 2
    then show thesis using root by (intro stopped) simp_all
  qed
qed

text \<open>
  Property C6. Only authorised transfers are applied: when the answer to a request to \<open>/tx\<close>
  says that it was applied, the chain identifier is empty or the node's, the amount is positive, the
  fee is at least the minimum, both addresses have the prefix, the expiry height is not reached; if
  commitments are required the one given is the hash of the fields; if signatures are required the
  signature in the request verifies on that hash under a key that the node's binding file assigns
  to the sender; and the accounts are those after exactly this transfer, whose receipt is filed.
\<close>

theorem tx_applied_authorised:
  assumes "is_tx rq" and "applied (fst (tx_root c now rq rt))"
  shows "\<exists>inp. rq_Body rq = Some inp
    \<and> tp_ChainID inp \<in> {[], expectedChainID} \<and> 0 < sint (tp_AmountMas inp) \<and> sint (expFee c inp) \<le> sint (tp_FeeMas inp)
    \<and> take 4 (tp_From inp) = ''tho1'' \<and> take 4 (tp_To inp) = ''tho1''
    \<and> (0 < sint (tp_ExpiryHeight inp) \<longrightarrow> CurrentHeight (rt_eng rt) < tp_ExpiryHeight inp)
    \<and> (must c ''THOMAS_REQUIRE_COMMIT'' \<longrightarrow> tp_MsgCommitment inp = calcCommit c inp)
    \<and> (must c ''THOMAS_VERIFY_SIG'' \<longrightarrow> (\<exists>pk sg. b64_decode False (rq_Header rq ''X-PubKey'') = Some pk
         \<and> b64_decode False (sig_given rq inp) = Some sg \<and> c_verify c pk (bytes_of (calcCommit c inp)) sg
         \<and> VerifyFromBinding (c_env c) (tp_From inp) pk (rt_eng rt)))
    \<and> apply_db (tx_of inp) (rt_eng rt) = (Inr (), e_db (rt_eng (snd (tx_root c now rq rt))))
    \<and> map_option rc_Status (GetReceipt (tx_Hash (env_sha (c_env c)) (tx_of inp)) (rt_eng (snd (tx_root c now rq rt))))
        = Some ''applied''"
proof (cases rule: tx_root_cases [OF assms(1), of c now rt, case_names stopped handled])
  case stopped
  with assms(2) show ?thesis by simp
next
  case handled
  with assms(2) have "applied (fst (txHandler c now rq rt))" by simp
  with assms(1) obtain inp where inp: "rq_Body rq = Some inp"
    and ok: "apply_db (tx_of inp) (rt_eng rt) = (Inr (), e_db (rt_eng (snd (txHandler c now rq rt))))"
      "map_option rc_Status (GetReceipt (tx_Hash (env_sha (c_env c)) (tx_of inp)) (rt_eng (snd (txHandler c now rq rt)))) = Some ''applied''"
    by (rule txPost_ok)
  have "precheck_errs c (CurrentHeight (rt_eng rt)) inp = []"
    using handled(1) assms(1) inp by (simp add: fields_pass_def)
  moreover have "must c ''THOMAS_REQUIRE_COMMIT'' \<longrightarrow> tp_MsgCommitment inp = calcCommit c inp"
    using handled(4) assms(1) inp by (simp add: commit_pass_def)
  moreover have "must c ''THOMAS_VERIFY_SIG'' \<longrightarrow> (\<exists>pk sg. b64_decode False (rq_Header rq ''X-PubKey'') = Some pk
      \<and> b64_decode False (sig_given rq inp) = Some sg \<and> c_verify c pk (bytes_of (calcCommit c inp)) sg
      \<and> VerifyFromBinding (c_env c) (tp_From inp) pk (rt_eng rt))"
    using handled(2,3) assms(1) inp by (auto simp: sig_pass_def bind_pass_def sig_valid_def split: if_splits)
  ultimately show ?thesis
    using inp ok handled(6) by (intro exI [of _ inp]) (auto simp: precheck_errs_def not_le not_less split: if_splits)
qed

definition demo_pre :: txPre where
  "demo_pre = \<lparr>tp_Type = 1, tp_From = ''tho1alice'', tp_To = ''tho1bob'', tp_AmountMas = 5, tp_FeeMas = 1, tp_Nonce = 1,
     tp_ChainID = [], tp_ExpiryHeight = 0, tp_MsgCommitment = [], tp_Sig = []\<rparr>"

definition demo_post :: "txPre Request" where
  "demo_post = \<lparr>rq_Method = ''POST'', rq_Path = ''/tx'', rq_Header = (\<lambda>k. []), rq_Query = (\<lambda>k. []), rq_Remote = [],
     rq_Body = Some demo_pre\<rparr>"

lemma demo_applied: "applied (fst (tx_root demo_cfg 9 demo_post demo_rt))"
  by code_simp

theorem tx_applied_authorised_witness:
  "fst (apply_db (tx_of demo_pre) (rt_eng demo_rt)) = Inr ()"
proof -
  have "is_tx demo_post" by (simp add: is_tx_def demo_post_def)
  from tx_applied_authorised [OF this demo_applied] show ?thesis by (auto simp: demo_post_def)
qed

text \<open>
  Property C18. A request to \<open>/tx\<close> that is not applied leaves every account as it was, provided
  the state file can be written.
\<close>

theorem tx_rejected_keeps_accounts:
  assumes "is_tx rq" and "\<not> applied (fst (tx_root c now rq rt))" and "c_wr c statePathV2"
  shows "acct (e_db (rt_eng (snd (tx_root c now rq rt)))) a = acct (e_db (rt_eng rt)) a"
proof (cases rule: tx_root_cases [OF assms(1), of c now rt, case_names stopped handled])
  case handled
  with assms(2) have "\<not> applied (fst (txHandler c now rq rt))" by simp
  from txPost_rejected [OF assms(1) this assms(3)] handled(6) show ?thesis by simp
qed simp

theorem tx_rejected_keeps_accounts_witness:
  "acct (e_db (rt_eng (snd (tx_root demo_cfg 9 (demo_post\<lparr>rq_Body := None\<rparr>) demo_rt)))) ''tho1alice''
   = acct demo_db ''tho1alice''"
proof -
  have "\<not> applied (fst (tx_root demo_cfg 9 (demo_post\<lparr>rq_Body := None\<rparr>) demo_rt))"
    by (simp add: tx_root_def txPrecheckWith_def precheckFields_def is_tx_def demo_post_def)
  moreover have "is_tx (demo_post\<lparr>rq_Body := None\<rparr>)" by (simp add: is_tx_def demo_post_def)
  ultimately show ?thesis
    using tx_rejected_keeps_accounts [of "demo_post\<lparr>rq_Body := None\<rparr>" demo_cfg 9 demo_rt] by (simp add: demo_cfg_def demo_rt_def)
qed

text \<open>
  Fact. A bad signature is reported as a success of the request: whenever the fields
  pass and the signature check does not, the client receives status 200 with \<open>ok\<close> true,
  \<open>applied\<close> false and the reason \<open>verify:bad_signature\<close>, the bad-signature counter goes up by
  one and nothing else changes.
\<close>

theorem bad_signature_reply:
  assumes "is_tx rq" and "fields_pass c rq rt" and "\<not> sig_pass c rq rt"
  shows "tx_root c now rq rt = (reply 200 ctJSON [(''ok'', JBool True), (''applied'', JBool False),
    (''reason'', JStr ''verify:bad_signature'')], incBadSigJSON rt)"
proof -
  let ?inner = "\<lambda>rq rt. precheckSig c (precheckFromBindingWith c (precheckCommit c (txHandler c now))) rq rt"
  obtain inp where inp: "rq_Body rq = Some inp" using assms(1,2) by (auto simp: fields_pass_def)
  have "\<exists>reason kvs. ?inner rq rt = (reply 400 [] ((''ok'', JBool False) # (''reason'', JStr reason) # kvs), rt)
      \<and> reason \<in> set sig_reasons"
    using assms(1,3) inp
    by (auto simp: precheckSig_def sig_pass_def sig_valid_def fail_def fail_expected_def sig_reasons_def Let_def
        split: option.splits if_splits)
  then have "jsonizeSigErrors ?inner rq rt = (reply 200 ctJSON [(''ok'', JBool True), (''applied'', JBool False),
      (''reason'', JStr ''verify:bad_signature'')], incBadSigJSON rt)"
    using assms(1) by (auto simp: jsonizeSigErrors_def is_tx_def reply_def jget_str_def jget_def)
  then show ?thesis
    using fields.passes [OF assms(2), of "jsonizeSigErrors ?inner"]
    by (simp add: tx_root_def txPrecheckWith_def withJSONErrorFallback_def)
qed

definition demo_sig_cfg :: Config where
  "demo_sig_cfg = demo_cfg\<lparr>c_getenv := (\<lambda>k. if k = ''THOMAS_VERIFY_SIG'' then ''1'' else [])\<rparr>"

theorem bad_signature_reply_witness:
  "rs_status (fst (tx_root demo_sig_cfg 9 demo_post demo_rt)) = 200 \<and> rt_badSig (snd (tx_root demo_sig_cfg 9 demo_post demo_rt)) = 1"
proof -
  have "precheck_errs demo_sig_cfg (CurrentHeight (rt_eng demo_rt)) demo_pre = []" by code_simp
  then have "fields_pass demo_sig_cfg demo_post demo_rt" by (simp add: fields_pass_def demo_post_def)
  moreover have "is_tx demo_post" "\<not> sig_pass demo_sig_cfg demo_post demo_rt"
    by (simp_all add: is_tx_def demo_post_def sig_pass_def demo_sig_cfg_def must_def)
  ultimately show ?thesis
    using bad_signature_reply [of demo_post demo_sig_cfg demo_rt 9]
    by (simp add: reply_def incBadSigJSON_def demo_rt_def)
qed

section \<open>The commitment\<close>

text \<open>
  Fact. The text that is hashed and signed separates its fields with bars and does not
  escape them, so different transactions share a commitment: a transfer between two addresses and
  one whose addresses contain the bar in another place.
\<close>

theorem calcCommit_ambiguous:
  "\<exists>a b. precheck_errs demo_cfg 0 a = [] \<and> precheck_errs demo_cfg 0 b = [] \<and> tp_From a \<noteq> tp_From b
     \<and> (\<forall>c. calcCommit c a = calcCommit c b)"
proof (intro exI conjI allI)
  let ?a = "demo_pre\<lparr>tp_From := ''tho1a'', tp_To := ''tho1b|tho1c''\<rparr>"
  let ?b = "demo_pre\<lparr>tp_From := ''tho1a|tho1b'', tp_To := ''tho1c''\<rparr>"
  show "precheck_errs demo_cfg 0 ?a = []" "precheck_errs demo_cfg 0 ?b = []" by code_simp+
  show "tp_From ?a \<noteq> tp_From ?b" by simp
  show "calcCommit c ?a = calcCommit c ?b" for c by (simp add: calcCommit_def commit_text_def)
qed

definition signed_fields :: "txPre \<Rightarrow> i64 \<times> string \<times> string \<times> i64 \<times> i64 \<times> i64 \<times> string \<times> i64" where
  "signed_fields p = (tp_Type p, tp_From p, tp_To p, tp_AmountMas p, tp_FeeMas p, tp_Nonce p, tp_ChainID p, tp_ExpiryHeight p)"

lemma dec_i64_inject [simp]: "dec_i64 x = dec_i64 y \<longleftrightarrow> x = y"
  by (metis ParseInt_dec_i64 option.inject)

text \<open>Strings joined with bars.\<close>

fun bars :: "string list \<Rightarrow> string" where
  "bars [] = []"
| "bars [x] = x"
| "bars (x # y # xs) = x @ ''|'' @ bars (y # xs)"

lemma bars_inject:
  "length xs = length ys \<Longrightarrow> \<forall>s \<in> set xs \<union> set ys. CHR ''|'' \<notin> set s \<Longrightarrow> bars xs = bars ys \<Longrightarrow> xs = ys"
proof (induction xs arbitrary: ys rule: bars.induct)
  case (2 x)
  then show ?case by (cases ys rule: bars.cases) auto
next
  case (3 x y xs)
  then obtain u v vs where ys: "ys = u # v # vs" by (cases ys rule: bars.cases) auto
  with 3 have "x = u \<and> bars (y # xs) = bars (v # vs)"
    using first_sep_inject [of x "CHR ''|''" "bars (y # xs)" u "bars (v # vs)"] by simp
  moreover from this 3 ys have "y # xs = v # vs" by (intro "3.IH") auto
  ultimately show ?case using ys by simp
qed simp

lemma commit_text_bars:
  "commit_text p = bars [dec_i64 (tp_Type p), tp_From p, tp_To p, dec_i64 (tp_AmountMas p), dec_i64 (tp_FeeMas p),
     dec_i64 (tp_Nonce p), tp_ChainID p, dec_i64 (tp_ExpiryHeight p)]"
  by (simp add: commit_text_def)

text \<open>
  Fact. Apart from that the commitment binds: between transactions whose addresses and
  chain identifiers contain no bar, equal commitments mean equal signed fields, unless the hash
  collides on the two texts.
\<close>

theorem calcCommit_binding:
  assumes "calcCommit c a = calcCommit c b"
    and "\<forall>s \<in> {tp_From a, tp_To a, tp_ChainID a, tp_From b, tp_To b, tp_ChainID b}. CHR ''|'' \<notin> set s"
    and "inj_on (env_sha (c_env c)) {bytes_of (commit_text a), bytes_of (commit_text b)}"
  shows "signed_fields a = signed_fields b"
proof -
  have "env_sha (c_env c) (bytes_of (commit_text a)) = env_sha (c_env c) (bytes_of (commit_text b))"
    using assms(1) by (simp add: calcCommit_def)
  then have "bytes_of (commit_text a) = bytes_of (commit_text b)" by (rule inj_onD [OF assms(3)]) simp_all
  then have "commit_text a = commit_text b" by simp
  from this [unfolded commit_text_bars] assms(2) have
    "[dec_i64 (tp_Type a), tp_From a, tp_To a, dec_i64 (tp_AmountMas a), dec_i64 (tp_FeeMas a),
      dec_i64 (tp_Nonce a), tp_ChainID a, dec_i64 (tp_ExpiryHeight a)]
     = [dec_i64 (tp_Type b), tp_From b, tp_To b, dec_i64 (tp_AmountMas b), dec_i64 (tp_FeeMas b),
      dec_i64 (tp_Nonce b), tp_ChainID b, dec_i64 (tp_ExpiryHeight b)]"
    by (intro bars_inject) (simp_all add: dec_i64_no_bar del: bars.simps)
  then show ?thesis by (simp add: signed_fields_def)
qed

theorem calcCommit_binding_witness:
  "signed_fields demo_pre = signed_fields (demo_pre\<lparr>tp_Sig := ''x''\<rparr>)"
proof -
  have same: "commit_text (demo_pre\<lparr>tp_Sig := ''x''\<rparr>) = commit_text demo_pre" by (simp add: commit_text_def)
  have "\<forall>s \<in> {tp_From demo_pre, tp_To demo_pre, tp_ChainID demo_pre}. CHR ''|'' \<notin> set s"
    by (simp add: demo_pre_def)
  then show ?thesis
    by (intro calcCommit_binding [of demo_cfg]) (simp_all add: calcCommit_def same)
qed

end
