(* ===== verification/Router_Queries.thy ===== *)
theory Router_Queries
  imports Tx_Pipeline
begin

text \<open>
  The remaining handlers of \<open>internal/rpc/router.go\<close>: node information, accounts, supply, rounds,
  Eternity headers, light proofs, aliases, receipts, the chain health summary and the three
  variants of committing a round. A handler that panics gives \<open>None\<close>: the server drops the
  connection.
\<close>

section \<open>Values\<close>

definition round_obj :: "RoundHeader \<Rightarrow> json" where
  "round_obj h = JObj ([(''round'', ju64 (rh_Round h)), (''from_height'', ju64 (rh_FromHeight h)),
     (''to_height'', ju64 (rh_ToHeight h)), (''tx_count'', ju64 (rh_TxCount h)), (''root'', JStr (rh_Root h)),
     (''time_utc'', ji64 (rh_TimeUTC h))]
     @ (if rh_SignatureHex h = [] then [] else [(''signature_hex'', JStr (rh_SignatureHex h))]))"

definition get_only :: "'b Request \<Rightarrow> Response \<Rightarrow> Response" where
  "get_only rq r = (if rq_Method rq \<noteq> ''GET'' then status_only 405 else r)"

definition err :: "nat \<Rightarrow> (string \<times> string) list \<Rightarrow> string \<Rightarrow> Response" where
  "err st hs e = reply st hs [(''error'', JStr e)]"

definition b32ToHex :: "bytes \<Rightarrow> string" where
  "b32ToHex a = hex_encode a"

text \<open>The snapshot provider for the invariants endpoint; the engine may still be nil.\<close>

definition snap_CurrentValSet :: "Engine option \<Rightarrow> ValSet option" where
  "snap_CurrentValSet e = None"

definition snap_AdvertisedValidatorsRoot :: "Engine option \<Rightarrow> bytes" where
  "snap_AdvertisedValidatorsRoot e = zero32"

definition snap_CurrentHeight :: "Engine option \<Rightarrow> u64" where
  "snap_CurrentHeight e = (case e of None \<Rightarrow> 0 | Some e \<Rightarrow> CurrentHeight e)"

definition snap_ReceiptCount :: "Engine option \<Rightarrow> u64" where
  "snap_ReceiptCount e = (case e of None \<Rightarrow> 0 | Some e \<Rightarrow> of_nat (ReceiptCount e))"

section \<open>Node, accounts and supply\<close>

definition nodeInfo :: "'b Request \<Rightarrow> Router \<Rightarrow> Response" where
  "nodeInfo rq rt = get_only rq (reply 200 ctJSON
     [(''algo'', JStr ''ed25519''), (''pubkey_hex'', JStr (PubKeyHex (rt_eng rt)))])"

definition heightHandler :: "'b Request \<Rightarrow> Router \<Rightarrow> Response" where
  "heightHandler rq rt = get_only rq (reply 200 ctJSON [(''height'', ju64 (CurrentHeight (rt_eng rt)))])"

definition policyHandler :: "Config \<Rightarrow> 'b Request \<Rightarrow> Router \<Rightarrow> Response" where
  "policyHandler c rq rt = get_only rq (reply 200 ctJSON
     [(''unit'', JStr ''mas''), (''fee_bps'', ji64 (feeBps c)), (''min_fee_mas'', JNum 1),
      (''max_msg_commit_len'', ji64 (maxMsgCommitLenEnv (c_getenv c))),
      (''allowed_chain_id'', JStr expectedChainID), (''alias_enabled'', JBool (featAlias c)),
      (''r2p_enabled'', JBool (featR2P c)),
      (''require'', JObj [(''commit'', JBool (must c ''THOMAS_REQUIRE_COMMIT'')),
         (''signature'', JBool (must c ''THOMAS_VERIFY_SIG'')),
         (''from_pubkey'', JBool (must c ''THOMAS_REQUIRE_FROM_PUBKEY''))]),
      (''signing'', JObj [(''algo'', JStr ''ed25519''), (''pubkey_hex'', JStr (PubKeyHex (rt_eng rt))),
         (''header_canonical'', JArr (map JStr [''round'', ''from_height'', ''to_height'', ''tx_count'',
            ''root'', ''time_utc'']))])])"

definition accountHandler :: "'b Request \<Rightarrow> Router \<Rightarrow> Response \<times> Router" where
  "accountHandler rq rt =
     (if rq_Method rq \<noteq> ''GET'' then (status_only 405, rt)
      else
        let (a, e) = eng_GetAccount (trim_prefix (rq_Path rq) ''/account/'') (rt_eng rt)
        in (reply 200 ctJSON [(''balance_mas'', ju64 (acc_balance a)),
              (''balance'', ju64 (acc_balance a div masPerMicro)), (''nonce'', ju64 (acc_nonce a)),
              (''unit'', JStr ''mas'')], rt\<lparr>rt_eng := e\<rparr>))"

definition nonceHandler :: "'b Request \<Rightarrow> Router \<Rightarrow> Response \<times> Router" where
  "nonceHandler rq rt =
     (if rq_Method rq \<noteq> ''GET'' then (status_only 405, rt)
      else
        let (a, e) = eng_GetAccount (trim_prefix (rq_Path rq) ''/nonce/'') (rt_eng rt)
        in (reply 200 ctJSON [(''nonce'', ju64 (acc_nonce a)), (''expected_nonce'', ju64 (acc_nonce a + 1))],
            rt\<lparr>rt_eng := e\<rparr>))"

definition merkleHandler :: "Env \<Rightarrow> 'b Request \<Rightarrow> Router \<Rightarrow> Response" where
  "merkleHandler env rq rt = get_only rq (reply 200 ctJSON
     [(''root'', JStr (hex_encode (MerkleRoot env (rt_eng rt)))), (''count'', JNum (int (ReceiptCount (rt_eng rt))))])"

definition supplyToJSON :: "SupplyState \<Rightarrow> u64 \<Rightarrow> (string \<times> json) list" where
  "supplyToJSON st minted =
     [(''height'', ju64 (LastUpdatedHeight st)), (''total_minted_mas'', ju64 (TotalMintedMas st)),
      (''network_vault_mas'', ju64 (NetworkVaultMas st)), (''foundation_vault_mas'', ju64 (FoundationVaultMas st)),
      (''exchange_vault_mas'', ju64 (ExchangeVaultMas st)), (''block_mint_mas'', ju64 minted)]"

definition supplyCurrent :: "'b Request \<Rightarrow> Router \<Rightarrow> Response" where
  "supplyCurrent rq rt = get_only rq
     (let st = CurrentSupply (rt_eng rt)
      in reply 200 ctJSON (supplyToJSON st (BlockMintAt (LastUpdatedHeight st))))"

definition supplyAt :: "Env \<Rightarrow> 'b Request \<Rightarrow> Router \<Rightarrow> Response" where
  "supplyAt env rq rt = get_only rq
     (case ParseUint (trim_prefix (rq_Path rq) ''/supply/at/'') of
        None \<Rightarrow> err 400 [] ''bad_height''
      | Some height \<Rightarrow> (case SupplyAt env height (rt_eng rt) of
          (_, False) \<Rightarrow> err 404 [] ''not_found''
        | (st, True) \<Rightarrow> reply 200 ctJSON (supplyToJSON st (BlockMintAt height))))"

definition mint_format :: "u64 \<Rightarrow> json" where
  "mint_format m = JObj [(''tho'', ju64 (m div masPerTHO)), (''mas'', ju64 (m mod masPerTHO)),
     (''mas_total'', ju64 m),
     (''display'', JStr (dec_nat (unat (m div masPerTHO)) @ '' THO '' @ dec_nat (unat (m mod masPerTHO)) @ '' mas''))]"

definition mintingHandler :: "'b Request \<Rightarrow> Router \<Rightarrow> Response \<times> Router" where
  "mintingHandler rq rt =
     (if rq_Method rq \<noteq> ''GET'' then (status_only 405, rt)
      else
        let (aF, e) = eng_GetAccount ''tho1foundation'' (rt_eng rt);
            (aX, e) = eng_GetAccount ''tho1exchange'' e;
            (aA, e) = eng_GetAccount ''tho1alice'' e;
            (aB, e) = eng_GetAccount ''tho1bob'' e;
            totalMas = acc_balance aA + acc_balance aB + acc_balance aF + acc_balance aX
        in (reply 200 ctJSON [(''basis'', JStr ''E_net''), (''epoch'', JNum 0),
              (''foundation'', mint_format (acc_balance aF)), (''exchange'', mint_format (acc_balance aX)),
              (''network'', mint_format (totalMas - acc_balance aF - acc_balance aX)),
              (''total'', mint_format totalMas)], rt\<lparr>rt_eng := e\<rparr>))"

section \<open>Receipts and aliases\<close>

text \<open>\<open>implemented\<close>, and the receipt when found.\<close>

definition findReceiptByHash :: "Engine \<Rightarrow> string \<Rightarrow> bool \<times> TxReceipt option" where
  "findReceiptByHash e hash =
     (case first_method [''ReceiptByHash'', ''GetReceipt'', ''FindReceipt'', ''GetTxReceipt'', ''Receipt'', ''LookupReceipt'']
         [(''GetReceipt'', GetReceipt)] of
        None \<Rightarrow> (False, None)
      | Some m \<Rightarrow> (True, m hash e))"

definition receiptGet :: "'b Request \<Rightarrow> Router \<Rightarrow> Response" where
  "receiptGet rq rt = get_only rq
     (let hash = trim_space (rq_Query rq ''hash'')
      in if hash = [] then reply 400 [] [(''ok'', JBool False), (''error'', JStr ''missing_hash'')]
         else case findReceiptByHash (rt_eng rt) hash of
           (False, _) \<Rightarrow> reply 501 ctJSON8 [(''ok'', JBool False), (''error'', JStr ''not_implemented'')]
         | (True, None) \<Rightarrow> reply 404 ctJSON8 [(''ok'', JBool False), (''error'', JStr ''not_found'')]
         | (True, Some r) \<Rightarrow> reply 200 ctJSON8 [(''ok'', JBool True), (''receipt'', receipt_obj r)])"

definition aliasResolve :: "Env \<Rightarrow> 'b Request \<Rightarrow> Router \<Rightarrow> Response" where
  "aliasResolve env rq rt = get_only rq
     (let name = rq_Query rq ''name''
      in if name = [] then err 400 [] ''missing_name''
         else case callEngResolveAlias env (rt_eng rt) name of
           None \<Rightarrow> err 501 ctJSON ''not_implemented''
         | Some rec \<Rightarrow> reply 200 ctJSON [(''ok'', JBool True), (''record'', rec)])"

definition aliasReverse :: "Env \<Rightarrow> 'b Request \<Rightarrow> Router \<Rightarrow> Response" where
  "aliasReverse env rq rt = get_only rq
     (let addr = rq_Query rq ''addr''
      in if addr = [] then err 400 [] ''missing_addr''
         else case callEngReverseAlias env (rt_eng rt) addr of
           None \<Rightarrow> err 501 ctJSON ''not_implemented''
         | Some (_, False) \<Rightarrow> err 404 ctJSON ''not_found''
         | Some (name, True) \<Rightarrow> reply 200 ctJSON [(''ok'', JBool True), (''alias'', JStr name)])"

section \<open>Rounds\<close>

definition signed_round :: "Env \<Rightarrow> Engine \<Rightarrow> RoundHeader \<Rightarrow> Response" where
  "signed_round env e hdr =
     (let sigHex = (if rh_SignatureHex hdr = []
            then (case SignRoundHeader env hdr e of Some sig \<Rightarrow> hex_encode sig | None \<Rightarrow> [])
            else rh_SignatureHex hdr)
      in reply 200 ctJSON [(''header'', round_obj hdr), (''algo'', JStr ''ed25519''),
           (''pubkey_hex'', JStr (PubKeyHex e)), (''signature_hex'', JStr sigHex)])"

definition roundLatest :: "'b Request \<Rightarrow> Router \<Rightarrow> Response" where
  "roundLatest rq rt = get_only rq
     (case LatestRound (rt_eng rt) of
        None \<Rightarrow> err 404 ctJSON ''no_round''
      | Some hdr \<Rightarrow> \<lparr>rs_status = 200, rs_header = ctJSON, rs_body = Some (round_obj hdr)\<rparr>)"

definition roundLatestSigned :: "Env \<Rightarrow> 'b Request \<Rightarrow> Router \<Rightarrow> Response" where
  "roundLatestSigned env rq rt = get_only rq
     (case LatestRound (rt_eng rt) of
        None \<Rightarrow> err 404 ctJSON ''no_round'' | Some hdr \<Rightarrow> signed_round env (rt_eng rt) hdr)"

definition round_by_number :: "string \<Rightarrow> Engine \<Rightarrow> (RoundHeader \<Rightarrow> Response) \<Rightarrow> Response option" where
  "round_by_number numStr e k =
     (case ParseUint numStr of
        None \<Rightarrow> Some (err 400 [] ''bad_round'')
      | Some n \<Rightarrow>
          if n = 0 then Some (err 400 [] ''bad_round'')
          else case GetRound n e of
            Inl _ \<Rightarrow> None
          | Inr None \<Rightarrow> Some (err 404 ctJSON ''not_found'')
          | Inr (Some hdr) \<Rightarrow> Some (k hdr))"

definition roundHandler :: "Env \<Rightarrow> 'b Request \<Rightarrow> Router \<Rightarrow> Response option" where
  "roundHandler env rq rt =
     (let rest = trim_prefix (rq_Path rq) ''/round/''
      in if rq_Method rq \<noteq> ''GET'' then Some (status_only 405)
         else if has_suffix rest ''/header'' then
           round_by_number (trim_suffix rest ''/header'') (rt_eng rt)
             (\<lambda>hdr. \<lparr>rs_status = 200, rs_header = ctJSON, rs_body = Some (round_obj hdr)\<rparr>)
         else if has_suffix rest ''/signed'' then
           round_by_number (trim_suffix rest ''/signed'') (rt_eng rt) (signed_round env (rt_eng rt))
         else Some (status_only 404))"

definition committed_reply :: "RoundHeader \<Rightarrow> Response" where
  "committed_reply hdr = reply 200 ctJSON [(''committed'', JBool True), (''header'', round_obj hdr)]"

definition not_committed :: "nat \<Rightarrow> string \<Rightarrow> Response" where
  "not_committed st reason = reply st ctJSON [(''committed'', JBool False), (''reason'', JStr reason)]"

definition roundCommit :: "Config \<Rightarrow> i64 \<Rightarrow> 'b Request \<Rightarrow> Router \<Rightarrow> Response option \<times> Router" where
  "roundCommit c now rq rt =
     (if rq_Method rq \<noteq> ''POST'' then (Some (status_only 405), rt)
      else case CommitRound (c_env c) (c_wr c) now (rt_eng rt) of
        (NoRound, e) \<Rightarrow> (Some (not_committed 200 ''no_pending''), rt\<lparr>rt_eng := e\<rparr>)
      | (Committed hdr, e) \<Rightarrow> (Some (committed_reply hdr), rt\<lparr>rt_eng := e\<rparr>)
      | (SlicePanic, e) \<Rightarrow> (None, rt\<lparr>rt_eng := e\<rparr>))"

text \<open>The panic-safe variants recover and report; \<open>msg\<close> is the text of the runtime error.\<close>

definition inconsistent :: "Engine \<Rightarrow> bool" where
  "inconsistent e \<longleftrightarrow> sint (of_nat (ReceiptCount e) :: i64) < sint (CurrentHeight e)"

definition inconsistent_reply :: "Engine \<Rightarrow> Response" where
  "inconsistent_reply e = not_committed 200
     (''inconsistent_state: height='' @ dec_nat (unat (CurrentHeight e)) @ '' receipts_count='' @ dec_nat (ReceiptCount e))"

definition commit_recovering ::
  "Config \<Rightarrow> nat \<Rightarrow> string \<Rightarrow> i64 \<Rightarrow> Router \<Rightarrow> Response option \<times> Router" where
  "commit_recovering c st msg now rt =
     (if inconsistent (rt_eng rt) then (Some (inconsistent_reply (rt_eng rt)), rt)
      else case CommitRound (c_env c) (c_wr c) now (rt_eng rt) of
        (NoRound, e) \<Rightarrow> (Some (not_committed 200 ''no_pending''), rt\<lparr>rt_eng := e\<rparr>)
      | (Committed hdr, e) \<Rightarrow> (Some (committed_reply hdr), rt\<lparr>rt_eng := e\<rparr>)
      | (SlicePanic, e) \<Rightarrow> (Some (not_committed st (''engine.CommitRound panic: '' @ msg)), rt\<lparr>rt_eng := e\<rparr>))"

definition roundCommitSafe :: "Config \<Rightarrow> string \<Rightarrow> i64 \<Rightarrow> 'b Request \<Rightarrow> Router \<Rightarrow> Response option \<times> Router" where
  "roundCommitSafe c msg now rq rt =
     (if rq_Method rq \<noteq> ''POST'' then (Some (status_only 405), rt) else commit_recovering c 500 msg now rt)"

text \<open>The engine has none of the pending counters that the second variant looks for.\<close>

definition hasPending :: "Engine \<Rightarrow> bool \<times> bool" where
  "hasPending e =
     (case first_method [''PendingCount'', ''BacklogSize'', ''MempoolSize'', ''MempoolLen'']
         ([] :: (string \<times> (Engine \<Rightarrow> int)) list) of
        Some m \<Rightarrow> (True, 0 < m e) | None \<Rightarrow> (False, True))"

definition roundCommitSafe2 :: "Config \<Rightarrow> string \<Rightarrow> i64 \<Rightarrow> 'b Request \<Rightarrow> Router \<Rightarrow> Response option \<times> Router" where
  "roundCommitSafe2 c msg now rq rt =
     (if rq_Method rq \<noteq> ''POST'' then (Some (status_only 405), rt)
      else case hasPending (rt_eng rt) of
        (True, False) \<Rightarrow> (Some (not_committed 200 ''no_pending''), rt)
      | _ \<Rightarrow> commit_recovering c 200 msg now rt)"

section \<open>Eternity headers\<close>

text \<open>The fields of type \<open>[32]byte\<close>, by name.\<close>

definition fields32 :: "EternityHeader \<Rightarrow> (string \<times> bytes) list" where
  "fields32 h = [(''PrevHash'', eh_PrevHash h), (''StateRoot'', eh_StateRoot h), (''TxRoot'', eh_TxRoot h),
     (''ReceiptsRoot'', eh_ReceiptsRoot h), (''CommitRoot'', eh_CommitRoot h), (''ProposerPubKey'', eh_ProposerPubKey h),
     (''ConsensusParamsHash'', eh_ConsensusParamsHash h), (''FeeRoot'', eh_FeeRoot h)]"

definition hdrBytes32Field :: "EternityHeader \<Rightarrow> string list \<Rightarrow> bytes option" where
  "hdrBytes32Field h names = first_method names (fields32 h)"

definition hdrTimeUnix :: "EternityHeader \<Rightarrow> i64" where
  "hdrTimeUnix h = eh_TimeUTCUnix h"

definition hdrProposerKey :: "EternityHeader \<Rightarrow> bytes option" where
  "hdrProposerKey h = hdrBytes32Field h [''ProposerKey'', ''ProposerPubKey'']"

definition hdrProposerSetHash :: "EternityHeader \<Rightarrow> bytes option" where
  "hdrProposerSetHash h = hdrBytes32Field h [''ProposerSetHash'', ''ValidatorsRoot'', ''ValidatorSetHash'']"

text \<open>The header has no field \<open>Commit\<close>.\<close>

definition hdrCommitHash :: "EternityHeader \<Rightarrow> bytes option" where
  "hdrCommitHash h =
     (case hdrBytes32Field h [''CommitHash''] of Some v \<Rightarrow> Some v | None \<Rightarrow> hdrBytes32Field h [''CommitRoot''])"

definition hdrPrevHash :: "EternityHeader \<Rightarrow> bytes option" where
  "hdrPrevHash h = hdrBytes32Field h [''PrevHash'', ''PreviousHash'', ''LastBlockID'']"

definition hdrStateRoot :: "EternityHeader \<Rightarrow> bytes option" where
  "hdrStateRoot h = hdrBytes32Field h [''StateRoot'']"

definition hdrTxRoot :: "EternityHeader \<Rightarrow> bytes option" where
  "hdrTxRoot h = hdrBytes32Field h [''TxRoot'', ''TransactionsRoot'']"

definition hdrEvidenceRoot :: "EternityHeader \<Rightarrow> bytes option" where
  "hdrEvidenceRoot h = hdrBytes32Field h [''EvidenceRoot'']"

text \<open>No method \<open>BlockID\<close>, and \<open>Hash\<close>, whose error is dropped with the zero hash.\<close>

definition hdrBlockID32 :: "Env \<Rightarrow> EternityHeader \<Rightarrow> bytes option" where
  "hdrBlockID32 env h = Some (case eh_Hash (env_b3 env) (env_cbor env) h of Inr i \<Rightarrow> i | Inl _ \<Rightarrow> zero32)"

definition opt_hex :: "string \<Rightarrow> bytes option \<Rightarrow> (string \<times> json) list" where
  "opt_hex k v = (case v of Some b \<Rightarrow> [(k, JStr (b32ToHex b))] | None \<Rightarrow> [])"

text \<open>The members common to the latest header and the light proof; \<open>vkey\<close> names the set hash.\<close>

definition header_map :: "Env \<Rightarrow> string \<Rightarrow> EternityHeader \<Rightarrow> (string \<times> json) list" where
  "header_map env vkey h =
     (if hdrTimeUnix h \<noteq> 0 then [(''timestamp'', ji64 (hdrTimeUnix h))] else [])
     @ opt_hex ''prev_hash'' (hdrPrevHash h) @ opt_hex ''state_root'' (hdrStateRoot h)
     @ opt_hex ''tx_root'' (hdrTxRoot h) @ opt_hex ''evidence_root'' (hdrEvidenceRoot h)
     @ opt_hex ''proposer_key'' (hdrProposerKey h) @ opt_hex ''pubkey_hex'' (hdrProposerKey h)
     @ opt_hex vkey (hdrProposerSetHash h) @ opt_hex ''commit_hash'' (hdrCommitHash h)
     @ opt_hex ''block_id_hex'' (hdrBlockID32 env h)"

definition eternityHeaderLatest :: "Env \<Rightarrow> 'b Request \<Rightarrow> Router \<Rightarrow> Response" where
  "eternityHeaderLatest env rq rt = get_only rq
     (case LatestEternityHeader (rt_eng rt) of
        None \<Rightarrow> err 404 ctJSON ''no_header''
      | Some h \<Rightarrow> reply 200 ctJSON
          ([(''chain_id'', JStr expectedChainID), (''height'', ju64 (eh_Height h)),
            (''round'', JNum (uint (eh_Round h))), (''algo'', JStr ''ed25519'')] @ header_map env ''proposer_set'' h))"

text \<open>
  With a bundle the handler calls \<open>Addr\<close> on a reflected return value, which is not addressable,
  and panics; without one it answers that the commit was not found.
\<close>

definition blockLightProof :: "'b Request \<Rightarrow> Router \<Rightarrow> Response option" where
  "blockLightProof rq rt =
     (if rq_Method rq \<noteq> ''GET'' then Some (status_only 405)
      else if \<not> has_suffix (rq_Path rq) ''/light-proof'' then Some (status_only 404)
      else case ParseUint (trim_suffix (trim_prefix (rq_Path rq) ''/block/'') ''/light-proof'') of
        None \<Rightarrow> Some (err 400 [] ''bad_height'')
      | Some height \<Rightarrow>
          (case EternityHeaderAt height (rt_eng rt) of
             None \<Rightarrow> Some (err 404 [] ''not_found'')
           | Some h \<Rightarrow>
               (case CommitBundleAt height (rt_eng rt) of
                  Some b \<Rightarrow> None
                | None \<Rightarrow> Some (err 404 [] ''commit_not_found''))))"

section \<open>Health\<close>

text \<open>Each check overrides the reason of the ones before it.\<close>

definition chain_verdict :: "Env \<Rightarrow> Engine \<Rightarrow> bool \<times> string" where
  "chain_verdict env e =
     (let v = (if CurrentHeight e = of_nat (ReceiptCount e) then (True, []) else (False, ''height_mismatch''));
          commit = LatestCommitRoot e;
          header = LatestEternityHeader e;
          v = (case commit of None \<Rightarrow> (False, ''commit_root_unavailable'') | Some _ \<Rightarrow> v);
          v = (case header of None \<Rightarrow> (False, ''header_unavailable'') | Some _ \<Rightarrow> v);
          v = (case header of None \<Rightarrow> v | Some h \<Rightarrow>
                 let vroot = (case hdrProposerSetHash h of Some vr \<Rightarrow> vr | None \<Rightarrow> zero32)
                 in case eng_ListValidatorScores env e of
                      Inr scores \<Rightarrow>
                        if vroot \<noteq> stub_ComputeValidatorsRoot (env_b3 env) (env_cbor env) (ArgScores scores)
                        then (False, ''validators_root_mismatch'') else v
                    | Inl _ \<Rightarrow> (False, ''validator_state_unavailable''))
      in case (commit, header) of
           (Some (root, _), Some h) \<Rightarrow>
             (case hdrCommitHash h of
                Some ch \<Rightarrow> if ch \<noteq> root then (False, ''commit_root_mismatch'') else v | None \<Rightarrow> v)
         | _ \<Rightarrow> v)"

text \<open>\<open>ts\<close> is the time of the request as RFC 3339 text.\<close>

definition healthChain :: "Env \<Rightarrow> string \<Rightarrow> Router \<Rightarrow> Response" where
  "healthChain env ts rt =
     (let e = rt_eng rt; (ok, reason) = chain_verdict env e;
          vroot = (case LatestEternityHeader e of None \<Rightarrow> zero32
            | Some h \<Rightarrow> (case hdrProposerSetHash h of Some vr \<Rightarrow> vr | None \<Rightarrow> zero32));
          vrootOK = (LatestEternityHeader e = None \<or> (case eng_ListValidatorScores env e of
            Inr scores \<Rightarrow> vroot = stub_ComputeValidatorsRoot (env_b3 env) (env_cbor env) (ArgScores scores)
          | Inl _ \<Rightarrow> False))
      in reply 200 ctJSON
        ([(''ok'', JBool ok), (''reason'', JStr reason), (''height'', ju64 (CurrentHeight e)),
          (''receipts_count'', JNum (int (ReceiptCount e))),
          (''commit_root_height'', ju64 (case LatestCommitRoot e of Some (_, h) \<Rightarrow> h | None \<Rightarrow> 0)),
          (''time_utc'', JStr ts)]
         @ (case LatestCommitRoot e of Some (root, _) \<Rightarrow> [(''commit_root_hex'', JStr (b32ToHex root))] | None \<Rightarrow> [])
         @ (case LatestEternityHeader e of Some h \<Rightarrow> opt_hex ''header_commit_root_hex'' (hdrCommitHash h) | None \<Rightarrow> [])
         @ (if vrootOK then [(''validators_root_hex'', JStr (b32ToHex vroot))] else [])))"

definition statsJSON :: "string \<Rightarrow> 'b Request \<Rightarrow> Router \<Rightarrow> Response" where
  "statsJSON ts rq rt = get_only rq (reply 200 ctJSON [(''height'', ju64 (CurrentHeight (rt_eng rt))),
     (''receipts_count'', JNum (int (ReceiptCount (rt_eng rt)))), (''time_utc'', JStr ts)])"

text \<open>Of the methods that \<open>/stats.plus\<close> tries, the engine has \<open>MerkleRoot\<close>.\<close>

definition statsPlus :: "Env \<Rightarrow> string \<Rightarrow> 'b Request \<Rightarrow> Router \<Rightarrow> Response" where
  "statsPlus env ts rq rt = get_only rq (reply 200 ctJSON ([(''height'', ju64 (CurrentHeight (rt_eng rt))),
     (''receipts_count'', JNum (int (ReceiptCount (rt_eng rt)))), (''time_utc'', JStr ts)]
     @ (case first_method [''MerkleRoot'', ''TxRoot''] [(''MerkleRoot'', MerkleRoot env)] of
          Some m \<Rightarrow> [(''tx_root'', JStr (b64_encode False (m (rt_eng rt))))] | None \<Rightarrow> [])))"

definition readyz :: "string \<Rightarrow> i64 \<Rightarrow> 'b Request \<Rightarrow> Router \<Rightarrow> Response" where
  "readyz ts uptime rq rt = get_only rq (reply 200 ctJSON
     [(''status'', JStr (if 0 < CurrentHeight (rt_eng rt) then ''ready'' else ''starting'')),
      (''height'', ju64 (CurrentHeight (rt_eng rt))), (''time_utc'', JStr ts),
      (''uptime_secs'', ji64 uptime)])"

section \<open>Properties\<close>

lemma reachable_no_panic:
  assumes "engine_reachable env e" and "length (e_leaves e) + 1 < 2 ^ 64"
  shows "fst (CommitRound env wr now e) \<noteq> SlicePanic"
proof -
  have inv: "engine_inv env e" using engine_sys.reachable_inv [OF assms] .
  have le: "unat (e_lastCommittedHeight e) \<le> length (e_leaves e)"
    using inv rounds_tile_le by (fastforce simp: engine_inv_def)
  show ?thesis
    by (cases rule: CommitRound_cases [OF assms(2) le, of env wr now]) simp_all
qed

text \<open>
  Fact. The three ways to commit a round agree on every node that started without a
  ledger file: the panic-safe variants give the same answer and the same state as the plain one, and
  none of them panics.
\<close>

theorem round_commit_variants_agree:
  assumes "engine_reachable (c_env c) (rt_eng rt)" and "length (e_leaves (rt_eng rt)) + 1 < 2 ^ 63"
  shows "roundCommitSafe c msg now rq rt = roundCommit c now rq rt
    \<and> roundCommitSafe2 c msg now rq rt = roundCommit c now rq rt \<and> fst (roundCommit c now rq rt) \<noteq> None"
proof -
  let ?e = "rt_eng rt"
  have bound: "length (e_leaves ?e) + 1 < 2 ^ 64" using assms(2) by simp
  have "e_height ?e = of_nat (length (e_leaves ?e))"
    using engine_sys.reachable_inv [OF assms(1) bound] by (simp add: engine_inv_def)
  then have "\<not> inconsistent ?e" by (simp add: inconsistent_def ReceiptCount_def CurrentHeight_def)
  moreover have "fst (CommitRound (c_env c) (c_wr c) now ?e) \<noteq> SlicePanic"
    by (rule reachable_no_panic [OF assms(1) bound])
  ultimately show ?thesis
    by (auto simp: roundCommitSafe_def roundCommitSafe2_def roundCommit_def commit_recovering_def hasPending_def
        split: prod.split commit_outcome.split)
qed

theorem round_commit_variants_agree_witness:
  "let rt = demo_rt\<lparr>rt_eng := run1\<rparr> in roundCommitSafe demo_cfg [] 0 demo_post rt = roundCommit demo_cfg 0 demo_post rt"
  using round_commit_variants_agree [of demo_cfg "demo_rt\<lparr>rt_eng := run1\<rparr>" "[]" 0 demo_post] run_reachable(2) run1_facts
  by (simp add: Let_def demo_cfg_def)

text \<open>
  Fact. What the health summary reports: on such a node the chain is healthy exactly when
  a commit root and an Eternity header exist, the validator scores decode, and the latest header
  carries the latest commit root; height and receipts never disagree, and the validators root is
  never the cause, since the default build compares zero with zero.
\<close>

theorem chain_verdict_reachable:
  assumes "engine_reachable env e" and "length (e_leaves e) + 1 < 2 ^ 64"
  shows "(fst (chain_verdict env e) \<longleftrightarrow> e_commitRootReady e \<and> e_eternityHeaders e \<noteq> []
      \<and> (\<exists>s. eng_ListValidatorScores env e = Inr s) \<and> eh_CommitRoot (last (e_eternityHeaders e)) = e_lastCommitRoot e)
    \<and> snd (chain_verdict env e) \<notin> {''height_mismatch'', ''validators_root_mismatch''}"
proof -
  have "CurrentHeight e = of_nat (ReceiptCount e)"
    using engine_sys.reachable_inv [OF assms] by (simp add: engine_inv_def CurrentHeight_def ReceiptCount_def)
  moreover have "hdrProposerSetHash h = None" "hdrCommitHash h = Some (eh_CommitRoot h)" for h
    by (simp_all add: hdrProposerSetHash_def hdrCommitHash_def hdrBytes32Field_def fields32_def)
  ultimately show ?thesis
    by (auto simp: chain_verdict_def LatestCommitRoot_def LatestEternityHeader_def stub_ComputeValidatorsRoot_def
        Let_def split: sum.splits)
qed

theorem chain_verdict_reachable_witness:
  "fst (chain_verdict demo_env run1) = False"
  using conjunct1 [OF chain_verdict_reachable [OF run_reachable(2)]] run1_facts by simp

lemma has_suffix_append [simp]: "has_suffix (s @ p) p"
  by (simp add: has_suffix_def)

text \<open>
  Fact. No light proof is ever served: whatever the request and the state, the handler of
  \<open>/block/\<close> panics or answers with an error status.
\<close>

theorem blockLightProof_never_ok:
  "case blockLightProof rq rt of None \<Rightarrow> True | Some r \<Rightarrow> rs_status r \<in> {400, 404, 405}"
  by (simp add: blockLightProof_def err_def reply_def status_only_def split: option.split)

text \<open>It panics whenever the header asked for and its bundle exist.\<close>

lemma blockLightProof_panics:
  assumes "EternityHeaderAt n (rt_eng rt) = Some h" "CommitBundleAt n (rt_eng rt) = Some b"
    and "rq_Method rq = ''GET''" "rq_Path rq = ''/block/'' @ dec_nat (unat n) @ ''/light-proof''"
  shows "blockLightProof rq rt = None"
proof -
  have "has_suffix (rq_Path rq) ''/light-proof''"
    using assms(4) has_suffix_append [of "''/block/'' @ dec_nat (unat n)" "''/light-proof''"] by simp
  moreover have "trim_prefix (rq_Path rq) ''/block/'' = dec_nat (unat n) @ ''/light-proof''"
    unfolding assms(4) by (rule trim_prefix_append)
  ultimately show ?thesis using assms(1-3) by (simp add: blockLightProof_def)
qed

lemma u64_high_negative:
  assumes "2 ^ 63 \<le> unat (n :: u64)"
  shows "sint n < 0"
proof -
  have "int (2 ^ 63) \<le> int (unat n)" using assms by (rule of_nat_mono)
  then have "2 ^ 63 \<le> uint n" by simp
  moreover have "uint n < 2 ^ 64" using unsigned_less [of n] by simp
  ultimately have "uint n div 2 ^ 63 = 1" by (simp add: div_pos_geq)
  then show ?thesis by (simp add: sint_uint bit_iff_odd)
qed

text \<open>
  Fact. Asking for a round number of \<open>2^63\<close> or more crashes the request: the number is
  read as a negative one, passes the bounds check, and the index expression panics.
\<close>

theorem round_number_panics:
  fixes n :: u64
  assumes "length (e_rounds (rt_eng rt)) < 2 ^ 63" and "2 ^ 63 \<le> unat n" and "rq_Method rq = ''GET''"
    and "rq_Path rq = ''/round/'' @ dec_nat (unat n) @ ''/header''"
  shows "roundHandler env rq rt = None"
proof -
  have path: "trim_prefix (rq_Path rq) ''/round/'' = dec_nat (unat n) @ ''/header''"
    unfolding assms(4) by (rule trim_prefix_append)
  have neg: "sint n < 0" using assms(2) by (rule u64_high_negative)
  have nz: "n \<noteq> 0" using assms(2) by auto
  then have "unat (n - 1) = unat n - 1" by (simp add: unat_minus_one)
  with assms(1,2) nz neg have "GetRound n (rt_eng rt) = Inl ''index out of range''"
    by (simp add: GetRound_def)
  with assms(3) path nz show ?thesis by (simp add: roundHandler_def round_by_number_def Let_def)
qed

theorem round_number_panics_witness:
  "roundHandler demo_env (demo_post\<lparr>rq_Method := ''GET'',
     rq_Path := ''/round/'' @ dec_nat (unat (2 ^ 63 :: u64)) @ ''/header''\<rparr>) demo_rt = None"
  by (rule round_number_panics [of _ "2 ^ 63"]) (simp_all add: demo_rt_def blank_engine_def)

end
