(* ===== verification/Go_Path.thy ===== *)
theory Go_Path
  imports Go_Strings
begin

text \<open>
  The functions of Go's \<open>strings\<close>, \<open>path\<close> and \<open>path/filepath\<close> that split, clean and join paths with
  slashes. On the platforms the node runs on both path packages clean alike.
\<close>

section \<open>Splitting\<close>

text \<open>\<open>strings.Split\<close> at a single byte.\<close>

fun split_at :: "char \<Rightarrow> string \<Rightarrow> string list" where
  "split_at c [] = [[]]"
| "split_at c (x # xs) =
     (if x = c then [] # split_at c xs
      else case split_at c xs of [] \<Rightarrow> [[x]] | p # ps \<Rightarrow> (x # p) # ps)"

lemma split_at_sep: "c \<notin> set s \<Longrightarrow> split_at c (s @ c # t) = s # split_at c t"
  by (induction s) auto

lemma split_at_whole: "c \<notin> set s \<Longrightarrow> split_at c s = [s]"
  by (induction s) auto

lemma split_at_nonempty: "split_at c s \<noteq> []"
  by (cases s) (auto split: list.split)

lemma split_at_append: "split_at c (s @ c # t) = split_at c s @ split_at c t"
proof (induction s)
  case (Cons x s)
  with split_at_nonempty [of c s] show ?case by (auto split: list.split)
qed simp

lemma split_at_pieces: "p \<in> set (split_at c s) \<Longrightarrow> c \<notin> set p"
  by (induction s arbitrary: p) (auto split: list.splits if_splits)

text \<open>\<open>strings.Contains\<close>.\<close>

fun contains :: "string \<Rightarrow> string \<Rightarrow> bool" where
  "contains [] t \<longleftrightarrow> has_prefix [] t"
| "contains (c # s) t \<longleftrightarrow> has_prefix (c # s) t \<or> contains s t"

lemma contains_prefix: "contains (t @ b) t"
proof -
  have "has_prefix s t \<Longrightarrow> contains s t" for s by (cases s) simp_all
  then show ?thesis by simp
qed

text \<open>The pieces of a string occur in it, the first one at its start.\<close>

lemma split_at_occur:
  "split_at c s = p # ps \<Longrightarrow> (\<exists>b. s = p @ b) \<and> (\<forall>q \<in> set ps. contains s q)"
proof (induction s arbitrary: p ps)
  case (Cons x s)
  obtain p' ps' where s: "split_at c s = p' # ps'" using split_at_nonempty [of c s] by (cases "split_at c s") simp_all
  from Cons.IH [OF this] obtain b where b: "s = p' @ b" and ps': "\<forall>q \<in> set ps'. contains s q" by blast
  from b have "contains s p'" by (simp add: contains_prefix)
  with ps' have "\<forall>q \<in> set (split_at c s). contains s q" by (simp add: s)
  with Cons.prems s b show ?case by (cases "x = c") auto
qed simp

lemma split_at_contains: "p \<in> set (split_at c s) \<Longrightarrow> contains s p"
  using split_at_occur [of c s] contains_prefix by (cases "split_at c s") fastforce+

section \<open>path/filepath\<close>

definition pop_or_push :: "bool \<Rightarrow> string list \<Rightarrow> string list" where
  "pop_or_push rooted out =
     (if out \<noteq> [] \<and> last out \<noteq> ''..'' then butlast out
      else if rooted then out else out @ [''..''])"

fun clean_parts :: "bool \<Rightarrow> string list \<Rightarrow> string list \<Rightarrow> string list" where
  "clean_parts rooted out [] = out"
| "clean_parts rooted out (p # ps) =
     (if p = [] \<or> p = ''.'' then clean_parts rooted out ps
      else if p = ''..'' then clean_parts rooted (pop_or_push rooted out) ps
      else clean_parts rooted (out @ [p]) ps)"

fun join_slash :: "string list \<Rightarrow> string" where
  "join_slash [] = []"
| "join_slash [p] = p"
| "join_slash (p # ps) = p @ ''/'' @ join_slash ps"

definition Clean :: "string \<Rightarrow> string" where
  "Clean path =
     (let rooted = has_prefix path ''/'';
          s = (if rooted then ''/'' else []) @ join_slash (clean_parts rooted [] (split_at (CHR ''/'') path))
      in if s = [] then ''.'' else s)"

definition Join :: "string \<Rightarrow> string \<Rightarrow> string" where
  "Join a b = (if a = [] then if b = [] then [] else Clean b else Clean (a @ ''/'' @ b))"

definition Dir :: "string \<Rightarrow> string" where
  "Dir path = Clean (rev (dropWhile ((\<noteq>) (CHR ''/'')) (rev path)))"

section \<open>Cleaning\<close>

definition real_part :: "string \<Rightarrow> bool" where
  "real_part p \<longleftrightarrow> p \<noteq> [] \<and> p \<noteq> ''.''"

definition plain_part :: "string \<Rightarrow> bool" where
  "plain_part p \<longleftrightarrow> CHR ''/'' \<notin> set p \<and> real_part p \<and> p \<noteq> ''..''"

lemma clean_parts_plain: "''..'' \<notin> set ps \<Longrightarrow> clean_parts rooted out ps = out @ filter real_part ps"
  by (induction ps arbitrary: out) (auto simp: real_part_def)

lemma join_slash_Cons: "ps \<noteq> [] \<Longrightarrow> join_slash (p # ps) = p @ ''/'' @ join_slash ps"
  by (cases ps) simp_all

lemma split_join_slash:
  "ps \<noteq> [] \<Longrightarrow> \<forall>p \<in> set ps. CHR ''/'' \<notin> set p \<Longrightarrow> split_at (CHR ''/'') (join_slash ps) = ps"
  by (induction ps rule: join_slash.induct) (simp_all add: split_at_whole split_at_sep)

lemma join_slash_append:
  "ps \<noteq> [] \<Longrightarrow> qs \<noteq> [] \<Longrightarrow> join_slash (ps @ qs) = join_slash ps @ ''/'' @ join_slash qs"
  by (induction ps rule: join_slash.induct) (simp_all add: join_slash_Cons)

lemma join_slash_start:
  assumes "ps \<noteq> []" "\<forall>p \<in> set ps. plain_part p"
  shows "\<not> has_prefix (join_slash ps) ''/''" "join_slash ps \<noteq> []"
proof -
  from assms obtain c p qs where ps: "ps = (c # p) # qs" and "c \<noteq> CHR ''/''"
    by (cases ps; cases "hd ps") (auto simp: plain_part_def real_part_def)
  then show "\<not> has_prefix (join_slash ps) ''/''" "join_slash ps \<noteq> []"
    by (cases qs; simp)+
qed

text \<open>A name without two dots, joined to a directory, stays below it.\<close>

lemma Join_below:
  assumes ds: "ds \<noteq> []" "\<forall>p \<in> set ds. plain_part p" and name: "\<not> contains name ''..''"
  shows "Join (join_slash ds) name = join_slash ds \<or>
    (has_prefix (Join (join_slash ds) name) (join_slash ds @ ''/'')
      \<and> ''..'' \<notin> set (split_at (CHR ''/'') (Join (join_slash ds) name)))"
proof -
  define ns where "ns = filter real_part (split_at (CHR ''/'') name)"
  have ns: "\<forall>p \<in> set ns. CHR ''/'' \<notin> set p \<and> p \<noteq> ''..''"
    using split_at_contains [of "''..''" "CHR ''/''" name] name by (auto simp: ns_def dest: split_at_pieces)
  have parts: "split_at (CHR ''/'') (join_slash ds @ CHR ''/'' # name) = ds @ split_at (CHR ''/'') name"
    using ds by (simp add: split_at_append split_join_slash plain_part_def)
  have "''..'' \<notin> set (ds @ split_at (CHR ''/'') name)"
    using ds(2) name split_at_contains [of "''..''" "CHR ''/''" name] by (auto simp: plain_part_def)
  then have "clean_parts False [] (ds @ split_at (CHR ''/'') name) = ds @ ns"
    using ds(2) by (simp add: clean_parts_plain ns_def filter_id_conv plain_part_def)
  moreover have "\<not> has_prefix (join_slash ds @ CHR ''/'' # name) ''/''"
    using join_slash_start [OF ds] by (cases "join_slash ds") (simp_all add: has_prefix_def)
  ultimately have J: "Join (join_slash ds) name = join_slash (ds @ ns)"
    using ds join_slash_start(2) [OF ds] by (cases "ns = []") (simp_all add: Join_def Clean_def parts join_slash_append Let_def)
  have "split_at (CHR ''/'') (join_slash (ds @ ns)) = ds @ ns" using ds ns by (intro split_join_slash) (auto simp: plain_part_def)
  moreover have "''..'' \<notin> set (ds @ ns)" using ds(2) ns by (auto simp: plain_part_def)
  ultimately show ?thesis using ds(1) by (cases "ns = []") (simp_all add: J join_slash_append has_prefix_iff)
qed

lemma Clean_rooted:
  assumes "ps \<noteq> []" "\<forall>p \<in> set ps. plain_part p"
  shows "Clean (CHR ''/'' # join_slash ps) = CHR ''/'' # join_slash ps"
proof -
  have "split_at (CHR ''/'') (join_slash ps) = ps" using assms by (intro split_join_slash) (auto simp: plain_part_def)
  moreover have "filter real_part ps = ps" "''..'' \<notin> set ps" using assms(2) by (auto simp: filter_id_conv plain_part_def)
  ultimately show ?thesis by (simp add: Clean_def clean_parts_plain)
qed

lemma last_join_slash:
  assumes "ps \<noteq> []" "\<forall>p \<in> set ps. plain_part p"
  shows "last (join_slash ps) \<noteq> CHR ''/''"
proof -
  from assms have "last ps \<noteq> []" "CHR ''/'' \<notin> set (last ps)" by (simp_all add: plain_part_def real_part_def)
  moreover from this have "last (join_slash ps) = last (last ps)" using assms
    by (induction ps rule: join_slash.induct) (simp_all add: plain_part_def real_part_def join_slash_Cons)
  ultimately show ?thesis using last_in_set by metis
qed

lemma dec_nat_no_slash: "CHR ''/'' \<notin> set (dec_nat n)"
  using digits_dec_nat [of "CHR ''/''" n] by (auto simp: digit_val_def)

lemma dec_nat_plain: "plain_part (dec_nat n)"
proof -
  have "CHR ''.'' \<notin> set (dec_nat n)" using digits_dec_nat [of "CHR ''.''" n] by (auto simp: digit_val_def)
  then show ?thesis using dec_nat_no_slash [of n] by (auto simp: plain_part_def real_part_def)
qed

end
