(* ===== verification/Go_Mux.thy ===== *)
theory Go_Mux
  imports Go_Path Rpc_Base
begin

text \<open>
  What the servers use of Go's \<open>net/http\<close> besides requests and responses: plain-text errors,
  redirects, and how \<open>http.ServeMux\<close> decides which handler a path reaches. Patterns have neither
  method nor host, and paths need no escaping.
\<close>

section \<open>Plain replies\<close>

definition http_error :: "nat \<Rightarrow> string \<Rightarrow> Response" where
  "http_error st msg = \<lparr>rs_status = st,
     rs_header = [(''Content-Type'', ''text/plain; charset=utf-8'')], rs_body = Some (JStr msg)\<rparr>"

definition http_NotFound :: Response where
  "http_NotFound = http_error 404 ''404 page not found''"

section \<open>http.ServeMux\<close>

text \<open>\<open>cleanPath\<close> of \<open>net/http\<close>.\<close>

definition cleanPath :: "string \<Rightarrow> string" where
  "cleanPath p =
     (if p = [] then ''/''
      else let p = (if hd p \<noteq> CHR ''/'' then ''/'' @ p else p); np = Clean p
           in if last p = CHR ''/'' \<and> np \<noteq> ''/'' then np @ ''/'' else np)"

datatype mux_result = Redirect string | Pattern string | NoPattern

text \<open>A pattern that ends in a slash stands for a subtree; the longest pattern wins.\<close>

definition mux_matches :: "string \<Rightarrow> string \<Rightarrow> bool" where
  "mux_matches path pat \<longleftrightarrow> pat = path \<or> (pat \<noteq> [] \<and> last pat = CHR ''/'' \<and> has_prefix path pat)"

definition longer :: "string \<Rightarrow> string option \<Rightarrow> string option" where
  "longer p b = (case b of None \<Rightarrow> Some p | Some q \<Rightarrow> if length q < length p then Some p else b)"

definition mux_best :: "string list \<Rightarrow> string \<Rightarrow> string option" where
  "mux_best pats path = fold longer (filter (mux_matches path) pats) None"

text \<open>
  The rules of \<open>ServeMux.findHandler\<close>: a subtree named without its slash is redirected to it, and a
  path that is not clean is redirected to its clean form.
\<close>

definition ServeMux :: "string list \<Rightarrow> string \<Rightarrow> string \<Rightarrow> mux_result" where
  "ServeMux pats method p =
     (let q = (if method = ''CONNECT'' then p else cleanPath p)
      in if mux_best pats q \<noteq> Some q \<and> q \<noteq> [] \<and> last q \<noteq> CHR ''/'' \<and> q @ ''/'' \<in> set pats
         then Redirect (cleanPath p @ ''/'')
         else if q \<noteq> p then Redirect q
         else case mux_best pats q of None \<Rightarrow> NoPattern | Some pat \<Rightarrow> Pattern pat)"

text \<open>\<open>http.Redirect\<close> with 301; the query of the request and the link in the body are left out.\<close>

definition redirect_to :: "string \<Rightarrow> 'b Request \<Rightarrow> Response" where
  "redirect_to u rq = \<lparr>rs_status = 301,
     rs_header = (''Location'', u) # (if rq_Method rq \<in> {''GET'', ''HEAD''}
       then [(''Content-Type'', ''text/html; charset=utf-8'')] else []),
     rs_body = None\<rparr>"

lemma mux_best_matches: "mux_best pats q = Some p \<Longrightarrow> p \<in> set pats \<and> mux_matches q p"
proof -
  have "fold longer xs b = Some p \<Longrightarrow> Some p = b \<or> p \<in> set xs" for xs b
    by (induction xs arbitrary: b) (fastforce simp: longer_def split: option.splits if_splits)+
  from this [of "filter (mux_matches q) pats" None] show "mux_best pats q = Some p \<Longrightarrow> p \<in> set pats \<and> mux_matches q p"
    by (simp add: mux_best_def)
qed

lemma mux_best_exact:
  assumes "p \<in> set pats"
  shows "mux_best pats p = Some p"
proof -
  have "fold longer xs b = Some p"
    if "p \<in> set xs \<or> b = Some p" "\<forall>q \<in> set xs. length q < length p \<or> q = p" "\<forall>q. b = Some q \<longrightarrow> length q < length p \<or> q = p"
    for xs b
    using that
    by (induction xs arbitrary: b) (auto simp: longer_def split: option.splits)
  moreover have "length q < length p \<or> q = p" if "mux_matches p q" for q
    using that by (auto simp: mux_matches_def has_prefix_def) (metis le_neq_implies_less nat_le_linear take_all take_all_iff)
  ultimately show ?thesis using assms unfolding mux_best_def by (simp add: mux_matches_def)
qed

lemma ServeMux_pattern: "ServeMux pats method q = Pattern p \<Longrightarrow> p \<in> set pats \<and> mux_matches q p"
  by (auto simp: ServeMux_def Let_def mux_best_matches split: if_splits option.splits)

text \<open>Patterns that concern other paths make no difference.\<close>

lemma ServeMux_irrelevant:
  assumes "q = (if method = ''CONNECT'' then path else cleanPath path)"
    and "\<forall>p \<in> set ps. \<not> mux_matches q p" "q @ ''/'' \<notin> set ps"
  shows "ServeMux (ps @ pats) method path = ServeMux pats method path" "ServeMux (pats @ ps) method path = ServeMux pats method path"
proof -
  have "filter (mux_matches q) ps = []" using assms(2) by simp
  then have best: "mux_best (ps @ pats) q = mux_best pats q" "mux_best (pats @ ps) q = mux_best pats q"
    by (simp_all add: mux_best_def)
  show "ServeMux (ps @ pats) method path = ServeMux pats method path" "ServeMux (pats @ ps) method path = ServeMux pats method path"
    unfolding ServeMux_def assms(1) [symmetric] Let_def best set_append Un_iff
    by (simp_all only: assms(3) simp_thms)
qed

text \<open>A request served by a mux: a redirect or an error is answered directly.\<close>

definition mux_route :: "string list \<Rightarrow> 'b Request \<Rightarrow> (Response \<Rightarrow> 'r) \<Rightarrow> (string \<Rightarrow> 'r) \<Rightarrow> 'r" where
  "mux_route pats rq plain handler =
     (case ServeMux pats (rq_Method rq) (rq_Path rq) of
        Redirect u \<Rightarrow> plain (redirect_to u rq)
      | NoPattern \<Rightarrow> plain http_NotFound
      | Pattern p \<Rightarrow> handler p)"

lemma mux_route_cases:
  obtains (plain) r where "mux_route pats rq plain handler = plain r" "r = http_NotFound \<or> (\<exists>u. r = redirect_to u rq)"
  | (routed) p where "mux_route pats rq plain handler = handler p" "p \<in> set pats" "mux_matches (rq_Path rq) p"
  by (cases "ServeMux pats (rq_Method rq) (rq_Path rq)") (auto simp: mux_route_def dest: ServeMux_pattern)

lemma cleanPath_rooted:
  assumes "ps \<noteq> []" "\<forall>p \<in> set ps. plain_part p"
  shows "cleanPath (CHR ''/'' # join_slash ps) = CHR ''/'' # join_slash ps"
  using join_slash_start(2) [OF assms] last_join_slash [OF assms] Clean_rooted [OF assms] by (simp add: cleanPath_def)

lemma mux_route_pattern:
  assumes "cleanPath (rq_Path rq) = rq_Path rq" "mux_best pats (rq_Path rq) = Some pat"
    and "rq_Path rq @ ''/'' \<notin> set pats"
  shows "mux_route pats rq plain handler = handler pat"
  using assms by (simp add: mux_route_def ServeMux_def)

end
