(* ===== verification/Eternity_Json.thy ===== *)
theory Eternity_Json
  imports Cbor_Decode Light Router_Queries Go_Mux
begin

text \<open>
  \<open>internal/rpc/eternity_handlers.go\<close> and \<open>internal/rpc/round_handlers.go\<close>: signed headers served
  as JSON, and the header read back out of its CBOR bytes. The source of the signed headers is an
  interface that no type of the repository implements; it is a record of its two methods. A plain
  text body is represented as a string, and an empty byte slice is shown as the empty string.
\<close>

section \<open>Strings\<close>

text \<open>\<open>strings.Trim(s, "/")\<close>.\<close>

definition trim_slash :: "string \<Rightarrow> string" where
  "trim_slash s = rev (dropWhile ((=) (CHR ''/'')) (rev (dropWhile ((=) (CHR ''/'')) s)))"

definition writeJSON :: "json \<Rightarrow> Response" where
  "writeJSON v = \<lparr>rs_status = 200, rs_header = ctJSON, rs_body = Some v\<rparr>"

section \<open>eternity\_handlers.go\<close>

record EternityProvider =
  LatestSignedHeader :: "SignedHeader result"
  SignedHeaderByHeight :: "u64 \<Rightarrow> SignedHeader result"

record commitBundleJSON =
  cj_Round :: u32
  cj_QuorumHash :: string
  cj_Bitmap :: string
  cj_Step :: u8
  cj_AggregateSig :: string

record signedHeaderJSON =
  sj_HeaderCBOR :: string
  sj_HeaderHash :: string
  sj_ProposerPubKey :: string
  sj_Signature :: string
  sj_CommitBundle :: "commitBundleJSON option"

record eternityHeaderJSON =
  ej_Version :: u32
  ej_ChainID :: string
  ej_Height :: u64
  ej_Round :: u32
  ej_TimeUTCUnix :: i64
  ej_PrevHash :: string
  ej_StateRoot :: string
  ej_TxRoot :: string
  ej_ReceiptsRoot :: string
  ej_CommitRoot :: string
  ej_ProposerPubKey :: string
  ej_EmissionEpoch :: u64
  ej_ConsensusParamsHash :: string
  ej_FeeRoot :: string
  ej_ExtraData :: string

definition hex32 :: "bytes \<Rightarrow> string" where
  "hex32 b = hex_encode b"

definition b64 :: "bytes \<Rightarrow> string" where
  "b64 b = b64_encode False b"

definition toCommitBundleJSON :: "CommitBundle option \<Rightarrow> commitBundleJSON option" where
  "toCommitBundleJSON cb = (case cb of
     None \<Rightarrow> None
   | Some c \<Rightarrow> Some \<lparr>cj_Round = cb_Round c, cj_QuorumHash = hex32 (cb_QuorumHash c),
       cj_Bitmap = b64 (cb_Bitmap c), cj_Step = cb_Step c,
       cj_AggregateSig = (if cb_AggregateSig c \<noteq> [] then b64 (cb_AggregateSig c) else [])\<rparr>)"

definition toSignedHeaderJSON :: "SignedHeader \<Rightarrow> signedHeaderJSON" where
  "toSignedHeaderJSON sh = \<lparr>sj_HeaderCBOR = b64 (sh_HeaderCBOR sh), sj_HeaderHash = hex_encode (sh_HeaderHash sh),
     sj_ProposerPubKey = b64 (sh_ProposerPubKey sh), sj_Signature = b64 (sh_Signature sh),
     sj_CommitBundle = toCommitBundleJSON (sh_CommitBundle sh)\<rparr>"

definition asUint64 :: "goval list \<Rightarrow> nat \<Rightarrow> u64" where
  "asUint64 arr i =
     (if length arr \<le> i then 0
      else case arr ! i of
        GUint v \<Rightarrow> v
      | GInt v \<Rightarrow> if sint v < 0 then 0 else v
      | _ \<Rightarrow> 0)"

definition asInt64 :: "goval list \<Rightarrow> nat \<Rightarrow> i64" where
  "asInt64 arr i =
     (if length arr \<le> i then 0
      else case arr ! i of GInt v \<Rightarrow> v | GUint v \<Rightarrow> v | _ \<Rightarrow> 0)"

definition asString :: "goval list \<Rightarrow> nat \<Rightarrow> string" where
  "asString arr i =
     (if length arr \<le> i then []
      else case arr ! i of GString s \<Rightarrow> s | _ \<Rightarrow> [])"

definition getB32 :: "goval list \<Rightarrow> nat \<Rightarrow> string" where
  "getB32 arr i =
     (if length arr \<le> i then []
      else case arr ! i of GBytes bb \<Rightarrow> if length bb = 32 then hex_encode bb else [] | _ \<Rightarrow> [])"

definition getExtra :: "goval list \<Rightarrow> string" where
  "getExtra arr =
     (if 14 < length arr then
        (case arr ! 14 of GBytes bb \<Rightarrow> if bb \<noteq> [] then b64 bb else [] | _ \<Rightarrow> [])
      else [])"

definition cborToEternityHeaderJSON :: "uncbor \<Rightarrow> bytes \<Rightarrow> eternityHeaderJSON result" where
  "cborToEternityHeaderJSON uncbor cborBytes =
     (case uncbor cborBytes of
        Inl e \<Rightarrow> Inl e
      | Inr arr \<Rightarrow> Inr \<lparr>ej_Version = ucast (asUint64 arr 0), ej_ChainID = asString arr 1,
          ej_Height = asUint64 arr 2, ej_Round = ucast (asUint64 arr 3), ej_TimeUTCUnix = asInt64 arr 4,
          ej_PrevHash = getB32 arr 5, ej_StateRoot = getB32 arr 6, ej_TxRoot = getB32 arr 7,
          ej_ReceiptsRoot = getB32 arr 8, ej_CommitRoot = getB32 arr 9, ej_ProposerPubKey = getB32 arr 10,
          ej_EmissionEpoch = asUint64 arr 11, ej_ConsensusParamsHash = getB32 arr 12,
          ej_FeeRoot = getB32 arr 13, ej_ExtraData = getExtra arr\<rparr>)"

text \<open>The members of the JSON objects, after the tags of the three structs.\<close>

definition omitempty :: "string \<Rightarrow> string \<Rightarrow> (string \<times> json) list" where
  "omitempty k s = (if s = [] then [] else [(k, JStr s)])"

definition commitBundle_obj :: "commitBundleJSON \<Rightarrow> json" where
  "commitBundle_obj c = JObj ([(''round'', JNum (uint (cj_Round c))), (''quorum_hash'', JStr (cj_QuorumHash c)),
     (''bitmap'', JStr (cj_Bitmap c)), (''step'', JNum (uint (cj_Step c)))]
     @ omitempty ''aggregate_sig'' (cj_AggregateSig c))"

definition signedHeader_obj :: "signedHeaderJSON \<Rightarrow> json" where
  "signedHeader_obj s = JObj ([(''header_cbor'', JStr (sj_HeaderCBOR s)), (''header_hash'', JStr (sj_HeaderHash s)),
     (''proposer_pubkey'', JStr (sj_ProposerPubKey s)), (''signature'', JStr (sj_Signature s))]
     @ (case sj_CommitBundle s of None \<Rightarrow> [] | Some c \<Rightarrow> [(''commit_bundle'', commitBundle_obj c)]))"

definition eternityHeader_obj :: "eternityHeaderJSON \<Rightarrow> json" where
  "eternityHeader_obj h = JObj ([(''version'', JNum (uint (ej_Version h))), (''chain_id'', JStr (ej_ChainID h)),
     (''height'', ju64 (ej_Height h)), (''round'', JNum (uint (ej_Round h))), (''time_utc_unix'', ji64 (ej_TimeUTCUnix h)),
     (''prev_hash'', JStr (ej_PrevHash h)), (''state_root'', JStr (ej_StateRoot h)), (''tx_root'', JStr (ej_TxRoot h)),
     (''receipts_root'', JStr (ej_ReceiptsRoot h)), (''commit_root'', JStr (ej_CommitRoot h)),
     (''proposer_pubkey'', JStr (ej_ProposerPubKey h)), (''emission_epoch'', ju64 (ej_EmissionEpoch h)),
     (''consensus_params_hash'', JStr (ej_ConsensusParamsHash h)), (''fee_root'', JStr (ej_FeeRoot h))]
     @ omitempty ''extra_data'' (ej_ExtraData h))"

definition serve_signed :: "SignedHeader result \<Rightarrow> Response" where
  "serve_signed r = (case r of
     Inl e \<Rightarrow> http_error 404 e
   | Inr sh \<Rightarrow> writeJSON (signedHeader_obj (toSignedHeaderJSON sh)))"

definition serve_header :: "uncbor \<Rightarrow> SignedHeader result \<Rightarrow> Response" where
  "serve_header uncbor r = (case r of
     Inl e \<Rightarrow> http_error 404 e
   | Inr sh \<Rightarrow> (case cborToEternityHeaderJSON uncbor (sh_HeaderCBOR sh) of
       Inl e \<Rightarrow> http_error 500 (''decode_error:'' @ e)
     | Inr h \<Rightarrow> writeJSON (eternityHeader_obj h)))"

definition eternityRoundLatestSigned :: "EternityProvider \<Rightarrow> Response" where
  "eternityRoundLatestSigned p = serve_signed (LatestSignedHeader p)"

definition eternityRound :: "uncbor \<Rightarrow> EternityProvider \<Rightarrow> 'b Request \<Rightarrow> Response" where
  "eternityRound uncbor p rq =
     (let parts = split_at (CHR ''/'') (trim_slash (trim_prefix (rq_Path rq) ''/eternity/round/''))
      in if parts = [''latest'', ''header''] then serve_header uncbor (LatestSignedHeader p)
         else case ParseUint (hd parts) of
           None \<Rightarrow> http_error 400 ''invalid height''
         | Some h64 \<Rightarrow>
             if tl parts = [''signed''] then serve_signed (SignedHeaderByHeight p h64)
             else if tl parts = [''header''] then serve_header uncbor (SignedHeaderByHeight p h64)
             else http_NotFound)"

definition RegisterEternityEndpoints :: "uncbor \<Rightarrow> EternityProvider \<Rightarrow> 'b Request \<Rightarrow> Response" where
  "RegisterEternityEndpoints uncbor p rq =
     mux_route [''/eternity/round/latest/signed'', ''/eternity/round/''] rq id
       (\<lambda>pat. if pat = ''/eternity/round/latest/signed'' then eternityRoundLatestSigned p else eternityRound uncbor p rq)"

section \<open>round\_handlers.go\<close>

text \<open>A signed header given to the encoder directly: byte slices in base64, arrays as numbers.\<close>

definition byte_nums :: "bytes \<Rightarrow> json" where
  "byte_nums bs = JArr (map (\<lambda>b. JNum (uint b)) bs)"

definition bundle_raw :: "CommitBundle \<Rightarrow> json" where
  "bundle_raw c = JObj ([(''round'', JNum (uint (cb_Round c))), (''quorum_hash'', byte_nums (cb_QuorumHash c)),
     (''bitmap'', JStr (b64 (cb_Bitmap c))), (''step'', JNum (uint (cb_Step c)))]
     @ omitempty ''aggregate_sig'' (b64 (cb_AggregateSig c)))"

definition signed_raw :: "SignedHeader \<Rightarrow> json" where
  "signed_raw sh = JObj ([(''header_cbor'', JStr (b64 (sh_HeaderCBOR sh))), (''header_hash'', byte_nums (sh_HeaderHash sh)),
     (''proposer_pubkey'', JStr (b64 (sh_ProposerPubKey sh))), (''signature'', JStr (b64 (sh_Signature sh)))]
     @ (case sh_CommitBundle sh of None \<Rightarrow> [] | Some c \<Rightarrow> [(''commit_bundle'', bundle_raw c)]))"

definition rounds_latest_signed :: "EternityProvider \<Rightarrow> Response" where
  "rounds_latest_signed p = (case LatestSignedHeader p of
     Inl e \<Rightarrow> http_error 500 e | Inr sh \<Rightarrow> writeJSON (signed_raw sh))"

definition rounds_by_height :: "EternityProvider \<Rightarrow> 'b Request \<Rightarrow> Response" where
  "rounds_by_height p rq =
     (let path = trim_prefix (rq_Path rq) ''/round/''
      in if \<not> has_suffix path ''/signed'' then http_NotFound
         else case ParseUint (trim_slash (trim_suffix path ''/signed'')) of
           None \<Rightarrow> http_error 400 ''invalid height''
         | Some h \<Rightarrow> (case SignedHeaderByHeight p h of
             Inl e \<Rightarrow> http_error 404 e | Inr sh \<Rightarrow> writeJSON (signed_raw sh)))"

definition RegisterRoundEndpoints :: "EternityProvider \<Rightarrow> 'b Request \<Rightarrow> Response" where
  "RegisterRoundEndpoints p rq =
     mux_route [''/round/latest/signed'', ''/round/''] rq id
       (\<lambda>pat. if pat = ''/round/latest/signed'' then rounds_latest_signed p else rounds_by_height p rq)"

text \<open>Both sets of routes on one mux, \<open>attach.go\<close>.\<close>

definition NewEternityHTTPHandler :: "uncbor \<Rightarrow> EternityProvider \<Rightarrow> 'b Request \<Rightarrow> Response" where
  "NewEternityHTTPHandler uncbor p rq =
     mux_route [''/round/latest/signed'', ''/round/'', ''/eternity/round/latest/signed'', ''/eternity/round/''] rq id
       (\<lambda>pat. if pat = ''/round/latest/signed'' then rounds_latest_signed p
             else if pat = ''/round/'' then rounds_by_height p rq
             else if pat = ''/eternity/round/latest/signed'' then eternityRoundLatestSigned p
             else eternityRound uncbor p rq)"

section \<open>Routing\<close>

text \<open>
  Fact. The two sets of routes do not disturb each other: below \<open>/eternity/\<close> the combined handler
  answers as the Eternity routes alone do, every other path as the round routes alone do.
\<close>

theorem attached_routes:
  assumes "q = (if rq_Method rq = ''CONNECT'' then rq_Path rq else cleanPath (rq_Path rq))"
  shows "NewEternityHTTPHandler uncbor p rq =
    (if has_prefix q ''/eternity/'' then RegisterEternityEndpoints uncbor p rq else RegisterRoundEndpoints p rq)"
proof -
  let ?r = "[''/round/latest/signed'', ''/round/'']" and ?e = "[''/eternity/round/latest/signed'', ''/eternity/round/'']"
  have split: "[''/round/latest/signed'', ''/round/'', ''/eternity/round/latest/signed'', ''/eternity/round/''] = ?r @ ?e" by simp
  have pre: "has_prefix q p \<Longrightarrow> \<exists>s. q = p @ s" for p
    by (metis append_take_drop_id has_prefix_def)
  show ?thesis
  proof (cases "has_prefix q ''/eternity/''")
    case True
    with pre obtain s where q: "q = ''/eternity/'' @ s" by blast
    have "ServeMux (?r @ ?e) (rq_Method rq) (rq_Path rq) = ServeMux ?e (rq_Method rq) (rq_Path rq)"
      by (rule ServeMux_irrelevant(1) [OF assms]) (auto simp: q mux_matches_def has_prefix_def)
    with True show ?thesis
      unfolding NewEternityHTTPHandler_def RegisterEternityEndpoints_def mux_route_def split
      by (auto split: mux_result.split dest!: ServeMux_pattern)
  next
    case False
    have "\<not> has_prefix q ''/eternity/round/''" using pre [of "''/eternity/round/''"] False by (auto simp: has_prefix_def)
    moreover have "q \<noteq> ''/eternity/round/latest/signed''" using False by (auto simp: has_prefix_def)
    moreover have "q @ ''/'' \<noteq> ''/eternity/round/''"
    proof
      assume "q @ ''/'' = ''/eternity/round/''"
      then have "q = ''/eternity/round''" by (metis append_is_Nil_conv butlast_snoc butlast.simps list.distinct(1))
      with False show False by (simp add: has_prefix_def)
    qed
    ultimately have "ServeMux (?r @ ?e) (rq_Method rq) (rq_Path rq) = ServeMux ?r (rq_Method rq) (rq_Path rq)"
      by (intro ServeMux_irrelevant(2) [OF assms]) (auto simp: mux_matches_def)
    with False show ?thesis
      unfolding NewEternityHTTPHandler_def RegisterRoundEndpoints_def mux_route_def split
      by (auto split: mux_result.split dest!: ServeMux_pattern)
  qed
qed

lemma trim_slash_id:
  assumes "s \<noteq> []" "hd s \<noteq> CHR ''/''" "last s \<noteq> CHR ''/''"
  shows "trim_slash s = s"
proof -
  have id: "dropWhile ((=) (CHR ''/'')) r = r" if "r \<noteq> []" "hd r \<noteq> CHR ''/''" for r
    using that by (cases r) auto
  show ?thesis using assms by (simp add: trim_slash_def id hd_rev)
qed

lemma height_parts:
  assumes "t \<noteq> []" "CHR ''/'' \<notin> set t"
  shows "split_at (CHR ''/'') (trim_slash (dec_nat n @ ''/'' @ t)) = [dec_nat n, t]"
proof -
  have "hd (dec_nat n) \<in> set (dec_nat n)" "last t \<in> set t" using assms(1) by simp_all
  then have "hd (dec_nat n) \<noteq> CHR ''/''" "last t \<noteq> CHR ''/''"
    using dec_nat_no_slash [of n] assms(2) by metis+
  then have "trim_slash (dec_nat n @ ''/'' @ t) = dec_nat n @ CHR ''/'' # t"
    using assms(1) by (subst trim_slash_id) simp_all
  then show ?thesis
    using assms(2) by (simp add: split_at_sep [OF dec_nat_no_slash] split_at_whole)
qed

lemma not_latest_path: "''/eternity/round/'' @ dec_nat n @ t \<noteq> ''/eternity/round/latest/signed''"
proof
  assume "''/eternity/round/'' @ dec_nat n @ t = ''/eternity/round/latest/signed''"
  then have "dec_nat n @ t = ''latest/signed''" by simp
  then have "hd (dec_nat n) = CHR ''l''" by (metis dec_nat_nonempty hd_append2 list.sel(1))
  moreover have "digit_val (hd (dec_nat n)) \<noteq> None" by (rule digits_dec_nat [of _ n]) simp
  ultimately show False by (simp add: digit_val_def)
qed

lemma eternity_mux:
  assumes "rq_Path rq = ''/eternity/round/'' @ dec_nat n @ ''/'' @ t" "plain_part t"
  shows "RegisterEternityEndpoints uncbor p rq = eternityRound uncbor p rq"
proof -
  have path: "rq_Path rq = CHR ''/'' # join_slash [''eternity'', ''round'', dec_nat n, t]"
    by (simp add: assms(1))
  have clean: "cleanPath (rq_Path rq) = rq_Path rq"
    unfolding path using assms(2) by (intro cleanPath_rooted) (simp_all add: dec_nat_plain, simp add: plain_part_def real_part_def)
  have other: "rq_Path rq \<noteq> ''/eternity/round/latest/signed''" "rq_Path rq @ ''/'' \<noteq> ''/eternity/round/latest/signed''"
    using not_latest_path [of n "''/'' @ t"] not_latest_path [of n "''/'' @ t @ ''/''"] assms(1) by simp_all
  moreover have "rq_Path rq @ ''/'' \<noteq> ''/eternity/round/''" by (simp add: assms(1))
  ultimately have best: "mux_best [''/eternity/round/latest/signed'', ''/eternity/round/''] (rq_Path rq) = Some ''/eternity/round/''"
    by (simp add: mux_best_def mux_matches_def longer_def assms(1) del: has_prefix_Cons) (simp add: has_prefix_def)
  show ?thesis using other \<open>rq_Path rq @ ''/'' \<noteq> ''/eternity/round/''\<close>
    by (simp add: RegisterEternityEndpoints_def mux_route_pattern [OF clean best])
qed

lemma eternity_route:
  assumes "rq_Path rq = ''/eternity/round/'' @ dec_nat (unat n) @ ''/'' @ t" "t \<in> {''header'', ''signed''}"
  shows "RegisterEternityEndpoints uncbor p rq =
    (if t = ''signed'' then serve_signed (SignedHeaderByHeight p n) else serve_header uncbor (SignedHeaderByHeight p n))"
proof -
  have prefix: "trim_prefix (rq_Path rq) ''/eternity/round/'' = dec_nat (unat n) @ ''/'' @ t"
    unfolding assms(1) by (rule trim_prefix_append)
  moreover have parts: "split_at (CHR ''/'') (trim_slash (dec_nat (unat n) @ ''/'' @ t)) = [dec_nat (unat n), t]"
    using assms(2) by (intro height_parts) auto
  moreover have "dec_nat (unat n) \<noteq> ''latest''"
    using not_latest_path [of "unat n" "''/signed''"] by auto
  moreover have "plain_part t" using assms(2) by (auto simp: plain_part_def real_part_def)
  ultimately show ?thesis
    using assms(2) by (auto simp: eternity_mux [OF assms(1)] eternityRound_def Let_def simp del: append_Cons append_Nil)
qed

section \<open>Properties\<close>

text \<open>What a header looks like as JSON, written from the header itself, and its 32-byte fields.\<close>

definition header_view :: "EternityHeader \<Rightarrow> eternityHeaderJSON" where
  "header_view h = \<lparr>ej_Version = eh_Version h, ej_ChainID = eh_ChainID h, ej_Height = eh_Height h,
     ej_Round = eh_Round h, ej_TimeUTCUnix = eh_TimeUTCUnix h, ej_PrevHash = hex_encode (eh_PrevHash h),
     ej_StateRoot = hex_encode (eh_StateRoot h), ej_TxRoot = hex_encode (eh_TxRoot h),
     ej_ReceiptsRoot = hex_encode (eh_ReceiptsRoot h), ej_CommitRoot = hex_encode (eh_CommitRoot h),
     ej_ProposerPubKey = hex_encode (eh_ProposerPubKey h), ej_EmissionEpoch = eh_EmissionEpoch h,
     ej_ConsensusParamsHash = hex_encode (eh_ConsensusParamsHash h), ej_FeeRoot = hex_encode (eh_FeeRoot h),
     ej_ExtraData = b64 (eh_ExtraData h)\<rparr>"

definition header32 :: "EternityHeader \<Rightarrow> bool" where
  "header32 h \<longleftrightarrow> list_all (\<lambda>b. length b = 32) (map snd (fields32 h))"

lemma b64_Nil [simp]: "b64 [] = []"
  by (simp add: b64_def)

lemma ucast_u32_id [simp]: "(ucast (ucast (a :: u32) :: u64) :: u32) = a"
  by (rule bit_eqI) (auto simp: bit_simps)

lemma cborToEternityHeaderJSON_view:
  assumes "cbor (eh_canonicalFields h) = Inr b" "cbor_reads uncbor cbor (eh_canonicalFields h)" "header32 h"
  shows "cborToEternityHeaderJSON uncbor b = Inr (header_view h)"
proof -
  obtain vs where vs: "eh_canonicalFields h = GSlice vs" by (simp add: eh_canonicalFields_def)
  with assms(1,2) have "uncbor b = Inr (map cbor_any vs)" by (simp add: cbor_reads_def)
  with vs assms(3) show ?thesis
    by (cases "eh_ExtraData h = []")
      (simp_all add: cborToEternityHeaderJSON_def header_view_def eh_canonicalFields_def asUint64_def asInt64_def
        asString_def getB32_def getExtra_def header32_def fields32_def append_nil_def split: if_split, auto)
qed

text \<open>
  Property C22. The header endpoint shows the header that was signed: for a signed header made by
  \<open>BuildSignedEternityHeader\<close> whose fixed fields have 32 bytes, the request for its height is
  answered with every field of the header as it was before the CBOR encoding, whatever the sign of
  the timestamp and whether or not there is extra data. Assumed of the CBOR library is that it
  reads an array it has written back as the decoded Go types of its elements: integers by sign,
  byte strings, strings, and the null written for the nil slice of empty extra data as a nil
  interface.
\<close>

theorem eternity_header_served:
  assumes "BuildSignedEternityHeader b3 cbor sign now bp priv = Inr (h, sh)" "header32 h"
    and "cbor_reads uncbor cbor (eh_canonicalFields h)" and "SignedHeaderByHeight p n = Inr sh"
    and "rq_Path rq = ''/eternity/round/'' @ dec_nat (unat n) @ ''/header''"
  shows "RegisterEternityEndpoints uncbor p rq = writeJSON (eternityHeader_obj (header_view h))"
proof -
  have "cbor (eh_canonicalFields h) = Inr (sh_HeaderCBOR sh)"
    using assms(1) by (auto simp: BuildSignedEternityHeader_def eh_CanonicalCBOR_def EncodeCBORCanonical_def
        split: sum.splits if_splits)
  from cborToEternityHeaderJSON_view [OF this assms(3,2)] eternity_route [of rq n "''header''" uncbor p] assms(4,5)
  show ?thesis by (simp add: serve_header_def)
qed

definition demo_provider :: "SignedHeader \<Rightarrow> EternityProvider" where
  "demo_provider sh = \<lparr>LatestSignedHeader = Inr sh,
     SignedHeaderByHeight = (\<lambda>n. if n = 9 then Inr sh else Inl ''not_found'')\<rparr>"

definition path_req :: "string \<Rightarrow> unit Request" where
  "path_req s = \<lparr>rq_Method = ''GET'', rq_Path = s, rq_Header = (\<lambda>k. []), rq_Query = (\<lambda>k. []), rq_Remote = [], rq_Body = None\<rparr>"

definition demo_header :: EternityHeader where
  "demo_header = zeroHeader\<lparr>eh_Version := 1, eh_ChainID := ''thomas-dev-1'', eh_Height := 9, eh_Round := 4,
     eh_TimeUTCUnix := - 5, eh_StateRoot := replicate 32 7, eh_ProposerPubKey := replicate 32 1\<rparr>"

text \<open>A signing key whose second half is the public key, as in Go's Ed25519, with a transparent
  signature.\<close>

definition demo_sign :: "bytes \<Rightarrow> bytes \<Rightarrow> bytes" where
  "demo_sign sk m = drop 32 sk @ m"

definition demo_signing :: BuildHeaderParams where
  "demo_signing = demo_params\<lparr>bp_CommitBundle := None, bp_ProposerPubKey := replicate 32 1\<rparr>"

definition demo_signed :: SignedHeader where
  "demo_signed = \<lparr>sh_HeaderCBOR = cbor_enc (eh_canonicalFields demo_header),
     sh_HeaderHash = toy_hash (cbor_enc (eh_canonicalFields demo_header)), sh_ProposerPubKey = replicate 32 1,
     sh_Signature = replicate 32 1 @ EternityHeaderSignDomain @ cbor_enc (eh_canonicalFields demo_header),
     sh_CommitBundle = None\<rparr>"

lemma demo_signed_built:
  "BuildSignedEternityHeader toy_hash rfc8949 demo_sign (- 5) demo_signing (replicate 64 1)
     = Inr (demo_header, demo_signed)"
proof -
  have "BuildEternityHeader toy_hash rfc8949 (- 5) demo_signing = Inr demo_header"
    by (simp add: BuildEternityHeader_def demo_signing_def demo_params_def eh_Validate_def maxExtraDataLen_def Let_def
        EternityHeaderVersionV1_def demo_header_def zeroHeader_def)
  then show ?thesis
    by (simp add: BuildSignedEternityHeader_def eh_SignBytes_def eh_Hash_def eh_CanonicalCBOR_def
        EncodeCBORCanonical_def rfc8949_def demo_signed_def demo_signing_def demo_params_def demo_sign_def)
qed

lemma demo_header_readable: "header32 demo_header" "cbor_reads rfc8949_array rfc8949 (eh_canonicalFields demo_header)"
proof -
  show "header32 demo_header" by (simp add: header32_def fields32_def demo_header_def zeroHeader_def)
  show "cbor_reads rfc8949_array rfc8949 (eh_canonicalFields demo_header)"
    unfolding eh_canonicalFields_def
    by (rule rfc8949_reads) (simp_all add: demo_header_def zeroHeader_def append_nil_def)
qed

theorem eternity_header_served_witness:
  "RegisterEternityEndpoints rfc8949_array (demo_provider demo_signed) (path_req ''/eternity/round/9/header'')
     = writeJSON (eternityHeader_obj (header_view demo_header))"
proof -
  have nine: "dec_nat 9 = ''9''" by code_simp
  show ?thesis
    by (rule eternity_header_served [OF demo_signed_built demo_header_readable, of _ 9])
      (simp_all add: demo_provider_def path_req_def nine)
qed

text \<open>
  Property C23. A client can check a signed header from the JSON alone: for a signed header made by
  \<open>BuildSignedEternityHeader\<close> with parameters that name the public key of the signing key, the
  members of the answer decode to bytes whose hash is the served hash, and the served signature
  of their domain-tagged form verifies under the served proposer key; the bytes are the canonical
  encoding of the header, which names the same key. Of the signature scheme only correctness is
  used. That the two keys belong together is the caller's duty: the builder does not check it.
\<close>

theorem eternity_signed_verifiable:
  assumes "\<forall>sk m. verify (public sk) m (sign sk m)"
    and "BuildSignedEternityHeader b3 cbor sign now bp priv = Inr (h, sh)" and "bp_ProposerPubKey bp = public priv"
    and "SignedHeaderByHeight p n = Inr sh" and "rq_Path rq = ''/eternity/round/'' @ dec_nat (unat n) @ ''/signed''"
  shows "\<exists>j cb sg pk. RegisterEternityEndpoints uncbor p rq = writeJSON j
    \<and> b64_decode False (jget_str ''header_cbor'' j) = Some cb \<and> b64_decode False (jget_str ''signature'' j) = Some sg
    \<and> b64_decode False (jget_str ''proposer_pubkey'' j) = Some pk
    \<and> hex_decode (jget_str ''header_hash'' j) = Some (b3 cb) \<and> cbor (eh_canonicalFields h) = Inr cb
    \<and> eh_ProposerPubKey h = pk \<and> verify pk (EternityHeaderSignDomain @ cb) sg"
proof (intro exI conjI)
  show "RegisterEternityEndpoints uncbor p rq = writeJSON (signedHeader_obj (toSignedHeaderJSON sh))"
    using eternity_route [of rq n "''signed''" uncbor p] assms(4,5) by (simp add: serve_signed_def)
  show "cbor (eh_canonicalFields h) = Inr (sh_HeaderCBOR sh)"
    and "verify (sh_ProposerPubKey sh) (EternityHeaderSignDomain @ sh_HeaderCBOR sh) (sh_Signature sh)"
    and "hex_decode (jget_str ''header_hash'' (signedHeader_obj (toSignedHeaderJSON sh))) = Some (b3 (sh_HeaderCBOR sh))"
    and "eh_ProposerPubKey h = sh_ProposerPubKey sh"
    using assms(1-3)
    by (auto simp: BuildSignedEternityHeader_def BuildEternityHeader_def eh_SignBytes_def eh_Hash_def eh_CanonicalCBOR_def
        EncodeCBORCanonical_def jget_str_def jget_def signedHeader_obj_def toSignedHeaderJSON_def Let_def
        split: sum.splits if_splits option.splits)
qed (simp_all add: jget_str_def jget_def signedHeader_obj_def toSignedHeaderJSON_def b64_def)

theorem eternity_signed_verifiable_witness:
  "\<exists>j. RegisterEternityEndpoints rfc8949_array (demo_provider demo_signed) (path_req ''/eternity/round/9/signed'') = writeJSON j
     \<and> hex_decode (jget_str ''header_hash'' j) = Some (toy_hash (sh_HeaderCBOR demo_signed))
     \<and> b64_decode False (jget_str ''proposer_pubkey'' j) = Some (replicate 32 1)
     \<and> b64_decode False (jget_str ''signature'' j)
         = Some (replicate 32 1 @ EternityHeaderSignDomain @ sh_HeaderCBOR demo_signed)"
proof -
  have nine: "dec_nat 9 = ''9''" by code_simp
  have key: "eh_ProposerPubKey demo_header = replicate 32 1" by (simp add: demo_header_def)
  from eternity_signed_verifiable [OF _ demo_signed_built, of "\<lambda>pk m s. s = pk @ m" "drop 32" "demo_provider demo_signed" 9
      "path_req ''/eternity/round/9/signed''" rfc8949_array]
  show ?thesis
    by (auto simp: demo_sign_def demo_signing_def demo_provider_def path_req_def nine rfc8949_def demo_signed_def key)
qed

text \<open>
  Fact. The builder signs with whatever key it is given: with parameters that name another key, the
  signed header does not verify under the key it names, and it is served all the same.
\<close>

theorem eternity_key_unchecked:
  "\<exists>h sh. BuildSignedEternityHeader toy_hash rfc8949 demo_sign (- 5) (demo_signing\<lparr>bp_ProposerPubKey := replicate 32 2\<rparr>)
       (replicate 64 1) = Inr (h, sh)
     \<and> sh_Signature sh \<noteq> sh_ProposerPubKey sh @ EternityHeaderSignDomain @ sh_HeaderCBOR sh"
  by (auto simp: BuildSignedEternityHeader_def BuildEternityHeader_def demo_signing_def demo_params_def eh_Validate_def
      maxExtraDataLen_def EternityHeaderVersionV1_def eh_SignBytes_def eh_Hash_def eh_CanonicalCBOR_def
      EncodeCBORCanonical_def rfc8949_def demo_sign_def Let_def)

end
