(* ===== verification/Docs.thy ===== *)
theory Docs
  imports Go_Mux
begin

text \<open>
  \<open>server/docs_routes.go\<close>: the OpenAPI documents and the documentation page.

  What the handlers read from outside is a record: the files, the JSON decoder (which answers the
  members of an object, \<open>None\<close> when decoding into a map fails), the error of \<open>json.MarshalIndent\<close> if
  any, and the embedded document. Bytes written as they are appear as a string, a document given to
  the encoder as a value. JSON objects are maps that hold each key once and are written back by the
  code after each change, so that they are passed as values here.
\<close>

section \<open>Documents\<close>

type_synonym obj = "(string, json) gomap"

record DocsEnv =
  d_ReadFile :: "string \<Rightarrow> string option"
  d_Unmarshal :: "string \<Rightarrow> obj option"
  d_MarshalErr :: "obj \<Rightarrow> string option"
  d_openapiJSON :: string

definition openAPIDirs :: "string list" where
  "openAPIDirs = [''server/static/openapi'', ''server/docs/openapi'']"

fun first_file :: "(string \<Rightarrow> string option) \<Rightarrow> string list \<Rightarrow> string \<Rightarrow> string option" where
  "first_file rd [] name = None"
| "first_file rd (d # ds) name = (case rd (Join d name) of Some b \<Rightarrow> Some b | None \<Rightarrow> first_file rd ds name)"

definition readOpenAPIPart :: "DocsEnv \<Rightarrow> string \<Rightarrow> string option" where
  "readOpenAPIPart env name = first_file (d_ReadFile env) openAPIDirs name"

definition stripBOM :: "string \<Rightarrow> string" where
  "stripBOM b = (if 3 \<le> length b \<and> b ! 0 = CHR 0xEF \<and> b ! 1 = CHR 0xBB \<and> b ! 2 = CHR 0xBF then drop 3 b else b)"

text \<open>The value under a key if it is an object; else a new one is put there.\<close>

definition getMap :: "obj \<Rightarrow> string \<Rightarrow> obj \<times> obj" where
  "getMap m key = (case map_of m key of Some (JObj v) \<Rightarrow> (v, m) | _ \<Rightarrow> ([], AList.update key (JObj []) m))"

definition merge_paths :: "obj \<Rightarrow> obj \<Rightarrow> obj" where
  "merge_paths dst src =
     (case map_of src ''paths'' of
        Some (JObj sp) \<Rightarrow>
          (let (dp, dst) = getMap dst ''paths'' in AList.update ''paths'' (JObj (AList.merge dp sp)) dst)
      | _ \<Rightarrow> dst)"

definition merge_schemas :: "obj \<Rightarrow> obj \<Rightarrow> obj" where
  "merge_schemas dst src =
     (case map_of src ''components'' of
        Some (JObj sc) \<Rightarrow>
          (case map_of sc ''schemas'' of
             Some (JObj ss) \<Rightarrow>
               (let (dc, dst) = getMap dst ''components'';
                    (ds, dc) = getMap dc ''schemas'';
                    dc = AList.update ''schemas'' (JObj (AList.merge ds ss)) dc
                in AList.update ''components'' (JObj dc) dst)
           | _ \<Rightarrow> dst)
      | _ \<Rightarrow> dst)"

definition mergePathsAndSchemas :: "obj \<Rightarrow> obj \<Rightarrow> obj" where
  "mergePathsAndSchemas dst src = merge_schemas (merge_paths dst src) src"

definition healthSchema :: json where
  "healthSchema = JObj [(''type'', JStr ''object''), (''required'', JArr [JStr ''status'']),
     (''properties'', JObj [(''status'', JObj [(''type'', JStr ''string''),
        (''enum'', JArr [JStr ''ok'', JStr ''degraded'']), (''example'', JStr ''ok'')])])]"

definition healthPath :: json where
  "healthPath = JObj [(''get'', JObj [(''summary'', JStr ''Health''),
     (''responses'', JObj [(''200'', JObj [(''description'', JStr ''OK''),
        (''content'', JObj [(''application/json'', JObj [
           (''schema'', JObj [(''$ref'', JStr ''#/components/schemas/HealthResponse'')]),
           (''examples'', JObj [(''ok'', JObj [(''value'', JObj [(''status'', JStr ''ok'')])])])])])])])])]"

definition ensureHealth :: "obj \<Rightarrow> obj" where
  "ensureHealth doc =
     (let (paths, doc) = getMap doc ''paths''
      in if map_of paths ''/health'' \<noteq> None then doc
         else let (components, doc) = getMap doc ''components'';
                  (schemas, components) = getMap components ''schemas'';
                  schemas = (if map_of schemas ''HealthResponse'' = None
                             then AList.update ''HealthResponse'' healthSchema schemas else schemas);
                  components = AList.update ''schemas'' (JObj schemas) components;
                  doc = AList.update ''components'' (JObj components) doc
              in AList.update ''paths'' (JObj (AList.update ''/health'' healthPath paths)) doc)"

definition openapi_parts :: "string list" where
  "openapi_parts = [''tx.json'', ''rounds.json'', ''policy.json'', ''health.json'', ''wallet.json'']"

definition openapi_root :: obj where
  "openapi_root = [(''openapi'', JStr ''3.0.3''),
     (''info'', JObj [(''title'', JStr ''THO Node API''), (''version'', JStr ''0.1.0'')]),
     (''servers'', JArr [JObj [(''url'', JStr ''/'')]]),
     (''paths'', JObj []), (''components'', JObj [(''schemas'', JObj [])])]"

definition merge_part :: "DocsEnv \<Rightarrow> string \<Rightarrow> obj \<Rightarrow> obj" where
  "merge_part env p doc =
     (case readOpenAPIPart env p of
        None \<Rightarrow> doc
      | Some raw \<Rightarrow> (case d_Unmarshal env (stripBOM raw) of None \<Rightarrow> doc | Some m \<Rightarrow> mergePathsAndSchemas doc m))"

definition buildMergedOpenAPI :: "DocsEnv \<Rightarrow> obj result" where
  "buildMergedOpenAPI env =
     (let doc = ensureHealth (fold (merge_part env) openapi_parts openapi_root)
      in case d_MarshalErr env doc of Some err \<Rightarrow> Inl err | None \<Rightarrow> Inr doc)"

section \<open>Handlers\<close>

definition allowCORS :: "(string \<times> string) list" where
  "allowCORS = [(''Access-Control-Allow-Origin'', ''*''), (''Access-Control-Allow-Methods'', ''GET,OPTIONS''),
     (''Access-Control-Allow-Headers'', ''Content-Type'')]"

definition docs_head :: "string \<Rightarrow> (string \<times> string) list" where
  "docs_head ct = allowCORS @ [(''Content-Type'', ct), (''Cache-Control'', ''no-store'')]"

definition docs_reply :: "nat \<Rightarrow> string \<Rightarrow> json \<Rightarrow> Response" where
  "docs_reply st ct body = \<lparr>rs_status = st, rs_header = docs_head ct, rs_body = Some body\<rparr>"

abbreviation json8 :: string where "json8 \<equiv> ''application/json; charset=utf-8''"

definition docs_preflight :: Response where
  "docs_preflight = \<lparr>rs_status = 204, rs_header = allowCORS, rs_body = None\<rparr>"

definition writeJSONError :: "nat \<Rightarrow> string \<Rightarrow> string \<Rightarrow> Response" where
  "writeJSONError st code msg = docs_reply st json8
     (JObj [(''applied'', JBool False), (''ok'', JBool False),
            (''error'', JObj [(''code'', JStr code), (''message'', JStr msg)])])"

definition docsHTML :: string where
  \<open>docsHTML = concat (map (\<lambda>l. l @ [CHR 0x0A]) [
     ''<!doctype html>'',
     ''<html lang="en">'',
     ''<head>'',
     ''<meta charset="utf-8"/>'',
     ''<title>THO Node API Docs</title>'',
     ''<meta name="viewport" content="width=device-width, initial-scale=1"/>'',
     ''<link rel="stylesheet" href="https://unpkg.com/swagger-ui-dist@5/swagger-ui.css">'',
     ''<style>html,body{margin:0;padding:0}.topbar{display:none}</style>'',
     ''</head>'',
     ''<body>'',
     ''<div id="swagger-ui"></div>'',
     ''<script src="https://unpkg.com/swagger-ui-dist@5/swagger-ui-bundle.js"></script>'',
     ''<script>'',
     ''window.onload = () => {'',
     ''  const ui = SwaggerUIBundle({'',
     ''    url: '' @ [CHR 0x27] @ ''/openapi.json'' @ [CHR 0x27] @ '','',
     ''    dom_id: '' @ [CHR 0x27] @ ''#swagger-ui'' @ [CHR 0x27] @ '','',
     ''    presets: [SwaggerUIBundle.presets.apis],'',
     ''    layout: '' @ [CHR 0x27] @ ''BaseLayout'' @ [CHR 0x27] @ '','',
     ''  });'',
     ''  window.ui = ui;'',
     ''};'',
     ''</script>'',
     ''</body>'']) @ ''</html>''\<close>

definition docsHTMLHandler :: "'b Request \<Rightarrow> Response" where
  "docsHTMLHandler rq =
     (if rq_Method rq = ''OPTIONS'' then docs_preflight
      else docs_reply 200 ''text/html; charset=utf-8'' (JStr docsHTML))"

definition openapi_json :: "DocsEnv \<Rightarrow> 'b Request \<Rightarrow> Response" where
  "openapi_json env rq =
     (if rq_Method rq = ''OPTIONS'' then docs_preflight
      else case buildMergedOpenAPI env of
        Inr data \<Rightarrow> docs_reply 200 json8 (JObj data)
      | Inl _ \<Rightarrow> docs_reply 200 json8 (JStr (d_openapiJSON env)))"

definition openapi_part :: "DocsEnv \<Rightarrow> 'b Request \<Rightarrow> Response" where
  "openapi_part env rq =
     (if rq_Method rq = ''OPTIONS'' then docs_preflight
      else let name = trim_prefix (rq_Path rq) ''/openapi/''
           in if name = [] \<or> contains name ''..'' then writeJSONError 400 ''bad_request'' ''invalid name''
              else if name = ''merged.json'' then
                (case buildMergedOpenAPI env of
                   Inl err \<Rightarrow> writeJSONError 500 ''merge_failed'' err
                 | Inr data \<Rightarrow> docs_reply 200 json8 (JObj data))
              else case readOpenAPIPart env name of
                Some b \<Rightarrow> docs_reply 200 json8 (JStr b)
              | None \<Rightarrow> writeJSONError 404 ''bad_request'' ''404 page not found'')"

definition docs_patterns :: "string list" where
  "docs_patterns = [''/openapi.json'', ''/openapi/'', ''/docs'', ''/docs/'']"

text \<open>What the routes registered on the mux answer, by the pattern that matched.\<close>

definition RegisterDocsRoutes :: "DocsEnv \<Rightarrow> string \<Rightarrow> 'b Request \<Rightarrow> Response" where
  "RegisterDocsRoutes env pat rq =
     (if pat = ''/openapi.json'' then openapi_json env rq
      else if pat = ''/openapi/'' then openapi_part env rq
      else docsHTMLHandler rq)"

section \<open>Which files are read\<close>

definition under_docs :: "string \<Rightarrow> bool" where
  "under_docs p \<longleftrightarrow> (\<exists>d \<in> set openAPIDirs. p = d \<or> (has_prefix p (d @ ''/'') \<and> ''..'' \<notin> set (split_at (CHR ''/'') p)))"

lemma Join_under_docs:
  assumes "d \<in> set openAPIDirs" "\<not> contains name ''..''"
  shows "under_docs (Join d name)"
proof -
  define ok where "ok ds \<longleftrightarrow> ds \<noteq> [] \<and> (\<forall>p \<in> set ds. plain_part p)" for ds
  have "ok [''server'', ''static'', ''openapi'']" "ok [''server'', ''docs'', ''openapi'']"
    by (simp_all add: ok_def plain_part_def real_part_def)
  moreover have "d = join_slash [''server'', ''static'', ''openapi''] \<or> d = join_slash [''server'', ''docs'', ''openapi'']"
    using assms(1) by (simp add: openAPIDirs_def)
  ultimately obtain ds where "d = join_slash ds" "ok ds" by blast
  with Join_below [of ds name] assms show ?thesis by (auto simp: under_docs_def ok_def)
qed

lemma first_file_cong:
  assumes "\<forall>p. under_docs p \<longrightarrow> rd p = rd' p" "\<not> contains name ''..''"
  shows "set ds \<subseteq> set openAPIDirs \<Longrightarrow> first_file rd ds name = first_file rd' ds name"
  using assms Join_under_docs [OF _ assms(2)] by (induction ds) (auto split: option.split)

definition same_docs :: "DocsEnv \<Rightarrow> DocsEnv \<Rightarrow> bool" where
  "same_docs env env' \<longleftrightarrow> d_Unmarshal env = d_Unmarshal env' \<and> d_MarshalErr env = d_MarshalErr env'
     \<and> d_openapiJSON env = d_openapiJSON env' \<and> (\<forall>p. under_docs p \<longrightarrow> d_ReadFile env p = d_ReadFile env' p)"

lemma readOpenAPIPart_cong:
  "same_docs env env' \<Longrightarrow> \<not> contains name ''..'' \<Longrightarrow> readOpenAPIPart env name = readOpenAPIPart env' name"
  by (simp add: readOpenAPIPart_def same_docs_def first_file_cong)

lemma buildMergedOpenAPI_cong:
  assumes "same_docs env env'"
  shows "buildMergedOpenAPI env = buildMergedOpenAPI env'"
proof -
  have "merge_part env p = merge_part env' p" if "p \<in> set openapi_parts" for p
  proof -
    from that have "\<not> contains p ''..''" by (auto simp: openapi_parts_def has_prefix_def)
    from readOpenAPIPart_cong [OF assms this] assms show ?thesis
      by (simp add: merge_part_def same_docs_def fun_eq_iff split: option.split)
  qed
  then have "fold (merge_part env) openapi_parts doc = fold (merge_part env') openapi_parts doc" for doc
    by (intro fold_cong) simp_all
  with assms show ?thesis by (simp add: buildMergedOpenAPI_def same_docs_def)
qed

text \<open>
  Property C29. A request cannot make the documentation routes read a file outside their two
  directories: two file systems that agree on the paths below \<open>server/static/openapi\<close> and
  \<open>server/docs/openapi\<close> (paths without a step upwards) give the same answer to every request,
  whatever its path.
\<close>

theorem docs_confined:
  assumes "same_docs env env'"
  shows "RegisterDocsRoutes env pat rq = RegisterDocsRoutes env' pat rq"
proof -
  have "d_openapiJSON env = d_openapiJSON env'" using assms by (simp add: same_docs_def)
  with readOpenAPIPart_cong [OF assms] buildMergedOpenAPI_cong [OF assms] show ?thesis
    by (auto simp: RegisterDocsRoutes_def openapi_json_def openapi_part_def Let_def split: sum.split)
qed

definition docs_demo :: "(string \<Rightarrow> string option) \<Rightarrow> DocsEnv" where
  "docs_demo rd = \<lparr>d_ReadFile = rd, d_Unmarshal = (\<lambda>b. None), d_MarshalErr = (\<lambda>d. None), d_openapiJSON = ''{}''\<rparr>"

definition docs_get :: "string \<Rightarrow> unit Request" where
  "docs_get p = \<lparr>rq_Method = ''GET'', rq_Path = p, rq_Header = (\<lambda>k. []), rq_Query = (\<lambda>k. []), rq_Remote = [], rq_Body = None\<rparr>"

definition secret_fs :: "string \<Rightarrow> string option" where
  "secret_fs p = (if p = ''data/key'' then Some ''secret'' else None)"

theorem docs_confined_witness:
  "RegisterDocsRoutes (docs_demo secret_fs) ''/openapi/'' (docs_get ''/openapi/../../../data/key'')
     = writeJSONError 400 ''bad_request'' ''invalid name''
   \<and> RegisterDocsRoutes (docs_demo secret_fs) ''/openapi/'' (docs_get ''/openapi/key'')
     = RegisterDocsRoutes (docs_demo Map.empty) ''/openapi/'' (docs_get ''/openapi/key'')"
proof -
  have "\<not> under_docs ''data/key''" by (simp add: under_docs_def openAPIDirs_def has_prefix_def)
  then have "same_docs (docs_demo secret_fs) (docs_demo Map.empty)"
    by (auto simp: same_docs_def docs_demo_def secret_fs_def)
  from docs_confined [OF this, of "''/openapi/''" "docs_get ''/openapi/key''"] show ?thesis
    by (simp add: RegisterDocsRoutes_def openapi_part_def docs_get_def trim_prefix_def)
qed

section \<open>What the merged document holds\<close>

definition members :: "json option \<Rightarrow> obj" where
  "members j = (case j of Some (JObj m) \<Rightarrow> m | _ \<Rightarrow> [])"

definition doc_paths :: "obj \<Rightarrow> string \<rightharpoonup> json" where
  "doc_paths doc = map_of (members (map_of doc ''paths''))"

definition doc_schemas :: "obj \<Rightarrow> string \<rightharpoonup> json" where
  "doc_schemas doc = map_of (members (map_of (members (map_of doc ''components'')) ''schemas''))"

lemma members_JObj [simp]: "members (Some (JObj m)) = m" "members None = []"
  by (simp_all add: members_def)

lemma getMap_eq:
  "fst (getMap m k) = members (map_of m k)"
  "map_of (snd (getMap m k)) = (map_of m)(k \<mapsto> JObj (members (map_of m k)))"
  by (auto simp: getMap_def members_def update_conv' split: option.split json.split)

lemma not_object:
  assumes "\<forall>m. j \<noteq> Some (JObj m)"
  shows "members j = []" "(case j of Some (JObj m) \<Rightarrow> f m | _ \<Rightarrow> x) = x"
  using assms by (auto simp: members_def split: option.split json.split)

lemmas doc_simps = doc_paths_def doc_schemas_def getMap_eq update_conv' merge_conv' case_prod_beta Let_def

lemma merge_paths_doc:
  "doc_paths (merge_paths dst src) = doc_paths dst ++ doc_paths src"
  "doc_schemas (merge_paths dst src) = doc_schemas dst"
  by (cases "\<exists>sp. map_of src ''paths'' = Some (JObj sp)";
      auto simp: merge_paths_def doc_simps not_object)+

lemma merge_schemas_doc:
  "doc_paths (merge_schemas dst src) = doc_paths dst \<and>
   doc_schemas (merge_schemas dst src) = doc_schemas dst ++ doc_schemas src"
proof (cases "\<exists>sc. map_of src ''components'' = Some (JObj sc)")
  case True
  then obtain sc where sc: "map_of src ''components'' = Some (JObj sc)" by blast
  show ?thesis
    by (cases "\<exists>ss. map_of sc ''schemas'' = Some (JObj ss)") (auto simp: merge_schemas_def doc_simps not_object sc)
qed (simp add: merge_schemas_def doc_simps not_object)

definition part_of :: "DocsEnv \<Rightarrow> string \<Rightarrow> obj" where
  "part_of env p = (case readOpenAPIPart env p of
     None \<Rightarrow> [] | Some raw \<Rightarrow> (case d_Unmarshal env (stripBOM raw) of None \<Rightarrow> [] | Some m \<Rightarrow> m))"

lemma merge_part_doc:
  "doc_paths (merge_part env p doc) = doc_paths doc ++ doc_paths (part_of env p)"
  "doc_schemas (merge_part env p doc) = doc_schemas doc ++ doc_schemas (part_of env p)"
  by (simp_all add: merge_part_def part_of_def mergePathsAndSchemas_def merge_paths_doc merge_schemas_doc split: option.split)
    (simp_all add: doc_paths_def doc_schemas_def)

lemma fold_doc:
  "doc_paths (fold (merge_part env) ps doc) = fold (\<lambda>p m. m ++ doc_paths (part_of env p)) ps (doc_paths doc)"
  "doc_schemas (fold (merge_part env) ps doc) = fold (\<lambda>p m. m ++ doc_schemas (part_of env p)) ps (doc_schemas doc)"
  by (induction ps arbitrary: doc) (simp_all add: merge_part_doc)

lemma ensureHealth_doc:
  "doc_paths (ensureHealth doc) = (if doc_paths doc ''/health'' = None then (doc_paths doc)(''/health'' \<mapsto> healthPath) else doc_paths doc)"
  "doc_schemas (ensureHealth doc) =
     (if doc_paths doc ''/health'' = None \<and> doc_schemas doc ''HealthResponse'' = None
      then (doc_schemas doc)(''HealthResponse'' \<mapsto> healthSchema) else doc_schemas doc)"
  by (auto simp: ensureHealth_def doc_simps)

text \<open>
  Fact. What the merged document says: its paths and its schemas are those of the five part
  files, a later file winning over an earlier one and a missing or broken file contributing
  nothing; when no file describes \<open>/health\<close>, the built-in description is added, and with it the
  schema it refers to unless a file already has one of that name.
\<close>

theorem merged_openapi:
  assumes "buildMergedOpenAPI env = Inr doc"
  shows "let ps = fold (\<lambda>p m. m ++ doc_paths (part_of env p)) openapi_parts Map.empty;
             ss = fold (\<lambda>p m. m ++ doc_schemas (part_of env p)) openapi_parts Map.empty
         in doc_paths doc = (if ps ''/health'' = None then ps(''/health'' \<mapsto> healthPath) else ps)
          \<and> doc_schemas doc = (if ps ''/health'' = None \<and> ss ''HealthResponse'' = None
                               then ss(''HealthResponse'' \<mapsto> healthSchema) else ss)"
proof -
  have "doc_paths openapi_root = Map.empty" "doc_schemas openapi_root = Map.empty"
    by (simp_all add: openapi_root_def doc_paths_def doc_schemas_def)
  moreover from assms have "doc = ensureHealth (fold (merge_part env) openapi_parts openapi_root)"
    by (auto simp: buildMergedOpenAPI_def Let_def split: option.splits)
  ultimately show ?thesis by (simp only: fold_doc ensureHealth_doc Let_def simp_thms)
qed

definition health_files :: DocsEnv where
  "health_files = (docs_demo (\<lambda>p. if p = ''server/docs/openapi/wallet.json'' then Some ''W'' else None))
     \<lparr>d_Unmarshal := (\<lambda>b. if b = ''W'' then Some [(''paths'', JObj [(''/w'', JBool True)])] else None)\<rparr>"

theorem merged_openapi_witness:
  "\<exists>doc. buildMergedOpenAPI health_files = Inr doc \<and> doc_paths doc ''/w'' = Some (JBool True)
     \<and> doc_paths doc ''/health'' = Some healthPath \<and> doc_schemas doc ''HealthResponse'' = Some healthSchema"
proof -
  obtain doc where doc: "buildMergedOpenAPI health_files = Inr doc"
    by (simp add: buildMergedOpenAPI_def health_files_def docs_demo_def Let_def)
  have "part_of health_files ''tx.json'' = []" "part_of health_files ''rounds.json'' = []"
    "part_of health_files ''policy.json'' = []" "part_of health_files ''health.json'' = []"
    "part_of health_files ''wallet.json'' = [(''paths'', JObj [(''/w'', JBool True)])]"
    by code_simp+
  with merged_openapi [OF doc] doc show ?thesis
    by (simp add: openapi_parts_def doc_paths_def doc_schemas_def Let_def)
qed

end
