(* ===== verification/Gateway.thy ===== *)
theory Gateway
  imports R2P_Race Eternity_Json Docs
begin

text \<open>
  \<open>cmd/thomasd/main.go\<close>: the start-up guard and the two pieces of middleware around the router, CORS
  and the rate limit on \<open>/wallet/restore\<close>. A handler maps a request and a state to a response and
  a state. The state holds the rate buckets, a count of clock readings, and the state \<open>'s\<close> of what
  is behind; the \<open>n\<close>-th reading of the clock is \<open>clk n\<close> nanoseconds, so that readings within one
  request may differ. The elapsed minutes are computed in binary64 as the code does.
\<close>

section \<open>Floating point\<close>

text \<open>Quotient and sum of non-negative numbers, rounded to nearest even.\<close>

fun fdiv :: "f64 \<Rightarrow> f64 \<Rightarrow> f64" where
  "fdiv (Fin m e) (Fin n f) =
     (let k = 64 + blen n; q = m * 2 ^ k div n; r = m * 2 ^ k mod n
      in if n = 0 then PInf else fl (2 * q + (if r = 0 then 0 else 1)) (e - f - int k - 1))"
| "fdiv (Fin m e) PInf = Fin 0 0"
| "fdiv PInf y = PInf"

fun fadd :: "f64 \<Rightarrow> f64 \<Rightarrow> f64" where
  "fadd (Fin m e) (Fin n f) =
     (let g = min e f in fl (m * 2 ^ nat (e - g) + n * 2 ^ nat (f - g)) g)"
| "fadd _ _ = PInf"

definition f64_of_nat :: "nat \<Rightarrow> f64" where
  "f64_of_nat n = fl n 0"

text \<open>\<open>time.Duration.Minutes\<close> for a non-negative duration in nanoseconds.\<close>

definition ns_per_minute :: nat where "ns_per_minute = 60000000000"

definition Minutes :: "nat \<Rightarrow> f64" where
  "Minutes d = fadd (f64_of_nat (d div ns_per_minute)) (fdiv (f64_of_nat (d mod ns_per_minute)) (f64_of_nat ns_per_minute))"

section \<open>Addresses\<close>

fun last_index :: "'a \<Rightarrow> 'a list \<Rightarrow> nat option" where
  "last_index c [] = None"
| "last_index c (x # xs) = (case last_index c xs of
     Some i \<Rightarrow> Some (i + 1) | None \<Rightarrow> if x = c then Some 0 else None)"

fun first_index :: "'a \<Rightarrow> 'a list \<Rightarrow> nat option" where
  "first_index c [] = None"
| "first_index c (x # xs) = (if x = c then Some 0 else map_option Suc (first_index c xs))"

text \<open>\<open>net.SplitHostPort\<close>; \<open>None\<close> stands for any of its errors.\<close>

definition SplitHostPort :: "string \<Rightarrow> (string \<times> string) option" where
  "SplitHostPort s =
     (case last_index (CHR '':'') s of
        None \<Rightarrow> None
      | Some i \<Rightarrow>
          let finish = (\<lambda>host j k.
                if CHR ''['' \<in> set (drop j s) \<or> CHR '']'' \<in> set (drop k s) then None
                else Some (host, drop (i + 1) s))
          in if hd s = CHR ''['' then
               (case first_index (CHR '']'') s of
                  None \<Rightarrow> None
                | Some e \<Rightarrow> if e + 1 = i then finish (drop 1 (take e s)) 1 (e + 1) else None)
             else if CHR '':'' \<in> set (take i s) then None
             else finish (take i s) 0 0)"

definition clientIP :: "'b Request \<Rightarrow> string" where
  "clientIP rq = (case SplitHostPort (rq_Remote rq) of None \<Rightarrow> rq_Remote rq | Some (host, _) \<Rightarrow> host)"

section \<open>CORS\<close>

definition allowed :: "string \<Rightarrow> bool" where
  "allowed o' \<longleftrightarrow> o' \<in> set [''http://localhost:5174'']"

definition cors_headers :: "string \<Rightarrow> (string \<times> string) list" where
  "cors_headers o' = [(''Access-Control-Allow-Origin'', o'), (''Vary'', ''Origin''),
     (''Access-Control-Allow-Methods'', ''GET, POST, OPTIONS''),
     (''Access-Control-Allow-Headers'', ''Content-Type, Authorization, X-PubKey, X-Sig''),
     (''Access-Control-Allow-Credentials'', ''true'')]"

text \<open>Headers set before the handler runs; the ones it sets itself replace them.\<close>

definition with_headers :: "(string \<times> string) list \<Rightarrow> Response \<Rightarrow> Response" where
  "with_headers hs r = r\<lparr>rs_header := fold (\<lambda>(k, v). AList.update k v) (rs_header r) hs\<rparr>"

type_synonym ('b, 's) handler = "'b Request \<Rightarrow> 's \<Rightarrow> Response \<times> 's"

definition withCORS :: "('b, 's) handler \<Rightarrow> ('b, 's) handler" where
  "withCORS h rq s =
     (let o' = rq_Header rq ''Origin''
      in if o' \<noteq> [] \<and> allowed o' then
           (if rq_Method rq = ''OPTIONS'' then (with_headers (cors_headers o') (status_only 204), s)
            else let (r, s) = h rq s in (with_headers (cors_headers o') r, s))
         else if rq_Method rq = ''OPTIONS'' then (status_only 204, s)
         else h rq s)"

section \<open>Rate limit\<close>

record rateBucket =
  rb_tokens :: int
  rb_last :: "nat option"   \<comment> \<open>\<open>None\<close> is the zero time\<close>

record 's Gate =
  g_rl :: "(string, rateBucket) gomap"
  g_reads :: nat
  g_rest :: 's

definition refill_add :: "int \<Rightarrow> nat \<Rightarrow> int" where
  "refill_add rpm elapsed = (case ftrunc (fmul (Minutes elapsed) (f64_of_nat (nat rpm))) of
     Some n \<Rightarrow> int n | None \<Rightarrow> 0)"

text \<open>
  Readings of \<open>time.Now\<close> carry a monotonic clock, which \<open>Sub\<close> uses, so that the elapsed time is
  not negative; a negative one would give \<open>add\<close> at most zero, and the bucket would stay as it does
  for zero here.
\<close>

definition refill :: "int \<Rightarrow> nat \<Rightarrow> rateBucket \<Rightarrow> rateBucket" where
  "refill rpm now b =
     (case rb_last b of
        None \<Rightarrow> b\<lparr>rb_last := Some now\<rparr>
      | Some t0 \<Rightarrow>
          let add = refill_add rpm (now - t0)
          in if 0 < add
             then b\<lparr>rb_tokens := (if rpm < rb_tokens b + add then rpm else rb_tokens b + add), rb_last := Some now\<rparr>
             else b)"

definition time_Now :: "(nat \<Rightarrow> nat) \<Rightarrow> 's Gate \<Rightarrow> nat \<times> 's Gate" where
  "time_Now clk g = (clk (g_reads g), g\<lparr>g_reads := g_reads g + 1\<rparr>)"

definition too_many :: Response where
  "too_many = \<lparr>rs_status = 429, rs_header = [],
     rs_body = Some (JObj [(''ok'', JBool False), (''error'', JStr ''rate_limited'')])\<rparr>"

text \<open>The critical section: whether the request may pass.\<close>

definition take_token :: "(nat \<Rightarrow> nat) \<Rightarrow> int \<Rightarrow> string \<Rightarrow> 's Gate \<Rightarrow> bool \<times> 's Gate" where
  "take_token clk rpm ip g =
     (let (b, g) = (case map_of (g_rl g) ip of
            Some b \<Rightarrow> (b, g)
          | None \<Rightarrow> (let (now, g) = time_Now clk g in (\<lparr>rb_tokens = rpm, rb_last = Some now\<rparr>, g)));
          (now, g) = time_Now clk g;
          b = refill rpm now b
      in if rb_tokens b \<le> 0 then (False, g\<lparr>g_rl := AList.update ip b (g_rl g)\<rparr>)
         else (True, g\<lparr>g_rl := AList.update ip (b\<lparr>rb_tokens := rb_tokens b - 1\<rparr>) (g_rl g)\<rparr>))"

definition withRateLimitRestore ::
  "(nat \<Rightarrow> nat) \<Rightarrow> ('b, 's Gate) handler \<Rightarrow> int \<Rightarrow> ('b, 's Gate) handler" where
  "withRateLimitRestore clk h rpm rq g =
     (if has_prefix (rq_Path rq) ''/wallet/restore'' then
        (case take_token clk rpm (clientIP rq) g of
           (False, g) \<Rightarrow> (too_many, g)
         | (True, g) \<Rightarrow> h rq g)
      else h rq g)"

section \<open>main\<close>

text \<open>The message of \<open>log.Fatal\<close> when the node refuses to start.\<close>

definition main_refuses :: "(string \<Rightarrow> string) \<Rightarrow> string \<Rightarrow> string option" where
  "main_refuses getenv releaseBuild =
     (if getenv ''THOMAS_ENV'' = ''prod'' \<and> getenv ''THOMAS_DEV_FREE_R2P'' = ''1''
      then Some ''REFUSING TO START: THOMAS_DEV_FREE_R2P=1 in production (THOMAS_ENV=prod)''
      else if releaseBuild = ''prod'' \<and> getenv ''THOMAS_DEV_FREE_R2P'' = ''1''
      then Some ''REFUSING TO START: THOMAS_DEV_FREE_R2P=1 in release build''
      else None)"

text \<open>A handler that knows nothing of the buckets.\<close>

definition behind :: "('b, 's) handler \<Rightarrow> ('b, 's Gate) handler" where
  "behind f rq g = (let (r, s) = f rq (g_rest g) in (r, g\<lparr>g_rest := s\<rparr>))"

text \<open>
  The handler given to the server: the router behind one pair of middleware, the documentation
  routes beside it on the mux, and a second pair around both.
\<close>

definition main_patterns :: "string list" where
  "main_patterns = docs_patterns @ [''/'']"

definition main_mux :: "DocsEnv \<Rightarrow> ('b, 's) handler \<Rightarrow> ('b, 's) handler" where
  "main_mux env h rq s = mux_route main_patterns rq (\<lambda>r. (r, s))
     (\<lambda>p. if p = ''/'' then h rq s else (RegisterDocsRoutes env p rq, s))"

definition main_root :: "(nat \<Rightarrow> nat) \<Rightarrow> DocsEnv \<Rightarrow> ('b, 's) handler \<Rightarrow> ('b, 's Gate) handler" where
  "main_root clk env router =
     (let h = withCORS (withRateLimitRestore clk (behind router) 5)
      in withCORS (withRateLimitRestore clk (main_mux env h) 5))"

section \<open>Tokens\<close>

definition gate_ok :: "int \<Rightarrow> 's Gate \<Rightarrow> bool" where
  "gate_ok rpm g \<longleftrightarrow> (\<forall>ip b. map_of (g_rl g) ip = Some b \<longrightarrow> 0 \<le> rb_tokens b \<and> rb_tokens b \<le> rpm)"

lemma refill_bounds:
  "0 \<le> rb_tokens b \<Longrightarrow> rb_tokens b \<le> rpm \<Longrightarrow> 0 \<le> rb_tokens (refill rpm now b) \<and> rb_tokens (refill rpm now b) \<le> rpm"
  by (auto simp: refill_def Let_def split: option.split)

text \<open>The bucket found or created, and the reading that the refill uses.\<close>

definition bucket0 :: "(nat \<Rightarrow> nat) \<Rightarrow> int \<Rightarrow> string \<Rightarrow> 's Gate \<Rightarrow> rateBucket" where
  "bucket0 clk rpm ip g = (case map_of (g_rl g) ip of
     Some b \<Rightarrow> b | None \<Rightarrow> \<lparr>rb_tokens = rpm, rb_last = Some (clk (g_reads g))\<rparr>)"

definition reading :: "string \<Rightarrow> 's Gate \<Rightarrow> nat" where
  "reading ip g = (case map_of (g_rl g) ip of Some b \<Rightarrow> g_reads g | None \<Rightarrow> g_reads g + 1)"

lemma take_token_eq:
  "take_token clk rpm ip g =
     (let b = refill rpm (clk (reading ip g)) (bucket0 clk rpm ip g)
      in (0 < rb_tokens b, g\<lparr>g_reads := reading ip g + 1,
            g_rl := AList.update ip (if 0 < rb_tokens b then b\<lparr>rb_tokens := rb_tokens b - 1\<rparr> else b) (g_rl g)\<rparr>))"
  by (simp add: take_token_def time_Now_def bucket0_def reading_def Let_def split: option.split)

lemma take_token_ok:
  assumes "0 \<le> rpm" "gate_ok rpm g"
  shows "gate_ok rpm (snd (take_token clk rpm ip g))"
proof -
  have "0 \<le> rb_tokens (bucket0 clk rpm ip g)" "rb_tokens (bucket0 clk rpm ip g) \<le> rpm"
    using assms by (auto simp: bucket0_def gate_ok_def split: option.split)
  note refill_bounds [OF this, of "clk (reading ip g)"]
  then show ?thesis using assms(2) by (auto simp: take_token_eq gate_ok_def update_conv' Let_def)
qed

inductive gate_step :: "(nat \<Rightarrow> nat) \<Rightarrow> int \<Rightarrow> 's Gate \<Rightarrow> 's Gate \<Rightarrow> bool" for clk rpm where
  token: "gate_step clk rpm g (snd (take_token clk rpm ip g))"
| other: "g_rl g' = g_rl g \<Longrightarrow> gate_step clk rpm g g'"

interpretation gate_sys: invariant_system "\<lambda>g. g_rl g = []" "gate_step clk 5" "\<lambda>g. True" "gate_ok 5" for clk
proof
  fix g g' :: "'a Gate"
  assume "gate_step clk 5 g g'" "gate_ok 5 g"
  then show "gate_ok 5 g'"
    by cases (simp_all add: take_token_ok, simp add: gate_ok_def)
qed (simp_all add: gate_ok_def)

section \<open>A short window adds no token\<close>

text \<open>Numbers up to \<open>C / 2^w\<close>; rounding does not leave them when \<open>w\<close> is below the precision.\<close>

fun le_frac :: "nat \<Rightarrow> nat \<Rightarrow> f64 \<Rightarrow> bool" where
  "le_frac C w (Fin m e) \<longleftrightarrow> e \<le> - int w \<and> m \<le> C * 2 ^ nat (- int w - e)"
| "le_frac C w PInf = False"

lemma le_frac_fl:
  assumes "C \<le> 2 ^ w" "w \<le> 52" "e \<le> - int w" "p \<le> C * 2 ^ nat (- int w - e)"
  shows "le_frac C w (fl p e)"
proof -
  define k where "k = blen p - 53"
  have "p \<le> 2 ^ w * 2 ^ nat (- int w - e)" using assms(1,4) by (meson le_trans mult_le_mono1)
  also have "\<dots> = 2 ^ nat (- e)" using assms(3) by (simp add: power_add [symmetric] nat_add_distrib [symmetric])
  finally have "blen p \<le> nat (- e) + 1" by (rule blen_le)
  then have k: "int k \<le> - int w - e" using assms(2,3) by (simp add: k_def)
  then have split: "nat (- int w - e) = nat (- int w - (e + int k)) + k" by simp
  have "rne p k \<le> C * 2 ^ nat (- int w - (e + int k))"
    using assms(4) by (intro rne_le) (simp add: split power_add mult.assoc)
  with k show ?thesis by (simp add: fl_def k_def Let_def)
qed

lemma fl_exact: "n \<le> 2 ^ 52 \<Longrightarrow> fl n 0 = Fin n 0"
  using blen_le [of n 52] by (simp add: fl_def rne_def Let_def)

lemma le_frac_zero: "le_frac C w x \<Longrightarrow> C < 2 ^ w \<Longrightarrow> ftrunc x = Some 0"
proof (cases x)
  case (Fin m e)
  assume "le_frac C w x" "C < 2 ^ w"
  with Fin have e: "e \<le> - int w" and m: "m \<le> C * 2 ^ nat (- int w - e)" by simp_all
  note m
  also have "C * 2 ^ nat (- int w - e) < 2 ^ w * 2 ^ nat (- int w - e)" using \<open>C < 2 ^ w\<close> by simp
  also have "\<dots> = 2 ^ nat (- e)" using e by (simp add: power_add [symmetric] nat_add_distrib [symmetric])
  finally show ?thesis using Fin e by (cases "e = 0") simp_all
qed simp

lemma Minutes_short:
  assumes "d < 12000000000"
  shows "le_frac 13743895347 36 (Minutes d)"
proof -
  have q: "d * 2 ^ 100 div 60000000000 \<le> 11999999999 * 2 ^ 100 div 60000000000"
    using assms by (intro div_le_mono mult_le_mono1) simp
  have "blen 60000000000 = 36" by (simp add: blen.simps)
  then have "fdiv (Fin d 0) (Fin 60000000000 0)
      = fl (2 * (d * 2 ^ 100 div 60000000000) + (if d * 2 ^ 100 mod 60000000000 = 0 then 0 else 1)) (- 101)"
    by (simp add: Let_def)
  moreover have "le_frac 13743895347 36 \<dots>"
    using q by (intro le_frac_fl) simp_all
  ultimately obtain m e where "fdiv (Fin d 0) (Fin 60000000000 0) = Fin m e"
    and m: "e \<le> - 36" "m \<le> 13743895347 * 2 ^ nat (- 36 - e)"
    by (cases "fdiv (Fin d 0) (Fin 60000000000 0)") simp_all
  moreover have "f64_of_nat d = Fin d 0" "f64_of_nat 60000000000 = Fin 60000000000 0" "f64_of_nat 0 = Fin 0 0"
    using assms by (simp_all add: f64_of_nat_def fl_exact)
  ultimately have "Minutes d = fl m e"
    using assms by (simp add: Minutes_def ns_per_minute_def Let_def min_def)
  with m show ?thesis by (simp add: le_frac_fl)
qed

lemma refill_add_short:
  assumes "d < 12000000000"
  shows "refill_add 5 d = 0"
proof -
  obtain m e where me: "Minutes d = Fin m e" "e \<le> - 36" "m \<le> 13743895347 * 2 ^ nat (- 36 - e)"
    using Minutes_short [OF assms] by (cases "Minutes d") simp_all
  moreover have "f64_of_nat 5 = Fin 5 0" by (simp add: f64_of_nat_def fl_exact)
  ultimately have "fmul (Minutes d) (f64_of_nat 5) = fl (m * 5) e" by simp
  moreover have "le_frac 68719476735 36 (fl (m * 5) e)" using me(2,3) by (intro le_frac_fl) simp_all
  ultimately show ?thesis using le_frac_zero [of 68719476735 36] by (simp add: refill_add_def)
qed

section \<open>Properties\<close>

fun serve :: "('b, 's) handler \<Rightarrow> 'b Request list \<Rightarrow> 's \<Rightarrow> Response list \<times> 's" where
  "serve h [] s = ([], s)"
| "serve h (rq # rqs) s = (let (r, s1) = h rq s; (rs, s2) = serve h rqs s1 in (r # rs, s2))"

definition tokens :: "string \<Rightarrow> 's Gate \<Rightarrow> int" where
  "tokens ip g = (case map_of (g_rl g) ip of Some b \<Rightarrow> rb_tokens b | None \<Rightarrow> 5)"

definition last_read :: "(nat \<Rightarrow> nat) \<Rightarrow> 's Gate \<Rightarrow> bool" where
  "last_read clk g \<longleftrightarrow> (\<forall>ip b. map_of (g_rl g) ip = Some b \<longrightarrow> rb_last b \<in> range (\<lambda>i. Some (clk i)))"

lemma take_token_window:
  assumes "\<forall>i j. clk j - clk i < 12000000000" "last_read clk g"
  shows "fst (take_token clk 5 ip g) = (0 < tokens ip g)"
    and "tokens ip (snd (take_token clk 5 ip g)) = (if 0 < tokens ip g then tokens ip g - 1 else tokens ip g)"
    and "last_read clk (snd (take_token clk 5 ip g))" and "g_rest (snd (take_token clk 5 ip g)) = g_rest g"
proof -
  let ?b = "bucket0 clk 5 ip g"
  have "rb_last ?b \<in> range (\<lambda>i. Some (clk i))"
    using assms(2) by (auto simp: bucket0_def last_read_def split: option.split)
  then obtain i where i: "rb_last ?b = Some (clk i)" by blast
  have same: "refill 5 (clk (reading ip g)) ?b = ?b"
    using i assms(1) by (simp add: refill_def refill_add_short)
  have tok: "rb_tokens ?b = tokens ip g" by (simp add: bucket0_def tokens_def split: option.split)
  show "fst (take_token clk 5 ip g) = (0 < tokens ip g)"
    "tokens ip (snd (take_token clk 5 ip g)) = (if 0 < tokens ip g then tokens ip g - 1 else tokens ip g)"
    "g_rest (snd (take_token clk 5 ip g)) = g_rest g"
    by (simp_all add: take_token_eq same tok Let_def) (simp add: tokens_def update_conv' tok)
  show "last_read clk (snd (take_token clk 5 ip g))"
    using assms(2) i by (auto simp: take_token_eq same last_read_def update_conv' Let_def)
qed

lemma withCORS_pass:
  assumes "rq_Method rq \<noteq> ''OPTIONS''"
  shows "snd (withCORS h rq s) = snd (h rq s)" "rs_status (fst (withCORS h rq s)) = rs_status (fst (h rq s))"
  using assms by (simp_all add: withCORS_def with_headers_def case_prod_beta Let_def)

lemma behind_sel [simp]:
  "fst (behind f rq g) = fst (f rq (g_rest g))" "g_rest (snd (behind f rq g)) = snd (f rq (g_rest g))"
  "tokens ip (snd (behind f rq g)) = tokens ip g" "last_read clk (snd (behind f rq g)) = last_read clk g"
  by (simp_all add: behind_def case_prod_beta Let_def tokens_def last_read_def)

lemma limit_restore:
  assumes "\<forall>i j. clk j - clk i < 12000000000" "last_read clk g"
    and "has_prefix (rq_Path rq) ''/wallet/restore''" "clientIP rq = ip"
  shows "withRateLimitRestore clk h 5 rq g =
    (if 0 < tokens ip g then h rq (snd (take_token clk 5 ip g)) else (too_many, snd (take_token clk 5 ip g)))"
  using take_token_window(1) [OF assms(1,2), of ip] assms(3,4)
  by (cases "take_token clk 5 ip g") (auto simp: withRateLimitRestore_def)

definition restore_req :: "string \<Rightarrow> 'b Request \<Rightarrow> bool" where
  "restore_req ip rq \<longleftrightarrow> has_prefix (rq_Path rq) ''/wallet/restore'' \<and> cleanPath (rq_Path rq) = rq_Path rq
     \<and> rq_Method rq \<noteq> ''OPTIONS'' \<and> clientIP rq = ip"

lemma restore_pattern:
  assumes "has_prefix p ''/wallet/restore''" "cleanPath p = p"
  shows "ServeMux main_patterns method p = Pattern ''/''"
proof -
  from assms(1) obtain t where p: "p = ''/wallet/restore'' @ t" by (auto simp: has_prefix_iff)
  have "filter (mux_matches p) main_patterns = [''/'']"
    by (simp add: main_patterns_def docs_patterns_def mux_matches_def p)
  then have "mux_best main_patterns p = Some ''/''" by (simp add: mux_best_def longer_def)
  moreover have "p @ ''/'' \<notin> set main_patterns" by (simp add: main_patterns_def docs_patterns_def p)
  ultimately show ?thesis using assms(2) by (simp add: ServeMux_def)
qed

lemma root_restore:
  assumes win: "\<forall>i j. clk j - clk i < 12000000000" and g: "last_read clk g" and rq: "restore_req ip rq"
    and out: "main_root clk env f rq g = (r, g')"
  shows "last_read clk g'"
    and "2 \<le> tokens ip g \<Longrightarrow> tokens ip g' = tokens ip g - 2 \<and> g_rest g' = snd (f rq (g_rest g))"
    and "tokens ip g \<le> 1 \<Longrightarrow> tokens ip g' \<le> 1 \<and> g_rest g' = g_rest g \<and> rs_status r = 429"
proof -
  define inner where "inner = withCORS (withRateLimitRestore clk (behind f) 5)"
  define g1 where "g1 = snd (take_token clk 5 ip g)"
  define g2 where "g2 = snd (take_token clk 5 ip g1)"
  note t1 = take_token_window [OF win g, of ip, folded g1_def]
  note t2 = take_token_window [OF win t1(3), of ip, folded g2_def]
  from rq have path: "has_prefix (rq_Path rq) ''/wallet/restore''" "cleanPath (rq_Path rq) = rq_Path rq"
    and m: "rq_Method rq \<noteq> ''OPTIONS''" and ip: "clientIP rq = ip" by (simp_all add: restore_req_def)
  have inner: "snd (inner rq g1) = (if 0 < tokens ip g1 then snd (behind f rq g2) else g2)"
    "\<not> 0 < tokens ip g1 \<Longrightarrow> rs_status (fst (inner rq g1)) = 429"
    by (simp_all add: inner_def withCORS_pass [OF m] limit_restore [OF win t1(3) path(1) ip] g2_def too_many_def)
  have root: "g' = (if 0 < tokens ip g then snd (inner rq g1) else g1)"
    "rs_status r = (if 0 < tokens ip g then rs_status (fst (inner rq g1)) else 429)"
    using arg_cong [OF out, of snd] arg_cong [OF out, of "\<lambda>x. rs_status (fst x)"]
    by (simp_all add: main_root_def inner_def [symmetric] withCORS_pass [OF m] limit_restore [OF win g path(1) ip]
        main_mux_def mux_route_def restore_pattern [OF path] g1_def too_many_def Let_def split: if_splits)
  show "last_read clk g'" using t1 t2 by (simp add: root inner)
  show "2 \<le> tokens ip g \<Longrightarrow> tokens ip g' = tokens ip g - 2 \<and> g_rest g' = snd (f rq (g_rest g))"
    using t1 t2 by (simp add: root inner)
  show "tokens ip g \<le> 1 \<Longrightarrow> tokens ip g' \<le> 1 \<and> g_rest g' = g_rest g \<and> rs_status r = 429"
    using t1 t2 inner by (auto simp: root)
qed

lemma serve_restore:
  assumes win: "\<forall>i j. clk j - clk i < 12000000000"
  shows "\<forall>rq \<in> set rqs. restore_req ip rq \<Longrightarrow> last_read clk g \<Longrightarrow> n = nat (tokens ip g) div 2 \<Longrightarrow>
    g_rest (snd (serve (main_root clk env f) rqs g)) = snd (serve f (take n rqs) (g_rest g))
    \<and> (\<forall>r \<in> set (drop n (fst (serve (main_root clk env f) rqs g))). rs_status r = 429)"
proof (induction rqs arbitrary: g n)
  case (Cons rq rqs)
  obtain r g' where out: "main_root clk env f rq g = (r, g')" by fastforce
  from Cons.prems(1) have rq: "restore_req ip rq" and rest: "\<forall>rq \<in> set rqs. restore_req ip rq" by simp_all
  note step = root_restore [OF win Cons.prems(2) rq out]
  note IH = Cons.IH [OF rest step(1) refl]
  show ?case
  proof (cases "2 \<le> tokens ip g")
    case True
    with step(2) have t: "tokens ip g' = tokens ip g - 2" and g': "g_rest g' = snd (f rq (g_rest g))" by simp_all
    from True t Cons.prems(3) have "n = Suc (nat (tokens ip g') div 2)" by (simp add: nat_diff_distrib)
    with IH show ?thesis by (simp add: out g' case_prod_beta Let_def)
  next
    case False
    with step(3) Cons.prems(3) have "tokens ip g' \<le> 1" "g_rest g' = g_rest g" "rs_status r = 429" "n = 0" by simp_all
    moreover from this(1) have "nat (tokens ip g') div 2 = 0" by simp
    ultimately show ?thesis using IH by (simp add: out case_prod_beta Let_def)
  qed
qed simp

text \<open>
  Property C20. The rate limit on \<open>/wallet/restore\<close> as \<open>main\<close> wires it: of the restore requests that
  one address sends, to clean paths, within twelve seconds of the first use of its bucket, exactly the first two reach
  the router and all others are answered 429. The limit is written as five per minute; the
  middleware is applied twice and takes two tokens for each request.
\<close>

theorem restore_burst:
  assumes "\<forall>i j. clk j - clk i < 12000000000" and "\<forall>rq \<in> set rqs. restore_req ip rq" and "g_rl g = []"
  shows "g_rest (snd (serve (main_root clk env f) rqs g)) = snd (serve f (take 2 rqs) (g_rest g))
    \<and> (\<forall>r \<in> set (drop 2 (fst (serve (main_root clk env f) rqs g))). rs_status r = 429)"
  using assms by (intro serve_restore) (simp_all add: last_read_def tokens_def)

definition restore_demo :: "unit Request" where
  "restore_demo = \<lparr>rq_Method = ''POST'', rq_Path = ''/wallet/restore'', rq_Header = (\<lambda>k. []), rq_Query = (\<lambda>k. []),
     rq_Remote = ''10.0.0.7:5000'', rq_Body = None\<rparr>"

definition count_router :: "(unit, nat) handler" where
  "count_router rq n = (status_only 200, n + 1)"

definition fresh_gate :: "nat Gate" where
  "fresh_gate = \<lparr>g_rl = [], g_reads = 0, g_rest = 0\<rparr>"

theorem restore_burst_witness:
  "g_rest (snd (serve (main_root (\<lambda>n. 1000) (docs_demo Map.empty) count_router) (replicate 5 restore_demo) fresh_gate)) = 2"
proof -
  have "cleanPath ''/wallet/restore'' = ''/wallet/restore''" by code_simp
  then have "restore_req (clientIP restore_demo) restore_demo"
    by (simp add: restore_req_def restore_demo_def)
  then show ?thesis
    using restore_burst [of "\<lambda>n. 1000" "replicate 5 restore_demo" "clientIP restore_demo" fresh_gate "docs_demo Map.empty"
        count_router]
    by (simp add: fresh_gate_def count_router_def numeral_2_eq_2)
qed

definition gate_reachable :: "(nat \<Rightarrow> nat) \<Rightarrow> 's Gate \<Rightarrow> bool" where
  "gate_reachable clk g \<longleftrightarrow> (\<exists>g0. g_rl g0 = [] \<and> (gate_step clk 5)\<^sup>*\<^sup>* g0 g)"

text \<open>
  Fact. A bucket never holds fewer than zero or more than five tokens, however requests
  interleave and whatever the clock reads.
\<close>

theorem bucket_bounds:
  assumes "gate_reachable clk g" "map_of (g_rl g) ip = Some b"
  shows "0 \<le> rb_tokens b \<and> rb_tokens b \<le> 5"
  using gate_sys.reachable_inv [of clk g] assms
  by (auto simp: gate_sys.reachable_def gate_reachable_def gate_ok_def)

theorem bucket_bounds_witness:
  "\<exists>b. map_of (g_rl (snd (take_token (\<lambda>n. 7) 5 ''10.0.0.7'' fresh_gate))) ''10.0.0.7'' = Some b
     \<and> 0 \<le> rb_tokens b \<and> rb_tokens b \<le> 5"
proof -
  let ?g = "snd (take_token (\<lambda>n. 7) 5 ''10.0.0.7'' fresh_gate)"
  have "gate_step (\<lambda>n. 7) 5 fresh_gate ?g" by (rule gate_step.token)
  then have "gate_reachable (\<lambda>n. 7) ?g"
    by (auto simp: gate_reachable_def fresh_gate_def intro!: exI [of _ fresh_gate])
  moreover obtain b where b: "map_of (g_rl ?g) ''10.0.0.7'' = Some b"
    by (simp add: take_token_eq Let_def update_conv')
  ultimately show ?thesis using bucket_bounds [of "\<lambda>n. 7" ?g "''10.0.0.7''" b] by simp
qed

abbreviation acao :: string where "acao \<equiv> ''Access-Control-Allow-Origin''"

definition silent :: "('b, 's) handler \<Rightarrow> bool" where
  "silent h \<longleftrightarrow> (\<forall>rq s. acao \<notin> fst ` set (rs_header (fst (h rq s))))"

definition cors_good :: "'b Request \<Rightarrow> Response \<Rightarrow> bool" where
  "cors_good rq r \<longleftrightarrow> (\<forall>v. (acao, v) \<in> set (rs_header r) \<longrightarrow> allowed (rq_Header rq ''Origin'') \<and> v = rq_Header rq ''Origin'')"

lemma set_fold_update: "set (fold (\<lambda>(k, v). AList.update k v) xs hs) \<subseteq> set xs \<union> set hs"
proof (induction xs arbitrary: hs)
  case (Cons x xs)
  have "set (AList.update k v al) \<subseteq> insert (k, v) (set al)" for k :: 'a and v :: 'b and al
    by (induction al) auto
  with Cons [of "AList.update (fst x) (snd x) hs"] show ?case by (cases x) force
qed simp

lemma keys_fold_update: "fst ` set hs \<subseteq> fst ` set (fold (\<lambda>(k, v). AList.update k v) xs hs)"
proof (induction xs arbitrary: hs)
  case (Cons x xs)
  have "fst ` set hs \<subseteq> fst ` set (AList.update (fst x) (snd x) hs)" by (auto simp: dom_update)
  with Cons [of "AList.update (fst x) (snd x) hs"] show ?case by (cases x) force
qed simp

lemma with_headers_cors:
  assumes "cors_good rq r" "allowed (rq_Header rq ''Origin'')"
  shows "(acao, v) \<in> set (rs_header (with_headers (cors_headers (rq_Header rq ''Origin'')) r)) \<longleftrightarrow> v = rq_Header rq ''Origin''"
proof -
  let ?hs = "cors_headers (rq_Header rq ''Origin'')"
  let ?out = "fold (\<lambda>(k, v). AList.update k v) (rs_header r) ?hs"
  have only: "w = rq_Header rq ''Origin''" if "(acao, w) \<in> set ?out" for w
    using that set_fold_update [of "rs_header r" ?hs] assms by (auto simp: cors_good_def cors_headers_def)
  have "acao \<in> fst ` set ?hs" by (simp add: cors_headers_def)
  with keys_fold_update [of ?hs "rs_header r"] have "acao \<in> fst ` set ?out" by blast
  then obtain p where p: "p \<in> set ?out" "fst p = acao" by (elim imageE) simp
  with only [of "snd p"] have "p = (acao, rq_Header rq ''Origin'')" by (cases p) simp
  with p have "(acao, rq_Header rq ''Origin'') \<in> set ?out" by simp
  then show ?thesis using only by (auto simp: with_headers_def)
qed

lemma withCORS_header:
  assumes "\<And>s. cors_good rq (fst (h rq s))"
  shows "(acao, v) \<in> set (rs_header (fst (withCORS h rq s))) \<longleftrightarrow>
    allowed (rq_Header rq ''Origin'') \<and> v = rq_Header rq ''Origin''"
proof (cases "allowed (rq_Header rq ''Origin'')")
  case True
  have "cors_good rq (status_only 204)" by (simp add: cors_good_def status_only_def)
  with True show ?thesis
    using with_headers_cors [OF _ True] assms [of s]
    by (auto simp: withCORS_def allowed_def case_prod_beta Let_def)
next
  case False
  with assms [of s] show ?thesis by (auto simp: withCORS_def cors_good_def status_only_def Let_def)
qed

lemma limit_good: "(\<And>s. cors_good rq (fst (h rq s))) \<Longrightarrow> cors_good rq (fst (withRateLimitRestore clk h rpm rq g))"
  by (auto simp: withRateLimitRestore_def cors_good_def too_many_def split: prod.split bool.split)

lemma behind_good: "silent f \<Longrightarrow> cors_good rq (fst (behind f rq g))"
  by (force simp: silent_def cors_good_def)

text \<open>The documentation routes set the header themselves.\<close>

definition docs_route :: "'b Request \<Rightarrow> bool" where
  "docs_route rq \<longleftrightarrow> (\<exists>p \<in> set docs_patterns. ServeMux main_patterns (rq_Method rq) (rq_Path rq) = Pattern p)"

lemma docs_not_restore:
  assumes "docs_route rq"
  shows "\<not> has_prefix (rq_Path rq) ''/wallet/restore''"
proof
  assume "has_prefix (rq_Path rq) ''/wallet/restore''"
  then obtain t where "rq_Path rq = ''/wallet/restore'' @ t" by (auto simp: has_prefix_iff)
  with assms show False by (auto simp: docs_route_def docs_patterns_def mux_matches_def dest!: ServeMux_pattern)
qed

lemma docs_header:
  "\<exists>ct. rs_header (RegisterDocsRoutes env p rq) \<in> {docs_head ct, allowCORS}"
  by (auto simp: RegisterDocsRoutes_def openapi_json_def openapi_part_def docsHTMLHandler_def docs_preflight_def
      docs_reply_def writeJSONError_def Let_def split: sum.split option.split)

lemma docs_star:
  assumes "rs_header r \<in> {docs_head ct, allowCORS}"
  shows "(acao, v) \<in> set (rs_header r) \<longleftrightarrow> v = ''*''"
    and "(acao, v) \<in> set (rs_header (with_headers (cors_headers o') r)) \<longleftrightarrow> v = ''*''"
  using assms by (auto simp: docs_head_def allowCORS_def with_headers_def cors_headers_def)

lemma main_mux_docs:
  assumes "docs_route rq"
  shows "\<exists>p. main_mux env h rq s = (RegisterDocsRoutes env p rq, s)"
  using assms by (auto simp: docs_route_def main_mux_def mux_route_def docs_patterns_def)

lemma main_mux_good:
  assumes "\<not> docs_route rq" "\<And>s. cors_good rq (fst (h rq s))"
  shows "cors_good rq (fst (main_mux env h rq s))"
proof (cases "ServeMux main_patterns (rq_Method rq) (rq_Path rq)")
  case (Pattern p)
  with ServeMux_pattern [OF Pattern] assms(1) have "p = ''/''" by (auto simp: docs_route_def main_patterns_def)
  with Pattern assms(2) show ?thesis by (simp add: main_mux_def mux_route_def)
qed (auto simp: main_mux_def mux_route_def redirect_to_def http_NotFound_def http_error_def cors_good_def)

lemma root_docs_header:
  assumes "docs_route rq" "rq_Method rq \<noteq> ''OPTIONS''"
  shows "(acao, v) \<in> set (rs_header (fst (main_root clk env router rq g))) \<longleftrightarrow> v = ''*''"
proof -
  define inner where "inner = withCORS (withRateLimitRestore clk (behind router) 5)"
  obtain p where "main_mux env inner rq g = (RegisterDocsRoutes env p rq, g)"
    using main_mux_docs [OF assms(1), of env inner g] by blast
  moreover obtain ct where "rs_header (RegisterDocsRoutes env p rq) \<in> {docs_head ct, allowCORS}"
    using docs_header by blast
  ultimately show ?thesis using docs_not_restore [OF assms(1)] assms(2)
    by (simp add: main_root_def inner_def [symmetric] withCORS_def [of "withRateLimitRestore clk (main_mux env inner) 5"]
        withRateLimitRestore_def docs_star Let_def)
qed

lemma root_router_header:
  assumes "silent router" "\<not> docs_route rq"
  shows "(acao, v) \<in> set (rs_header (fst (main_root clk env router rq g))) \<longleftrightarrow>
    allowed (rq_Header rq ''Origin'') \<and> v = rq_Header rq ''Origin''"
proof -
  define inner where "inner = withCORS (withRateLimitRestore clk (behind router) 5)"
  have "cors_good rq (fst (inner rq s))" for s
    unfolding inner_def cors_good_def withCORS_header [OF limit_good [OF behind_good [OF assms(1)]]] by blast
  then have "cors_good rq (fst (withRateLimitRestore clk (main_mux env inner) 5 rq s))" for s
    by (intro limit_good main_mux_good [OF assms(2)])
  from withCORS_header [of rq "withRateLimitRestore clk (main_mux env inner) 5" v g, OF this] show ?thesis by (simp add: main_root_def inner_def)
qed

lemma root_preflight:
  assumes "rq_Method rq = ''OPTIONS''"
  shows "main_root clk env router rq g = withCORS (\<lambda>rq s. (status_only 204, s)) rq g"
  using assms by (simp add: main_root_def withCORS_def Let_def)

lemma preflight_header:
  "(acao, v) \<in> set (rs_header (fst (withCORS (\<lambda>rq s. (status_only 204, s)) rq g))) \<longleftrightarrow>
    allowed (rq_Header rq ''Origin'') \<and> v = rq_Header rq ''Origin''"
  by (rule withCORS_header) (simp add: cors_good_def status_only_def)

text \<open>
  Property C38. Who may read answers across origins: outside the documentation routes, whatever the
  router answers as long as it does not set the header itself, the served response carries
  \<open>Access-Control-Allow-Origin\<close> exactly when the request's origin is the listed one, with that origin as
  its value; on the documentation routes every origin is let in. A preflight request is answered
  204 without touching any state.
\<close>

theorem cors_gate:
  assumes "silent router"
  shows "((acao, v) \<in> set (rs_header (fst (main_root clk env router rq g))) \<longleftrightarrow>
      (if docs_route rq \<and> rq_Method rq \<noteq> ''OPTIONS'' then v = ''*''
       else allowed (rq_Header rq ''Origin'') \<and> v = rq_Header rq ''Origin''))
    \<and> (rq_Method rq = ''OPTIONS'' \<longrightarrow> rs_status (fst (main_root clk env router rq g)) = 204
        \<and> snd (main_root clk env router rq g) = g)"
proof (cases "rq_Method rq = ''OPTIONS''")
  case True
  then have "rs_status (fst (withCORS (\<lambda>rq s. (status_only 204, s)) rq g)) = 204"
    "snd (withCORS (\<lambda>rq s. (status_only 204, s)) rq g) = g"
    by (simp_all add: withCORS_def with_headers_def status_only_def Let_def)
  with True show ?thesis by (simp add: root_preflight [OF True] preflight_header)
qed (cases "docs_route rq"; simp add: root_docs_header root_router_header assms)

theorem cors_gate_witness:
  "(acao, ''http://localhost:5174'') \<in> set (rs_header (fst (main_root (\<lambda>n. 7) (docs_demo Map.empty) count_router
     (restore_demo\<lparr>rq_Header := (\<lambda>k. ''http://localhost:5174'')\<rparr>) fresh_gate)))
   \<and> (acao, ''*'') \<in> set (rs_header (fst (main_root (\<lambda>n. 7) (docs_demo Map.empty) count_router (docs_get ''/docs'') fresh_gate)))"
proof -
  have quiet: "silent count_router" by (simp add: silent_def count_router_def status_only_def)
  let ?rq = "restore_demo\<lparr>rq_Header := (\<lambda>k. ''http://localhost:5174'')\<rparr>"
  have "ServeMux main_patterns ''GET'' ''/docs'' = Pattern ''/docs''" by code_simp
  then have "docs_route (docs_get ''/docs'')" "\<not> docs_route ?rq"
    using docs_not_restore [of ?rq] by (auto simp: docs_route_def docs_patterns_def docs_get_def restore_demo_def)
  then show ?thesis
    using cors_gate [OF quiet, of "''http://localhost:5174''" "\<lambda>n. 7" "docs_demo Map.empty" ?rq fresh_gate]
      cors_gate [OF quiet, of "''*''" "\<lambda>n. 7" "docs_demo Map.empty" "docs_get ''/docs''" fresh_gate]
    by (simp add: allowed_def docs_get_def)
qed

text \<open>
  Property C19. A node that starts in production gives nothing away: if \<open>main\<close> does not refuse to
  start and either \<open>THOMAS_ENV\<close> or the release tag says \<open>prod\<close>, then a request to pay that an
  approval closes has been paid by a transfer of the asked amount from payer to payee, applied to
  the accounts, from loopback addresses too.
\<close>

theorem production_approvals_pay:
  assumes "main_refuses (c_getenv c) releaseBuild = None"
    and "c_getenv c ''THOMAS_ENV'' = ''prod'' \<or> releaseBuild = ''prod''"
    and "r2pApprove c loopback now later rq rt = (resp, rt')"
    and "map_of (rt_store rt) i = Some rec" "r_Status rec = ''open''"
    and "map_of (rt_store rt') i = Some rec'" "r_Status rec' \<noteq> ''open''"
  shows "\<exists>t. tr_From t = r_To rec \<and> tr_To t = r_From rec \<and> tr_AmountMas t = r_AmountMas rec
    \<and> apply_db t (snd (eng_GetAccount (r_To rec) (rt_eng rt))) = (Inr (), e_db (rt_eng rt'))"
proof -
  have "\<not> devFreeR2PEnabled c loopback rq"
    using assms(1,2) by (auto simp: main_refuses_def devFreeR2PEnabled_def split: if_splits)
  from approve_settles [OF assms(3) this assms(4-7)] show ?thesis by blast
qed

theorem production_approvals_pay_witness:
  "\<exists>t. tr_AmountMas t = 30 \<and> fst (apply_db t (snd (eng_GetAccount ''tho1alice'' (rt_eng demo_rt)))) = Inr ()"
proof -
  obtain resp rt' where run: "r2pApprove demo_cfg (\<lambda>a. False) 9 10 demo_rq demo_rt = (resp, rt')" by fastforce
  have "map_of (rt_store demo_rt) ''a1'' = Some demo_rec" "r_Status demo_rec = ''open''"
    "main_refuses (c_getenv demo_cfg) ''prod'' = None"
    by (simp_all add: demo_rt_def demo_rec_def demo_cfg_def main_refuses_def)
  from production_approvals_pay [OF this(3) _ run this(1,2)] demo_approve run show ?thesis
    by (auto simp: demo_rec_def paid_def)
qed

end
