(* ===== verification/Wallet.thy ===== *)
theory Wallet
  imports Eternity_Json
begin

text \<open>
  Keys: \<open>internal/crypto/keys.go\<close> (the node's key file), \<open>internal/crypto/recovery.go\<close> and the wallet
  handlers of \<open>router.go\<close> (mnemonics), and \<open>internal/rpc/binding_config.go\<close> (public keys by sender).
  Ed25519, BIP-39 and HKDF are parameters. Paths are Unix paths.
\<close>

section \<open>keys.go\<close>

text \<open>The primitives, the process variables and the file system as the code sees them.\<close>

record KeyEnv =
  k_public :: "bytes \<Rightarrow> bytes"            \<comment> \<open>\<open>priv.Public()\<close>\<close>
  k_fromSeed :: "bytes \<Rightarrow> bytes"          \<comment> \<open>\<open>ed25519.NewKeyFromSeed\<close>\<close>
  k_getenv :: "string \<Rightarrow> string"
  k_isDir :: "string \<Rightarrow> bool"
  k_mkdir :: "string \<Rightarrow> bool"             \<comment> \<open>\<open>os.MkdirAll\<close> succeeds\<close>
  k_write :: "string \<Rightarrow> bool"             \<comment> \<open>\<open>os.WriteFile\<close> succeeds\<close>

type_synonym disk = "(string, bytes) gomap"

definition FromPrivHex :: "KeyEnv \<Rightarrow> string \<Rightarrow> (bytes \<times> bytes) result" where
  "FromPrivHex k hexStr =
     (case hex_decode (trim_space hexStr) of
        None \<Rightarrow> Inl ''encoding/hex''
      | Some b \<Rightarrow>
          if length b = 64 then Inr (k_public k b, b)
          else if length b = 32 then Inr (k_public k (k_fromSeed k b), k_fromSeed k b)
          else Inl ''bad private key length'')"

definition defaultKeyPath :: "KeyEnv \<Rightarrow> string list \<Rightarrow> string" where
  "defaultKeyPath k args =
     (if args \<noteq> [] \<and> hd args \<noteq> [] then
        (let a0 = hd args
         in if k_isDir k a0 \<or> has_suffix a0 ''/'' \<or> has_suffix a0 [CHR 0x5C]
            then Join a0 ''node.key'' else a0)
      else
        let dd = trim_space (k_getenv k ''THOMAS_DATA_DIR'')
        in if dd \<noteq> [] then Join dd ''node.key'' else ''node.key'')"

text \<open>\<open>generated\<close> is the result of \<open>ed25519.GenerateKey\<close>.\<close>

definition LoadOrCreate ::
  "KeyEnv \<Rightarrow> (bytes \<times> bytes) result \<Rightarrow> string list \<Rightarrow> disk \<Rightarrow> (bytes \<times> bytes) result \<times> disk" where
  "LoadOrCreate k generated args d =
     (let keyPath = defaultKeyPath k args
      in case map_of d keyPath of
           Some b \<Rightarrow> (FromPrivHex k (trim_space (map (\<lambda>x. char_of (unat x)) b)), d)
         | None \<Rightarrow> (case generated of
             Inl e \<Rightarrow> (Inl e, d)
           | Inr (pub, priv) \<Rightarrow>
               let dir = Dir keyPath
               in if dir \<noteq> [] \<and> dir \<noteq> ''.'' \<and> \<not> k_mkdir k dir then (Inl ''mkdir'', d)
                  else if \<not> k_write k keyPath then (Inl ''write'', d)
                  else (Inr (pub, priv), AList.update keyPath (bytes_of (hex_encode priv @ [CHR 0x0A])) d)))"

section \<open>recovery.go\<close>

record RecoveryBundle =
  rv_Mnemonic :: string
  rv_Fingerprint :: string
  rv_PubKeyHex :: string
  rv_priv :: bytes

text \<open>BIP-39 and HKDF-SHA256; the entropy source and \<open>NewMnemonic\<close> together give \<open>w_mnemonic\<close>.\<close>

record WalletEnv =
  w_mnemonic :: "string result"
  w_newSeed :: "string \<Rightarrow> string \<Rightarrow> bytes"
  w_hkdf :: "bytes \<Rightarrow> bytes \<Rightarrow> bytes \<Rightarrow> bytes result"   \<comment> \<open>seed, salt, info; 32 bytes\<close>
  w_fromSeed :: "bytes \<Rightarrow> bytes"
  w_public :: "bytes \<Rightarrow> bytes"
  w_sha :: "bytes \<Rightarrow> bytes"

definition hkdfSalt :: string where "hkdfSalt = ''THO-WALLET-v1''"
definition hkdfInfoMaster :: string where "hkdfInfoMaster = ''ed25519-master''"

definition DeriveFromMnemonic :: "WalletEnv \<Rightarrow> string \<Rightarrow> string \<Rightarrow> (bytes \<times> bytes) result" where
  "DeriveFromMnemonic w mnemonic passphrase =
     (case w_hkdf w (w_newSeed w mnemonic passphrase) (bytes_of hkdfSalt) (bytes_of hkdfInfoMaster) of
        Inl e \<Rightarrow> Inl e
      | Inr keySeed \<Rightarrow> let priv = w_fromSeed w keySeed in Inr (w_public w priv, priv))"

definition NewRecoveryBundle :: "WalletEnv \<Rightarrow> string \<Rightarrow> RecoveryBundle result" where
  "NewRecoveryBundle w passphrase =
     (case w_mnemonic w of
        Inl e \<Rightarrow> Inl e
      | Inr mnemonic \<Rightarrow> (case DeriveFromMnemonic w mnemonic passphrase of
          Inl e \<Rightarrow> Inl e
        | Inr (pub, priv) \<Rightarrow>
            let fp = w_sha w (bytes_of (trim_space mnemonic))
            in Inr \<lparr>rv_Mnemonic = mnemonic, rv_Fingerprint = hex_encode (take 4 fp),
                 rv_PubKeyHex = hex_encode pub, rv_priv = priv\<rparr>))"

section \<open>Wallet handlers\<close>

definition setSensitiveNoStoreHeaders :: "(string \<times> string) list" where
  "setSensitiveNoStoreHeaders = [(''Cache-Control'', ''no-store''), (''Pragma'', ''no-cache''),
     (''Referrer-Policy'', ''no-referrer''), (''Content-Type'', ''application/json; charset=utf-8'')]"

fun hexLower :: "bytes \<Rightarrow> string" where
  "hexLower [] = []"
| "hexLower (v # vs) =
     ''0123456789abcdef'' ! unat (drop_bit 4 v) # ''0123456789abcdef'' ! unat (and v 15) # hexLower vs"

record walletBody =
  wb_Mnemonic :: string
  wb_Passphrase :: string

definition sensitive :: "nat \<Rightarrow> Response" where
  "sensitive st = \<lparr>rs_status = st, rs_header = setSensitiveNoStoreHeaders, rs_body = None\<rparr>"

text \<open>A body that does not parse leaves the fields empty.\<close>

definition walletCreateHandler :: "WalletEnv \<Rightarrow> walletBody Request \<Rightarrow> Response" where
  "walletCreateHandler w rq =
     (if rq_Method rq = ''OPTIONS'' then sensitive 204
      else if rq_Method rq \<noteq> ''POST'' then sensitive 405
      else
        let passphrase = (case rq_Body rq of Some b \<Rightarrow> wb_Passphrase b | None \<Rightarrow> [])
        in case NewRecoveryBundle w (trim_space passphrase) of
             Inl _ \<Rightarrow> reply 500 setSensitiveNoStoreHeaders [(''ok'', JBool False), (''error'', JStr ''gen_failed'')]
           | Inr b \<Rightarrow> reply 200 setSensitiveNoStoreHeaders
               [(''ok'', JBool True), (''algo'', JStr ''ed25519''), (''pubkey_hex'', JStr (rv_PubKeyHex b)),
                (''recovery'', JObj [(''mnemonic'', JStr (rv_Mnemonic b)), (''fingerprint'', JStr (rv_Fingerprint b)),
                   (''passphrase_used'', JBool (passphrase \<noteq> []))]),
                (''note'', JStr ''Store this mnemonic offline. It will not be shown again.'')])"

definition walletRestoreHandler :: "WalletEnv \<Rightarrow> walletBody Request \<Rightarrow> Response" where
  "walletRestoreHandler w rq =
     (if rq_Method rq = ''OPTIONS'' then sensitive 204
      else if rq_Method rq \<noteq> ''POST'' then sensitive 405
      else case rq_Body rq of
        None \<Rightarrow> reply 400 setSensitiveNoStoreHeaders [(''ok'', JBool False), (''error'', JStr ''bad_json'')]
      | Some b \<Rightarrow>
          if trim_space (wb_Mnemonic b) = []
          then reply 400 setSensitiveNoStoreHeaders [(''ok'', JBool False), (''error'', JStr ''bad_json'')]
          else case DeriveFromMnemonic w (trim_space (wb_Mnemonic b)) (trim_space (wb_Passphrase b)) of
            Inl _ \<Rightarrow> reply 400 setSensitiveNoStoreHeaders [(''ok'', JBool False), (''error'', JStr ''derive_failed'')]
          | Inr (pub, _) \<Rightarrow> reply 200 setSensitiveNoStoreHeaders
              [(''ok'', JBool True), (''algo'', JStr ''ed25519''), (''pubkey_hex'', JStr (hexLower pub))])"

section \<open>binding\_config.go\<close>

text \<open>
  \<open>parsed\<close> is the file as JSON, \<open>None\<close> when it is missing or does not parse. A member of the wrong
  type makes the second form, an object of strings, fail as a whole; a null there is an empty string.
\<close>

definition strings_only :: "(string \<times> json) list \<Rightarrow> (string \<times> string) list option" where
  "strings_only kvs = those (map (\<lambda>(k, v). case v of JStr s \<Rightarrow> Some (k, trim_space s) | JNull \<Rightarrow> Some (k, []) | _ \<Rightarrow> None) kvs)"

definition loadBindingConfig :: "(string \<Rightarrow> string) \<Rightarrow> (string \<Rightarrow> json option) \<Rightarrow> (string, string) gomap" where
  "loadBindingConfig getenv file =
     (let path = trim_space (getenv ''THOMAS_BIND_CONFIG'')
      in if path = [] then []
         else case file path of
           Some (JObj kvs) \<Rightarrow>
             (case map_of kvs ''pubkey_by_from'' of
                Some (JObj inner) \<Rightarrow>
                  List.map_filter (\<lambda>(k, v). case v of JStr s \<Rightarrow> Some (k, trim_space s) | _ \<Rightarrow> None) inner
              | _ \<Rightarrow> (case strings_only kvs of Some m \<Rightarrow> m | None \<Rightarrow> []))
         | _ \<Rightarrow> [])"

definition lookupPubForFrom ::
  "(string \<Rightarrow> string) \<Rightarrow> (string \<Rightarrow> json option) \<Rightarrow> string \<Rightarrow> string option" where
  "lookupPubForFrom getenv file who =
     (let cfg = loadBindingConfig getenv file;
          fromEnv = trim_space (getenv (''THOMAS_PUBKEY_'' @ who))
      in if who = [] then None
         else case map_of cfg who of
           Some v \<Rightarrow> if trim_space v \<noteq> [] then Some (trim_space v)
                     else if fromEnv \<noteq> [] then Some fromEnv else None
         | None \<Rightarrow> if fromEnv \<noteq> [] then Some fromEnv else None)"

section \<open>Properties\<close>

lemma hexLower_hex_encode: "hexLower bs = hex_encode bs"
proof (induction bs)
  case (Cons b bs)
  have digit: "''0123456789abcdef'' ! n = hex_char n" if "n < 16" for n
  proof -
    have "list_all (\<lambda>n. ''0123456789abcdef'' ! n = hex_char n) [0..<16]" by code_simp
    with that show ?thesis by (simp add: list_all_iff)
  qed
  have "unat (drop_bit 4 b) = unat b div 16" by (simp add: drop_bit_eq_div unat_div)
  moreover have "and b 15 = take_bit 4 b" by (simp add: take_bit_eq_mask mask_eq_exp_minus_1)
  then have "unat (and b 15) = unat b mod 16" by (simp add: take_bit_eq_mod unat_mod)
  ultimately show ?case using Cons digit unat_byte_lt [of b] by simp
qed simp

lemma hex_char_no_space: "n < 16 \<Longrightarrow> \<not> is_space (hex_char n)"
proof -
  have "list_all (\<lambda>n. \<not> is_space (hex_char n)) [0..<16]" by code_simp
  then show "n < 16 \<Longrightarrow> ?thesis" by (simp add: list_all_iff)
qed

lemma hex_encode_no_space: "c \<in> set (hex_encode bs) \<Longrightarrow> \<not> is_space c"
proof (induction bs)
  case (Cons b bs)
  then show ?case using hex_char_no_space unat_byte_lt [of b] by auto
qed simp

lemma drop_spaces_id: "(\<And>c. c \<in> set s \<Longrightarrow> \<not> is_space c) \<Longrightarrow> dropWhile is_space s = s"
  by (cases s) auto

lemma trim_space_id: "(\<And>c. c \<in> set s \<Longrightarrow> \<not> is_space c) \<Longrightarrow> trim_space s = s"
  using drop_spaces_id [of s] drop_spaces_id [of "rev s"] by (simp add: trim_space_def)

lemma trim_hex_line: "trim_space (hex_encode bs @ [CHR 0x0A]) = hex_encode bs"
proof (cases bs)
  case Nil
  then show ?thesis by (simp add: trim_space_def is_space_def)
next
  case (Cons b bs')
  then have ne: "hex_encode bs \<noteq> []" by simp
  then have "\<not> is_space (hd (hex_encode bs))" using hex_encode_no_space [of "hd (hex_encode bs)" bs] by simp
  then have "dropWhile is_space (hex_encode bs @ [CHR 0x0A]) = hex_encode bs @ [CHR 0x0A]"
    using ne by (cases "hex_encode bs") simp_all
  moreover have "is_space (CHR 0x0A)" by (simp add: is_space_def)
  ultimately show ?thesis
    using drop_spaces_id [of "rev (hex_encode bs)"] hex_encode_no_space by (simp add: trim_space_def)
qed

lemma FromPrivHex_file:
  assumes "length priv = 64"
  shows "FromPrivHex k (trim_space (map (\<lambda>x. char_of (unat x)) (bytes_of (hex_encode priv @ [CHR 0x0A])))) = Inr (k_public k priv, priv)"
proof -
  have "trim_space (hex_encode priv) = hex_encode priv" by (rule trim_space_id) (rule hex_encode_no_space)
  then show ?thesis using assms unfolding char_of_byte_of trim_hex_line FromPrivHex_def by simp
qed

text \<open>
  Property C26. The node keeps its identity: when the first start finds no key file and saves the
  generated pair, every later start on that disk loads the same pair, writes nothing, and the
  engine signs with it, whatever a fresh generation would give.
\<close>

theorem node_key_survives:
  assumes "map_of d (defaultKeyPath k args) = None" and "LoadOrCreate k (Inr (pub, priv)) args d = (Inr (pub, priv), d')"
    and "length priv = 64" "length pub = 32" "pub = k_public k priv"
  shows "LoadOrCreate k generated args d' = (Inr (pub, priv), d') \<and> choose_key (Some (pub, priv)) fresh = (pub, priv)"
proof -
  have "map_of d' (defaultKeyPath k args) = Some (bytes_of (hex_encode priv @ [CHR 0x0A]))"
    using assms(1,2) by (auto simp: LoadOrCreate_def Let_def update_conv' split: if_splits)
  then have "LoadOrCreate k generated args d' = (Inr (pub, priv), d')"
    using FromPrivHex_file [OF assms(3), of k] assms(5) by (simp add: LoadOrCreate_def Let_def)
  with assms(3,4) show ?thesis by (simp add: choose_key_def)
qed

definition demo_keys :: KeyEnv where
  "demo_keys = \<lparr>k_public = drop 32, k_fromSeed = (\<lambda>s. s @ s), k_getenv = (\<lambda>v. []), k_isDir = (\<lambda>p. False),
     k_mkdir = (\<lambda>p. True), k_write = (\<lambda>p. True)\<rparr>"

theorem node_key_survives_witness:
  "\<exists>d'. LoadOrCreate demo_keys (Inr (replicate 32 2, replicate 64 2)) [''data/node.key''] [] = (Inr (replicate 32 2, replicate 64 2), d')
     \<and> LoadOrCreate demo_keys (Inl ''entropy'') [''data/node.key''] d' = (Inr (replicate 32 2, replicate 64 2), d')"
proof -
  obtain d' where run: "LoadOrCreate demo_keys (Inr (replicate 32 2, replicate 64 2)) [''data/node.key''] []
      = (Inr (replicate 32 2, replicate 64 2), d')"
    by (simp add: LoadOrCreate_def demo_keys_def Let_def)
  have pub: "replicate 32 2 = k_public demo_keys (replicate 64 2)" by (simp add: demo_keys_def)
  have "LoadOrCreate demo_keys (Inl ''entropy'') [''data/node.key''] d' = (Inr (replicate 32 2, replicate 64 2), d')"
    by (rule conjunct1 [OF node_key_survives [OF _ run _ _ pub]]) (simp_all only: map_of.simps length_replicate)
  with run show ?thesis by blast
qed

text \<open>
  Property C27. A created wallet can be restored: the answer to a successful creation shows a
  mnemonic and a public key, and every restore request that sends the shown mnemonic with the
  passphrase of the creation, with any surrounding white space, is answered with the shown public
  key. Of BIP-39 it is used that a new mnemonic is not empty and has no surrounding space.
\<close>

theorem wallet_roundtrip:
  assumes "\<forall>words. w_mnemonic w = Inr words \<longrightarrow> words \<noteq> [] \<and> trim_space words = words"
    and "rq_Method create = ''POST''" "rq_Body create = Some b" "rs_status (walletCreateHandler w create) = 200"
  shows "\<exists>j rv m key. rs_body (walletCreateHandler w create) = Some j
    \<and> jget ''recovery'' j = Some rv \<and> jget ''mnemonic'' rv = Some (JStr m) \<and> jget ''pubkey_hex'' j = Some (JStr key)
    \<and> (\<forall>restore b2. rq_Method restore = ''POST'' \<and> rq_Body restore = Some b2 \<and> trim_space (wb_Mnemonic b2) = m
          \<and> trim_space (wb_Passphrase b2) = trim_space (wb_Passphrase b) \<longrightarrow>
        rs_status (walletRestoreHandler w restore) = 200
        \<and> (\<exists>j2. rs_body (walletRestoreHandler w restore) = Some j2 \<and> jget ''pubkey_hex'' j2 = Some (JStr key)))"
proof -
  from assms(2-4) obtain words pub priv where words: "w_mnemonic w = Inr words"
    and derive: "DeriveFromMnemonic w words (trim_space (wb_Passphrase b)) = Inr (pub, priv)"
    by (auto simp: walletCreateHandler_def NewRecoveryBundle_def reply_def Let_def split: sum.splits)
  with assms(1) have ne: "words \<noteq> []" by blast
  have "\<exists>j rv. rs_body (walletCreateHandler w create) = Some j \<and> jget ''recovery'' j = Some rv
      \<and> jget ''mnemonic'' rv = Some (JStr words) \<and> jget ''pubkey_hex'' j = Some (JStr (hex_encode pub))"
    using assms(2,3) words derive by (simp add: walletCreateHandler_def NewRecoveryBundle_def reply_def jget_def Let_def)
  moreover have "walletRestoreHandler w restore = reply 200 setSensitiveNoStoreHeaders
      [(''ok'', JBool True), (''algo'', JStr ''ed25519''), (''pubkey_hex'', JStr (hex_encode pub))]"
    if "rq_Method restore = ''POST''" "rq_Body restore = Some b2" "trim_space (wb_Mnemonic b2) = words"
      "trim_space (wb_Passphrase b2) = trim_space (wb_Passphrase b)" for restore b2
    using that ne derive by (simp add: walletRestoreHandler_def hexLower_hex_encode)
  ultimately show ?thesis by (fastforce simp: reply_def jget_def)
qed

definition demo_wallet :: WalletEnv where
  "demo_wallet = \<lparr>w_mnemonic = Inr ''legal winner'', w_newSeed = (\<lambda>m p. bytes_of (m @ p)),
     w_hkdf = (\<lambda>seed salt info. Inr (take 32 (salt @ seed))), w_fromSeed = (\<lambda>s. s @ s), w_public = take 32, w_sha = toy_hash\<rparr>"

definition wallet_req :: "string \<Rightarrow> string \<Rightarrow> walletBody Request" where
  "wallet_req m p = \<lparr>rq_Method = ''POST'', rq_Path = ''/wallet'', rq_Header = (\<lambda>k. []), rq_Query = (\<lambda>k. []),
     rq_Remote = [], rq_Body = Some \<lparr>wb_Mnemonic = m, wb_Passphrase = p\<rparr>\<rparr>"

theorem wallet_roundtrip_witness:
  "\<exists>j rv m key j2. rs_body (walletCreateHandler demo_wallet (wallet_req [] ''pw'')) = Some j
    \<and> jget ''recovery'' j = Some rv \<and> jget ''mnemonic'' rv = Some (JStr m) \<and> m = ''legal winner''
    \<and> jget ''pubkey_hex'' j = Some (JStr key)
    \<and> rs_body (walletRestoreHandler demo_wallet (wallet_req (m @ '' '') '' pw'')) = Some j2 \<and> jget ''pubkey_hex'' j2 = Some (JStr key)"
proof -
  have trims: "trim_space ''legal winner '' = ''legal winner''" "trim_space ''legal winner'' = ''legal winner''"
    "trim_space '' pw'' = trim_space ''pw''" by code_simp+
  have create: "rs_status (walletCreateHandler demo_wallet (wallet_req [] ''pw'')) = 200"
    by (simp add: walletCreateHandler_def demo_wallet_def wallet_req_def NewRecoveryBundle_def DeriveFromMnemonic_def reply_def Let_def)
  have words: "\<forall>words. w_mnemonic demo_wallet = Inr words \<longrightarrow> words \<noteq> [] \<and> trim_space words = words"
    by (simp add: demo_wallet_def trims)
  from wallet_roundtrip [OF words _ _ create, of "\<lparr>wb_Mnemonic = [], wb_Passphrase = ''pw''\<rparr>"]
  obtain j rv m key where j: "rs_body (walletCreateHandler demo_wallet (wallet_req [] ''pw'')) = Some j"
    "jget ''recovery'' j = Some rv" "jget ''mnemonic'' rv = Some (JStr m)" "jget ''pubkey_hex'' j = Some (JStr key)"
    and restore: "\<And>restore b2. rq_Method restore = ''POST'' \<Longrightarrow> rq_Body restore = Some b2 \<Longrightarrow> trim_space (wb_Mnemonic b2) = m
      \<Longrightarrow> trim_space (wb_Passphrase b2) = trim_space ''pw'' \<Longrightarrow>
      \<exists>j2. rs_body (walletRestoreHandler demo_wallet restore) = Some j2 \<and> jget ''pubkey_hex'' j2 = Some (JStr key)"
    by (auto simp: wallet_req_def)
  from j(1-3) have m: "m = ''legal winner''"
    by (auto simp: walletCreateHandler_def demo_wallet_def wallet_req_def NewRecoveryBundle_def DeriveFromMnemonic_def
        reply_def jget_def Let_def)
  from restore [of "wallet_req (m @ '' '') '' pw''" "\<lparr>wb_Mnemonic = m @ '' '', wb_Passphrase = '' pw''\<rparr>"] j m trims
  show ?thesis by (auto simp: wallet_req_def)
qed

end
