(* ===== verification/Diagnostics.thy ===== *)
theory Diagnostics
  imports Router_Queries
begin

text \<open>
  The endpoints of \<open>router.go\<close> and \<open>router_diag.go\<close> that report on the process: health, echo, stack,
  event stream, system statistics, metrics, version and published variables. What the Go runtime
  says about the process is a record; \<open>ts\<close> is the time of a request as RFC 3339 text. Text written as it is appears as a string.
\<close>

record Process =
  p_uptime :: i64        \<comment> \<open>seconds since the start\<close>
  p_goroutines :: nat
  p_alloc :: u64         \<comment> \<open>\<open>MemStats.Alloc\<close>\<close>
  p_cmdline :: json      \<comment> \<open>two variables that package \<open>expvar\<close> publishes\<close>
  p_memstats :: json

record BuildInfo =
  bi_Version :: string
  bi_Commit :: string
  bi_Date :: string
  bi_Go :: string
  bi_OS :: string
  bi_Arch :: string

definition text_reply :: "(string \<times> string) list \<Rightarrow> string \<Rightarrow> Response" where
  "text_reply hs s = \<lparr>rs_status = 200, rs_header = hs, rs_body = Some (JStr s)\<rparr>"

definition healthHandler :: "string \<Rightarrow> Response" where
  "healthHandler ts = reply 200 ctJSON [(''status'', JStr ''ok''), (''time_utc'', JStr ts)]"

definition debugEcho :: "bytes Request \<Rightarrow> Response" where
  "debugEcho rq = text_reply [(''Content-Type'', ''application/octet-stream'')]
     (case rq_Body rq of Some b \<Rightarrow> map (\<lambda>x. char_of (unat x)) b | None \<Rightarrow> [])"

text \<open>The profile is a stub that writes nothing.\<close>

definition debugStack :: "'b Request \<Rightarrow> Response" where
  "debugStack rq = get_only rq (text_reply [(''Content-Type'', ''text/plain; charset=utf-8'')] [])"

text \<open>
  The stream needs a writer that can flush. \<open>jsonizeSigErrors\<close> gives every handler behind it a
  \<open>bufferingWriter\<close>, which has the methods \<open>Header\<close>, \<open>Write\<close> and \<open>WriteHeader\<close> only.
\<close>

definition bufferingWriter_methods :: "string list" where
  "bufferingWriter_methods = [''Header'', ''Write'', ''WriteHeader'']"

definition event_frame :: "bytes \<Rightarrow> bytes" where
  "event_frame msg = bytes_of (''event: push'' @ [CHR 0x0A] @ ''data: '') @ msg @ bytes_of [CHR 0x0A, CHR 0x0A]"

definition eventsStream :: "string list \<Rightarrow> 'b Request \<Rightarrow> Engine \<Rightarrow> Response \<times> Engine" where
  "eventsStream writer rq e =
     (if rq_Method rq \<noteq> ''GET'' then (status_only 405, e)
      else if ''Flush'' \<notin> set writer then (status_only 500, e)
      else (text_reply [(''Content-Type'', ''text/event-stream''), (''Cache-Control'', ''no-cache''),
              (''Connection'', ''keep-alive'')] [], e\<lparr>e_hub := snd (SubscribeForSSE (e_hub e))\<rparr>))"

definition statsSys :: "string \<Rightarrow> Process \<Rightarrow> 'b Request \<Rightarrow> Router \<Rightarrow> Response" where
  "statsSys ts p rq rt = get_only rq (reply 200 ctJSON
     [(''height'', ju64 (CurrentHeight (rt_eng rt))), (''receipts_count'', JNum (int (ReceiptCount (rt_eng rt)))),
      (''time_utc'', JStr ts), (''uptime_secs'', ji64 (p_uptime p)), (''goroutines'', JNum (int (p_goroutines p))),
      (''mem_alloc_kb'', ji64 (p_alloc p div 1024))])"

definition metric :: "string \<Rightarrow> string \<Rightarrow> string \<Rightarrow> string" where
  "metric name kind val = ''# TYPE '' @ name @ '' '' @ kind @ [CHR 0x0A] @ name @ '' '' @ val @ [CHR 0x0A]"

text \<open>A gauge read from a reflected method; the engine has none of those that are tried.\<close>

definition engine_gauge :: "string list \<Rightarrow> Engine \<Rightarrow> int" where
  "engine_gauge names e = (case first_method names ([] :: (string \<times> (Engine \<Rightarrow> int)) list) of
     Some m \<Rightarrow> m e | None \<Rightarrow> - 1)"

definition gauge_lines :: "string \<Rightarrow> int \<Rightarrow> string" where
  "gauge_lines name v = (if 0 \<le> v then metric name ''gauge'' (dec_nat (nat v)) else [])"

definition metricsHandler :: "Process \<Rightarrow> 'b Request \<Rightarrow> Router \<Rightarrow> Response" where
  "metricsHandler p rq rt = get_only rq
     (let e = rt_eng rt
      in text_reply []
        (metric ''thomas_height'' ''gauge'' (dec_nat (unat (CurrentHeight e)))
         @ metric ''thomas_receipts_total'' ''counter'' (dec_nat (ReceiptCount e))
         @ metric ''thomas_uptime_seconds'' ''gauge'' (dec_i64 (p_uptime p))
         @ metric ''thomas_goroutines'' ''gauge'' (dec_nat (p_goroutines p))
         @ metric ''thomas_mem_alloc_bytes'' ''gauge'' (dec_nat (unat (p_alloc p)))
         @ metric ''thomas_ready'' ''gauge'' (if 0 < CurrentHeight e then ''1'' else ''0'')
         @ gauge_lines ''thomas_mempool_size'' (engine_gauge [''MempoolSize'', ''MempoolLen''] e)
         @ gauge_lines ''thomas_validators'' (engine_gauge [''ValidatorsLen''] e)))"

definition versionHandler :: "BuildInfo \<Rightarrow> Response" where
  "versionHandler b = reply 200 ctJSON
     [(''version'', JStr (bi_Version b)), (''commit'', JStr (bi_Commit b)), (''date'', JStr (bi_Date b)),
      (''go'', JStr (bi_Go b)), (''os'', JStr (bi_OS b)), (''arch'', JStr (bi_Arch b))]"

text \<open>\<open>expvar.Handler\<close> with the two counters of \<open>metrics.go\<close>.\<close>

definition debugVars :: "Process \<Rightarrow> Router \<Rightarrow> Response" where
  "debugVars p rt = reply 200 ctJSON8
     [(''cmdline'', p_cmdline p), (''memstats'', p_memstats p),
      (''rpc_bad_signature_total'', JNum (int (rt_badSig rt))),
      (''rpc_bind_mismatch_total'', JNum (int (rt_bindMismatch rt)))]"

definition routerAlive :: Response where
  "routerAlive = text_reply [] ''router ok''"

section \<open>Facts\<close>

text \<open>
  Fact. The event stream is never served by the node: behind the buffering writer a GET is
  answered 500, and no subscriber is added.
\<close>

theorem events_stream_unavailable:
  "eventsStream bufferingWriter_methods rq e = (status_only (if rq_Method rq = ''GET'' then 500 else 405), e)"
  by (simp add: eventsStream_def bufferingWriter_methods_def)

end
