(* ===== verification/Node.thy ===== *)
theory Node
  imports Gateway Wallet Diagnostics
begin

text \<open>
  The node as one transition system: the table of routes that \<open>init\<close> of \<open>router.go\<close> registers, the
  chain of prechecks in front of it, and the start of \<open>main\<close>. A request carries its body as bytes;
  what \<open>json.Unmarshal\<close> makes of them for each of the bodies the handlers expect is a parameter, as
  is the handler of \<open>internal/health\<close>, which is not part of the repository. What a request finds
  outside the program (the time, random identifiers and words, the state of the process) is a
  record of its own. A panic of a handler closes the connection; it is shown as status 0, which no
  handler writes.
\<close>

section \<open>Environment\<close>

record NodeEnv =
  n_cfg :: Config
  n_loopback :: "string \<Rightarrow> bool"
  n_wallet :: WalletEnv
  n_build :: BuildInfo
  n_invariants :: "bytes Request \<Rightarrow> Router \<Rightarrow> Response"
  n_tx :: "bytes \<Rightarrow> txPre option"
  n_create :: "bytes \<Rightarrow> createBody option"
  n_approve :: "bytes \<Rightarrow> approveBody option"
  n_decline :: "bytes \<Rightarrow> partyBody option"
  n_cancel :: "bytes \<Rightarrow> partyBody option"
  n_words :: "bytes \<Rightarrow> walletBody option"

record Tick =
  t_now :: i64
  t_later :: i64                   \<comment> \<open>a second reading of the clock in the same request\<close>
  t_stamp :: string                \<comment> \<open>the time as RFC 3339 text\<close>
  t_rand :: bytes                  \<comment> \<open>eight bytes from \<open>rand.Read\<close>\<close>
  t_mnemonic :: "string result"
  t_panic :: string                \<comment> \<open>text of a runtime error\<close>
  t_process :: Process

definition genR2PID :: "bytes \<Rightarrow> string" where
  "genR2PID b = hex_encode b"

definition t_id :: "Tick \<Rightarrow> string" where
  "t_id t = genR2PID (t_rand t)"

definition decoded :: "(bytes \<Rightarrow> 'b option) \<Rightarrow> bytes Request \<Rightarrow> 'b Request" where
  "decoded d rq = \<lparr>rq_Method = rq_Method rq, rq_Path = rq_Path rq, rq_Header = rq_Header rq, rq_Query = rq_Query rq,
     rq_Remote = rq_Remote rq, rq_Body = Option.bind (rq_Body rq) d\<rparr>"

definition dropped :: Response where
  "dropped = status_only 0"

definition answer :: "Response option \<Rightarrow> Response" where
  "answer r = (case r of Some r \<Rightarrow> r | None \<Rightarrow> dropped)"

section \<open>Routes\<close>

type_synonym route = "bytes Request \<Rightarrow> Router \<Rightarrow> Response \<times> Router"

text \<open>Handlers that only read, that only read and may panic, and that change the state and may panic.\<close>

definition reads :: "(bytes Request \<Rightarrow> Router \<Rightarrow> Response) \<Rightarrow> route" where
  "reads h rq rt = (h rq rt, rt)"

definition reads_or_panics :: "(bytes Request \<Rightarrow> Router \<Rightarrow> Response option) \<Rightarrow> route" where
  "reads_or_panics h rq rt = (answer (h rq rt), rt)"

definition acts_or_panics :: "(bytes Request \<Rightarrow> Router \<Rightarrow> Response option \<times> Router) \<Rightarrow> route" where
  "acts_or_panics h rq rt = (let (r, rt) = h rq rt in (answer r, rt))"

definition acts :: "(bytes \<Rightarrow> 'b option) \<Rightarrow> ('b Request \<Rightarrow> Router \<Rightarrow> Response \<times> Router) \<Rightarrow> route" where
  "acts d h rq rt = h (decoded d rq) rt"

definition stream_route :: route where
  "stream_route rq rt = (let (r, e) = eventsStream bufferingWriter_methods rq (rt_eng rt) in (r, rt\<lparr>rt_eng := e\<rparr>))"

definition node_wallet :: "NodeEnv \<Rightarrow> Tick \<Rightarrow> WalletEnv" where
  "node_wallet n t = (n_wallet n)\<lparr>w_mnemonic := t_mnemonic t\<rparr>"

definition changing_routes :: "NodeEnv \<Rightarrow> Tick \<Rightarrow> (string \<times> route) list" where
  "changing_routes n t = (let c = n_cfg n; now = t_now t in
     [(''/tx'', acts (n_tx n) (txHandler c now)),
      (''/r2p/create'', acts (n_create n) (r2pCreate c (t_id t) now)),
      (''/r2p/approve'', acts (n_approve n) (r2pApprove c (n_loopback n) now (t_later t))),
      (''/r2p/decline'', acts (n_decline n) (r2pDecline c now)),
      (''/r2p/cancel'', acts (n_cancel n) (r2pCancel c now)),
      (''/round/commit'', acts_or_panics (roundCommit c now)),
      (''/round/commit_safe'', acts_or_panics (roundCommitSafe c (t_panic t) now)),
      (''/round/commit_safe2'', acts_or_panics (roundCommitSafe2 c (t_panic t) now)),
      (''/account/'', accountHandler), (''/nonce/'', nonceHandler), (''/minting'', mintingHandler),
      (''/events/stream'', stream_route)])"

definition reading_routes :: "NodeEnv \<Rightarrow> Tick \<Rightarrow> (string \<times> route) list" where
  "reading_routes n t = (let c = n_cfg n; env = c_env c; p = t_process t in
     (if c_getenv c ''THOMAS_ENABLE_VARZ'' = ''1'' then [(''/debug/vars'', reads (\<lambda>rq. debugVars p))] else [])
     @ [(''/health/invariants'', reads (n_invariants n)),
      (''/r2p/list'', reads (r2pListHandlerOpaque c)), (''/tx/get'', reads txGetHandler),
      (''/receipt/get'', reads receiptGet), (''/debug/echo'', reads (\<lambda>rq rt. debugEcho rq)),
      (''/debug/stack'', reads (\<lambda>rq rt. debugStack rq)), (''/node/info'', reads nodeInfo),
      (''/height'', reads heightHandler), (''/policy'', reads (policyHandler c)),
      (''/health'', reads (\<lambda>rq rt. healthHandler (t_stamp t))),
      (''/health/chain'', reads (\<lambda>rq. healthChain env (t_stamp t))),
      (''/merkle'', reads (merkleHandler env)), (''/supply/current'', reads supplyCurrent),
      (''/supply/at/'', reads (supplyAt env)), (''/round/latest'', reads roundLatest),
      (''/round/'', reads_or_panics (roundHandler env)),
      (''/eternity/header/latest'', reads (eternityHeaderLatest env)),
      (''/block/'', reads_or_panics blockLightProof), (''/round/latest/signed'', reads (roundLatestSigned env)),
      (''/alias/resolve'', reads (aliasResolve env)), (''/alias/reverse'', reads (aliasReverse env)),
      (''/wallet/create'', reads (\<lambda>rq rt. walletCreateHandler (node_wallet n t) (decoded (n_words n) rq))),
      (''/wallet/restore'', reads (\<lambda>rq rt. walletRestoreHandler (node_wallet n t) (decoded (n_words n) rq))),
      (''/r2p/get'', reads r2pGet), (''/stats.json'', reads (statsJSON (t_stamp t))), (''/stats.sys'', reads (statsSys (t_stamp t) p)),
      (''/stats.plus'', reads (statsPlus env (t_stamp t))), (''/metrics'', reads (metricsHandler p)),
      (''/readyz'', reads (readyz (t_stamp t) (p_uptime p))), (''/version'', reads (\<lambda>rq rt. versionHandler (n_build n))),
      (''/diag/router-alive'', reads (\<lambda>rq rt. routerAlive))])"

definition node_routes :: "NodeEnv \<Rightarrow> Tick \<Rightarrow> (string \<times> route) list" where
  "node_routes n t = changing_routes n t @ reading_routes n t"

definition node_mux :: "NodeEnv \<Rightarrow> Tick \<Rightarrow> route" where
  "node_mux n t rq rt = mux_route (map fst (node_routes n t)) rq (\<lambda>r. (r, rt))
     (\<lambda>p. case map_of (node_routes n t) p of Some h \<Rightarrow> h rq rt | None \<Rightarrow> (http_NotFound, rt))"

text \<open>
  The chain in front of the mux. Each precheck reads the body and puts it back, so that all of
  them and the handler see the same bytes.
\<close>

definition debuglogRateLimit :: "('b Request \<Rightarrow> Router \<Rightarrow> Response \<times> Router) \<Rightarrow> 'b Request \<Rightarrow> Router \<Rightarrow> Response \<times> Router" where
  "debuglogRateLimit next = next"

definition node_root :: "NodeEnv \<Rightarrow> Tick \<Rightarrow> route" where
  "node_root n t rq rt = (let c = n_cfg n in debuglogRateLimit
     (txPrecheckWith c (precheckSig c (precheckFromBindingWith c (precheckCommit c (\<lambda>_. node_mux n t rq)))))
       (decoded (n_tx n) rq) rt)"

section \<open>Start and steps\<close>

text \<open>\<open>main\<close> up to listening: the engine, and the two paths of the request-to-pay file.\<close>

definition node_start ::
  "Config \<Rightarrow> string \<Rightarrow> (string, bytes) gomap \<Rightarrow> (bytes \<times> bytes) option \<Rightarrow> (bytes \<times> bytes) option \<Rightarrow> Router" where
  "node_start c base disk loaded generated =
     (let e = NewEngine (c_env c) (c_wr c) disk loaded generated;
          rt = \<lparr>rt_eng = e, rt_store = [], rt_path = [], rt_bindMismatch = 0, rt_badSig = 0\<rparr>
      in SetR2PStorage c ''data/r2p.json'' (SetR2PStorage c (Join (Join base ''data'') ''r2p.json'') rt))"

text \<open>A start on any files, and one without a ledger file.\<close>

inductive node_init :: "NodeEnv \<Rightarrow> Router \<Rightarrow> bool" for n where
  "node_init n (node_start (n_cfg n) base disk loaded generated)"

inductive node_fresh :: "NodeEnv \<Rightarrow> Router \<Rightarrow> bool" for n where
  "map_of disk ledgerPath = None \<Longrightarrow> node_fresh n (node_start (n_cfg n) base disk loaded generated)"

text \<open>Requests, whatever they are, and deliveries of events.\<close>

inductive node_step :: "NodeEnv \<Rightarrow> Router \<Rightarrow> Router \<Rightarrow> bool" for n where
  request: "node_step n rt (snd (node_root n t rq rt))"
| deliver: "hub_step (e_hub (rt_eng rt)) h \<Longrightarrow> node_step n rt (rt\<lparr>rt_eng := (rt_eng rt)\<lparr>e_hub := h\<rparr>\<rparr>)"

section \<open>Requests to a route\<close>

lemma node_mux_exact:
  assumes "map_of (node_routes n t) (rq_Path rq) = Some h" "cleanPath (rq_Path rq) = rq_Path rq"
  shows "node_mux n t rq rt = h rq rt"
proof -
  have "rq_Path rq \<in> set (map fst (node_routes n t))" using assms(1) by (force dest: map_of_SomeD)
  then have "mux_best (map fst (node_routes n t)) (rq_Path rq) = Some (rq_Path rq)" by (rule mux_best_exact)
  then show ?thesis using assms by (simp add: node_mux_def mux_route_def ServeMux_def)
qed

text \<open>A middleware calls the handler behind it on the request that it was given.\<close>

lemma precheck_cong:
  assumes "\<And>rt. nx rq rt = nx' rq rt"
  shows "precheckFields c nx rq rt = precheckFields c nx' rq rt" "jsonizeSigErrors nx rq rt = jsonizeSigErrors nx' rq rt"
    "precheckSig c nx rq rt = precheckSig c nx' rq rt" "precheckCommit c nx rq rt = precheckCommit c nx' rq rt"
    "precheckFromBindingWith c nx rq rt = precheckFromBindingWith c nx' rq rt"
  unfolding precheckFields_def jsonizeSigErrors_def precheckSig_def precheckCommit_def precheckFromBindingWith_def assms
  by (rule refl)+

text \<open>For \<open>/tx\<close> the chain is the one of the transfer pipeline.\<close>

lemma node_root_tx:
  assumes "rq_Path rq = ''/tx''"
  shows "node_root n t rq rt = tx_root (n_cfg n) (t_now t) (decoded (n_tx n) rq) rt"
proof -
  have "map_of (node_routes n t) (rq_Path rq) = Some (acts (n_tx n) (txHandler (n_cfg n) (t_now t)))"
    by (simp add: assms node_routes_def changing_routes_def Let_def)
  moreover have "cleanPath ''/tx'' = ''/tx''" by code_simp
  ultimately have "node_mux n t rq rt = acts (n_tx n) (txHandler (n_cfg n) (t_now t)) rq rt" for rt
    using assms by (intro node_mux_exact) simp_all
  then have "node_mux n t rq rt = txHandler (n_cfg n) (t_now t) (decoded (n_tx n) rq) rt" for rt
    by (simp add: acts_def)
  then show ?thesis
    unfolding node_root_def debuglogRateLimit_def tx_root_def txPrecheckWith_def withJSONErrorFallback_def Let_def
    by (intro precheck_cong) simp
qed

section \<open>What a request does to the engine\<close>

text \<open>A request is stopped by a precheck, or answered by the mux or the handler of one route.\<close>

lemma node_root_cases:
  obtains (stopped) "rt_eng (snd (node_root n t rq rt)) = rt_eng rt" "rt_store (snd (node_root n t rq rt)) = rt_store rt"
  | (passed) "fields_pass (n_cfg n) (decoded (n_tx n) rq) rt" "sig_pass (n_cfg n) (decoded (n_tx n) rq) rt"
    "bind_pass (n_cfg n) (decoded (n_tx n) rq) rt" "commit_pass (n_cfg n) (decoded (n_tx n) rq) rt"
    "rt_eng (snd (node_root n t rq rt)) = rt_eng (snd (node_mux n t rq rt))"
    "rt_store (snd (node_root n t rq rt)) = rt_store (snd (node_mux n t rq rt))"
proof -
  let ?c = "n_cfg n" and ?rq = "decoded (n_tx n) rq"
  let ?inner = "precheckSig ?c (precheckFromBindingWith ?c (precheckCommit ?c (\<lambda>_. node_mux n t rq)))"
  have root: "node_root n t rq rt = precheckFields ?c (jsonizeSigErrors ?inner) ?rq rt"
    by (simp add: node_root_def debuglogRateLimit_def txPrecheckWith_def withJSONErrorFallback_def Let_def)
  show thesis
  proof (cases rule: fields.cases_pass [of ?c ?rq rt "jsonizeSigErrors ?inner"])
    case 1
    note f = this
    show thesis
      by (cases rule: sbc.pair.cases_pass [of ?c ?rq rt "\<lambda>_. node_mux n t rq"])
        (use f root in \<open>auto simp: jsonize_frame intro: passed stopped\<close>)
  qed (use root in \<open>auto intro: stopped\<close>)
qed

lemma node_mux_cases:
  obtains (plain) "snd (node_mux n t rq rt) = rt"
  | (routed) p h where "(p, h) \<in> set (node_routes n t)" "mux_matches (rq_Path rq) p"
    "node_mux n t rq rt = h rq rt"
proof (cases rule: mux_route_cases [of "map fst (node_routes n t)" rq "\<lambda>r. (r, rt)"
    "\<lambda>p. case map_of (node_routes n t) p of Some h \<Rightarrow> h rq rt | None \<Rightarrow> (http_NotFound, rt)"])
  case (plain r)
  then show ?thesis by (intro that(1)) (simp add: node_mux_def)
next
  case (routed p)
  then obtain h where "map_of (node_routes n t) p = Some h"
    by (cases "map_of (node_routes n t) p") (auto simp: map_of_eq_None_iff)
  with routed show ?thesis by (intro that(2) [of p h]) (simp_all add: node_mux_def map_of_SomeD)
qed

lemma reading_routes_state: "(p, h) \<in> set (reading_routes n t) \<Longrightarrow> snd (h rq rt) = rt"
  by (auto simp: reading_routes_def Let_def reads_def reads_or_panics_def)

text \<open>Every handler acts on the engine through the engine's own operations.\<close>

abbreviation engine_runs :: "Env \<Rightarrow> Engine \<Rightarrow> Engine \<Rightarrow> bool" where
  "engine_runs env \<equiv> (engine_step env)\<^sup>*\<^sup>*"

lemma engine_runs_one [intro]: "engine_step env e e' \<Longrightarrow> engine_runs env e e'"
  by (rule r_into_rtranclp)

lemma pay_runs:
  "engine_runs env e (snd (StoreReceipt env wr now t ok reason (snd (eng_ApplyTransfer env feat wr' t e))))"
  "engine_runs env e (snd (eng_ApplyTransfer env feat wr' t e))"
  by (meson engine_step.transfer engine_step.receipt r_into_rtranclp rtranclp.rtrancl_into_rtrancl)+

lemma txHandler_runs: "engine_runs (c_env c) (rt_eng rt) (rt_eng (snd (txHandler c now rq rt)))"
  using pay_runs by (auto simp: tx_handler_defs split: option.split sum.split)

lemma save_runs: "engine_runs env (rt_eng rt) (rt_eng (r2pSaveLocked c rt))"
proof -
  obtain d where "r2pSaveLocked c rt = rt\<lparr>rt_eng := (rt_eng rt)\<lparr>e_disk := d\<rparr>\<rparr>" using save_frame by blast
  then show ?thesis by (simp add: r_into_rtranclp engine_step.files)
qed

lemma r2pCreate_runs: "engine_runs env (rt_eng rt) (rt_eng (snd (r2pCreate c i now rq rt)))"
  using save_runs [of env _ c]
  by (auto simp: r2pCreate_def Let_def split: option.split prod.split)
    (metis (no_types) Router.select_convs(1) Router.surjective Router.update_convs(2))

lemma close_runs:
  "engine_runs env (rt_eng rt) (rt_eng (snd (case close_check c own m rq rt of
     (Inl resp, rt) \<Rightarrow> (resp, rt) | (Inr (i, rid), rt) \<Rightarrow> close_finish st f i rid rt)))"
  using close_check_eq [of c own m rq rt] save_runs [of env rt c]
  by (auto simp: close_finish_def saveR2P_def split: prod.split sum.split)

lemma approve_pay_runs: "engine_runs (c_env c) (rt_eng rt) (rt_eng (snd (approve_pay c free now rid t rt)))"
  using pay_runs by (auto simp: approve_pay_def case_prod_beta Let_def split: sum.split)

lemma approve_check_runs: "engine_runs env (rt_eng rt) (rt_eng (snd (approve_check c rq rt)))"
  by (auto simp: approve_check_def case_prod_beta Let_def intro: engine_step.account split: option.split)

lemma r2pApprove_runs: "engine_runs (c_env c) (rt_eng rt) (rt_eng (snd (r2pApprove c loopback now later rq rt)))"
proof -
  obtain chk rt1 where chk: "approve_check c rq rt = (chk, rt1)" by fastforce
  then have r1: "engine_runs (c_env c) (rt_eng rt) (rt_eng rt1)"
    using approve_check_runs [of "c_env c" rt c rq] by simp
  show ?thesis
  proof (cases chk)
    case (Inr irt)
    obtain i rid t where irt: "irt = (i, rid, t)" by (cases irt)
    obtain pay rt2 where pay: "approve_pay c (devFreeR2PEnabled c loopback rq) now rid t rt1 = (pay, rt2)"
      by fastforce
    then have "engine_runs (c_env c) (rt_eng rt1) (rt_eng rt2)"
      using approve_pay_runs [of c rt1 "devFreeR2PEnabled c loopback rq" now rid t] by simp
    with r1 have r2: "engine_runs (c_env c) (rt_eng rt) (rt_eng rt2)" by simp
    have "engine_runs (c_env c) (rt_eng rt2) (rt_eng (r2pSaveLocked c (set_record i (paid later h) rt2)))" for h
      using save_runs [of "c_env c" "set_record i (paid later h) rt2" c] by simp
    with r2 show ?thesis
      using chk Inr irt pay
      by (auto simp: r2pApprove_def approve_finish_def split: sum.split intro: rtranclp_trans)
  qed (use chk r1 in \<open>simp add: r2pApprove_def\<close>)
qed

lemma CommitRound_runs: "CommitRound env wr now e = (r, e') \<Longrightarrow> engine_runs env e e'"
  using engine_step.commit [of env e wr now] by auto

lemma commit_runs:
  "engine_runs (c_env c) (rt_eng rt) (rt_eng (snd (roundCommit c now rq rt)))"
  "engine_runs (c_env c) (rt_eng rt) (rt_eng (snd (roundCommitSafe c msg now rq rt)))"
  "engine_runs (c_env c) (rt_eng rt) (rt_eng (snd (roundCommitSafe2 c msg now rq rt)))"
  by (auto simp: roundCommit_def roundCommitSafe_def roundCommitSafe2_def hasPending_def commit_recovering_def
      dest: CommitRound_runs split: prod.split commit_outcome.split)

lemma account_runs:
  "engine_runs env (rt_eng rt) (rt_eng (snd (accountHandler rq rt)))"
  "engine_runs env (rt_eng rt) (rt_eng (snd (nonceHandler rq rt)))"
  "engine_runs env (rt_eng rt) (rt_eng (snd (mintingHandler rq rt)))"
proof -
  have acc: "engine_runs env e e' \<Longrightarrow> engine_runs env e (snd (eng_GetAccount a e'))" for e e' a
    by (erule rtranclp.rtrancl_into_rtrancl) (rule engine_step.account)
  show "engine_runs env (rt_eng rt) (rt_eng (snd (accountHandler rq rt)))"
    "engine_runs env (rt_eng rt) (rt_eng (snd (nonceHandler rq rt)))"
    "engine_runs env (rt_eng rt) (rt_eng (snd (mintingHandler rq rt)))"
    by (simp_all add: accountHandler_def nonceHandler_def mintingHandler_def case_prod_beta Let_def acc)
qed

lemma decline_cancel_runs:
  "engine_runs env (rt_eng rt) (rt_eng (snd (r2pDecline c now rq rt)))"
  "engine_runs env (rt_eng rt) (rt_eng (snd (r2pCancel c now rq rt)))"
  unfolding r2pDecline_def r2pCancel_def by (rule close_runs)+

lemma changing_routes_run:
  assumes "(p, h) \<in> set (changing_routes n t)"
  shows "engine_runs (c_env (n_cfg n)) (rt_eng rt) (rt_eng (snd (h rq rt)))"
  using assms
  by (auto simp: changing_routes_def Let_def acts_def acts_or_panics_def case_prod_beta stream_route_def
      events_stream_unavailable txHandler_runs r2pCreate_runs r2pApprove_runs decline_cancel_runs
      commit_runs account_runs)

lemma node_root_runs: "engine_runs (c_env (n_cfg n)) (rt_eng rt) (rt_eng (snd (node_root n t rq rt)))"
proof (cases rule: node_root_cases [of n t rq rt])
  case passed
  then show ?thesis
    by (cases rule: node_mux_cases [of n t rq rt])
      (auto simp: node_routes_def reading_routes_state changing_routes_run)
qed simp

lemma SetR2PStorage_eng [simp]: "rt_eng (SetR2PStorage c p rt) = rt_eng rt"
  by (simp add: SetR2PStorage_def Let_def split: option.split)

text \<open>The node is simulated by the engine, from any start and from one without a ledger.\<close>

lemma node_step_runs: "node_step n rt rt' \<Longrightarrow> engine_runs (c_env (n_cfg n)) (rt_eng rt) (rt_eng rt')"
proof (induction rule: node_step.induct)
  case (deliver rt h)
  then have "engine_step (c_env (n_cfg n)) (rt_eng rt) ((rt_eng rt)\<lparr>e_hub := h\<rparr>)" by (rule engine_step.hub)
  then show ?case by auto
qed (rule node_root_runs)

interpretation node_sim: simulation "node_init n" "node_step n"
    "engine_start (c_env (n_cfg n))" "engine_step (c_env (n_cfg n))" rt_eng for n
proof
  show "engine_start (c_env (n_cfg n)) (rt_eng rt)" if "node_init n rt" for rt
    using that by cases (simp add: node_start_def engine_start.intros)
qed (rule node_step_runs)

interpretation node_fresh_sim: simulation "node_fresh n" "node_step n"
    "fresh_start (c_env (n_cfg n))" "engine_step (c_env (n_cfg n))" rt_eng for n
proof
  show "fresh_start (c_env (n_cfg n)) (rt_eng rt)" if "node_fresh n rt" for rt
    using that by cases (simp add: node_start_def fresh_start.intros)
qed (rule node_step_runs)

end
