(* ===== verification/Node_Props.thy ===== *)
theory Node_Props
  imports Node
begin

text \<open>
  Properties of the node as a whole, for any sequence of HTTP requests: which requests change
  accounts, that balances are conserved, that the invariants of the engine hold, that the state stays
  well-formed, and the life cycle of requests to pay.
\<close>

section \<open>What engine operations do to the accounts\<close>

definition same_accounts :: "Engine \<Rightarrow> Engine \<Rightarrow> bool" where
  "same_accounts e e' \<longleftrightarrow> acct (e_db e') = acct (e_db e) \<and> total_balance (e_db e') = total_balance (e_db e)
     \<and> feeReceiver (e_db e') = feeReceiver (e_db e)"

lemma same_accounts_refl [simp]: "same_accounts e e"
  by (simp add: same_accounts_def)

lemma same_accounts_trans: "same_accounts e e' \<Longrightarrow> same_accounts e' e'' \<Longrightarrow> same_accounts e e''"
  by (simp add: same_accounts_def)

lemma same_accounts_db: "e_db e' = e_db e \<Longrightarrow> same_accounts e e'"
  by (simp add: same_accounts_def)

lemma GetAccount_same [simp]: "same_accounts e (snd (eng_GetAccount a e))"
  by (simp add: same_accounts_def eng_GetAccount_def GetAccount_def case_prod_beta)

lemma StoreReceipt_db [simp]: "e_db (snd (StoreReceipt env wr now t ok reason e)) = e_db e"
  using StoreReceipt_eq [of env wr now t ok reason e] by (auto simp: Let_def)

lemma persist_accts [simp]:
  "accts (persistSupplyState db h st) = accts db" "feeReceiver (persistSupplyState db h st) = feeReceiver db"
  by (auto simp: persistSupplyState_def SetKey_def Let_def split: option.splits)

lemma CommitRound_db:
  "e_db (snd (CommitRound env wr now e)) = e_db e
   \<or> (\<exists>h st. e_db (snd (CommitRound env wr now e)) = persistSupplyState (e_db e) h st)"
proof -
  have rr: "e_db (record_round env wr hdr e) = e_db e" for hdr e
    using record_round_eq [of env wr hdr e] by auto
  have bh: "e_db (snd (buildEternityHeader env raw hdr e)) = e_db e" for raw hdr e
    by (auto simp: buildEternityHeader_def Let_def split: sum.splits)
  have ah: "e_db (add_header h c e) = e_db e" for h c e
    by (simp add: add_header_def Let_def)
  have mint: "\<exists>st. e_db (applyBlockMint h e) = persistSupplyState (e_db e) h st" for h e
    by (auto simp: applyBlockMint_def case_prod_beta)
  show ?thesis
    using mint [of _ "e\<lparr>e_height := of_nat (length (e_leaves e))\<rparr>"]
    by (auto simp: CommitRound_def Let_def case_prod_beta rr bh ah split: sum.split)
qed

lemma CommitRound_same: "CommitRound env wr now e = (r, e') \<Longrightarrow> same_accounts e e'"
  using CommitRound_db [of env wr now e] by (auto simp: same_accounts_def acct_def total_balance_def fun_eq_iff)

lemma eng_ApplyTransfer_accounts:
  "e_db (snd (eng_ApplyTransfer env feat wr t e)) = snd (apply_db t e)"
  using eng_ApplyTransfer_eq [of env feat wr t e] by auto

text \<open>A transfer is applied and its receipt becomes a leaf, or the accounts are as before.\<close>

definition transferred :: "Transfer \<Rightarrow> Engine \<Rightarrow> Engine \<Rightarrow> bool" where
  "transferred t e e' \<longleftrightarrow> apply_db t e = (Inr (), e_db e') \<and> length (e_leaves e') = Suc (length (e_leaves e))"

lemma apply_db_cases:
  assumes "e_db e' = snd (apply_db t e)"
    and "fst (apply_db t e) = Inr () \<Longrightarrow> length (e_leaves e') = Suc (length (e_leaves e))"
  shows "transferred t e e' \<or> same_accounts e e'"
  using assms
  by (cases rule: ApplyTransfer_cases [of "e_db e" "tr_From t" "tr_Nonce t" "tr_To t" "tr_AmountMas t" "tr_FeeMas t"])
    (auto simp: transferred_def same_accounts_def apply_db_def prod_eq_iff)

lemma ApplyTransfer_after_get:
  "ApplyTransfer a to amount fee nonce (snd (db_get a db)) = ApplyTransfer a to amount fee nonce db"
proof -
  have "db_get a (snd (db_get a db)) = db_get a db"
    by (auto simp: db_get_def gomap_simps split: option.split)
  then show ?thesis by (simp add: ApplyTransfer_def)
qed

lemma StoreReceipt_leaves [simp]:
  "length (e_leaves (snd (StoreReceipt env wr now t ok reason e))) = Suc (length (e_leaves e))"
  using StoreReceipt_eq [of env wr now t ok reason e] by (auto simp: Let_def)

lemma eng_ApplyTransfer_leaves [simp]: "e_leaves (snd (eng_ApplyTransfer env feat wr t e)) = e_leaves e"
  using eng_ApplyTransfer_eq [of env feat wr t e] by auto

lemma eng_ApplyTransfer_outcome:
  assumes "fst (apply_db t e) = Inr ()"
  shows "fst (eng_ApplyTransfer env feat wr t e) \<in> {Inr (), Inl ''write error''}"
  using assms by (auto simp: eng_ApplyTransfer_def apply_db_def tryApplyAliasSetTx_def saveStateMas_def WriteFile_def
      Let_def case_prod_beta)

lemma write_error_funds: "\<not> isInsufficientFunds (Some ''write error'') (''apply:'' @ ''write error'')"
  by code_simp

section \<open>Which requests change accounts\<close>

text \<open>The transfer that a POST to \<open>/tx\<close> orders, with everything the prechecks establish.\<close>

definition posts :: "NodeEnv \<Rightarrow> bytes Request \<Rightarrow> Router \<Rightarrow> Transfer \<Rightarrow> bool" where
  "posts n rq rt x \<longleftrightarrow> is_tx rq \<and> (\<exists>inp. Option.bind (rq_Body rq) (n_tx n) = Some inp \<and> x = tx_of inp
     \<and> precheck_errs (n_cfg n) (CurrentHeight (rt_eng rt)) inp = []
     \<and> (must (n_cfg n) ''THOMAS_REQUIRE_COMMIT'' \<longrightarrow> tp_MsgCommitment inp = calcCommit (n_cfg n) inp)
     \<and> (must (n_cfg n) ''THOMAS_VERIFY_SIG'' \<longrightarrow> (\<exists>pk sg. b64_decode False (rq_Header rq ''X-PubKey'') = Some pk
          \<and> b64_decode False (sig_given (decoded (n_tx n) rq) inp) = Some sg
          \<and> c_verify (n_cfg n) pk (bytes_of (calcCommit (n_cfg n) inp)) sg
          \<and> VerifyFromBinding (c_env (n_cfg n)) (tp_From inp) pk (rt_eng rt))))"

text \<open>The transfer that a POST to \<open>/r2p/approve\<close> orders.\<close>

definition approves :: "NodeEnv \<Rightarrow> bytes Request \<Rightarrow> Router \<Rightarrow> Transfer \<Rightarrow> bool" where
  "approves n rq rt x \<longleftrightarrow> rq_Method rq = ''POST'' \<and> rq_Path rq = ''/r2p/approve'' \<and> featR2P (n_cfg n)
     \<and> (\<exists>inp rec. Option.bind (rq_Body rq) (n_approve n) = Some inp \<and> map_of (rt_store rt) (pi_ID inp) = Some rec
          \<and> r_Status rec = ''open'' \<and> party_ok (n_cfg n) (pi_Party inp) (r_To rec) rt
          \<and> x = approve_transfer (n_cfg n) (pi_FeeMas inp) rec (acc_nonce (acct (e_db (rt_eng rt)) (r_To rec)) + 1))"

lemma decoded_sel [simp]:
  "rq_Method (decoded d rq) = rq_Method rq" "rq_Path (decoded d rq) = rq_Path rq"
  "rq_Header (decoded d rq) = rq_Header rq" "rq_Query (decoded d rq) = rq_Query rq"
  "rq_Body (decoded d rq) = Option.bind (rq_Body rq) d" "is_tx (decoded d rq) = is_tx rq"
  by (simp_all add: decoded_def is_tx_def)

lemma txHandler_accounts:
  "same_accounts (rt_eng rt) (rt_eng (snd (txHandler c now rq rt)))
   \<or> (\<exists>inp. rq_Method rq = ''POST'' \<and> rq_Body rq = Some inp
        \<and> transferred (tx_of inp) (rt_eng rt) (rt_eng (snd (txHandler c now rq rt))))"
proof (cases "rq_Method rq = ''POST''")
  case True
  show ?thesis
  proof (cases "rq_Body rq")
    case (Some inp)
    with True have "e_db (rt_eng (snd (txHandler c now rq rt))) = snd (apply_db (tx_of inp) (rt_eng rt))"
      "length (e_leaves (rt_eng (snd (txHandler c now rq rt)))) = Suc (length (e_leaves (rt_eng rt)))"
      by (auto simp: tx_handler_defs eng_ApplyTransfer_accounts split: sum.split)
    from apply_db_cases [OF this] True Some show ?thesis by blast
  qed (use True in \<open>simp add: tx_handler_defs\<close>)
qed (simp add: tx_handler_defs)

lemma save_same [simp]: "same_accounts e (rt_eng (r2pSaveLocked c rt)) \<longleftrightarrow> same_accounts e (rt_eng rt)"
  by (simp add: same_accounts_def)

lemma approve_pay_db: "e_db (rt_eng (snd (approve_pay c free now rid t rt))) = snd (apply_db t (rt_eng rt))"
  by (auto simp: approve_pay_def case_prod_beta Let_def eng_ApplyTransfer_accounts split: sum.split)

lemma approve_pay_leaves:
  assumes "fst (apply_db t (rt_eng rt)) = Inr ()"
  shows "length (e_leaves (rt_eng (snd (approve_pay c free now rid t rt)))) = Suc (length (e_leaves (rt_eng rt)))"
  using eng_ApplyTransfer_outcome [OF assms, of "c_env c" "featAlias c" "c_wr c"] write_error_funds
  by (auto simp: approve_pay_def case_prod_beta Let_def split: sum.split)

lemma apply_db_after_get:
  "apply_db t (snd (eng_GetAccount (tr_From t) e)) = apply_db t e"
  by (simp add: apply_db_def eng_GetAccount_def GetAccount_def case_prod_beta ApplyTransfer_after_get)

lemma r2pApprove_db:
  obtains (refused) "snd (r2pApprove c loopback now later rq rt) = rt"
  | (paid) inp rec t where "rq_Method rq = ''POST''" "featR2P c" "rq_Body rq = Some inp"
    "map_of (rt_store rt) (pi_ID inp) = Some rec" "r_Status rec = ''open''" "party_ok c (pi_Party inp) (r_To rec) rt"
    "t = approve_transfer c (pi_FeeMas inp) rec (acc_nonce (acct (e_db (rt_eng rt)) (r_To rec)) + 1)"
    "e_db (rt_eng (snd (r2pApprove c loopback now later rq rt))) = snd (apply_db t (rt_eng rt))"
    "fst (apply_db t (rt_eng rt)) = Inr () \<Longrightarrow>
      length (e_leaves (rt_eng (snd (r2pApprove c loopback now later rq rt)))) = Suc (length (e_leaves (rt_eng rt)))"
proof -
  obtain chk rt1 where chk: "approve_check c rq rt = (chk, rt1)" by fastforce
  show thesis
  proof (cases chk)
    case (Inl resp)
    with chk have "rt1 = rt" by (auto dest: approve_check_Inl)
    with chk Inl show thesis by (intro refused) (simp add: r2pApprove_def)
  next
    case (Inr irt)
    obtain i rid t where irt: "irt = (i, rid, t)" by (cases irt)
    from chk Inr irt have "approve_check c rq rt = (Inr (i, rid, t), rt1)" by simp
    then obtain rec inp where ok: "rq_Method rq = ''POST''" "featR2P c" "rq_Body rq = Some inp" "i = pi_ID inp"
      "map_of (rt_store rt) i = Some rec" "r_Status rec = ''open''" "party_ok c (pi_Party inp) (r_To rec) rt"
      "t = approve_transfer c (pi_FeeMas inp) rec (acc_nonce (acct (e_db (rt_eng rt)) (r_To rec)) + 1)"
      and rt1: "rt1 = rt\<lparr>rt_eng := snd (eng_GetAccount (r_To rec) (rt_eng rt))\<rparr>"
      by (rule approve_check_Inr) blast
    from ok(8) have "tr_From t = r_To rec" by (simp add: approve_transfer_def Let_def)
    with rt1 have "apply_db t (rt_eng rt1) = apply_db t (rt_eng rt)"
      using apply_db_after_get [of t "rt_eng rt"] by simp
    moreover have "e_leaves (rt_eng rt1) = e_leaves (rt_eng rt)"
      by (simp add: rt1 eng_GetAccount_def case_prod_beta)
    moreover have "e_db (rt_eng (snd (r2pApprove c loopback now later rq rt)))
        = e_db (rt_eng (snd (approve_pay c (devFreeR2PEnabled c loopback rq) now rid t rt1)))"
      "e_leaves (rt_eng (snd (r2pApprove c loopback now later rq rt)))
        = e_leaves (rt_eng (snd (approve_pay c (devFreeR2PEnabled c loopback rq) now rid t rt1)))"
      using chk Inr irt by (auto simp: r2pApprove_def approve_finish_def split: prod.split sum.split)
    ultimately show thesis
      using ok approve_pay_leaves [of t rt1] by (intro paid [of inp rec t]) (simp_all add: approve_pay_db)
  qed
qed

lemma other_routes_same:
  "same_accounts (rt_eng rt) (rt_eng (snd (r2pCreate c i now rq1 rt)))"
  "same_accounts (rt_eng rt) (rt_eng (snd (r2pDecline c now rq2 rt)))"
  "same_accounts (rt_eng rt) (rt_eng (snd (r2pCancel c now rq3 rt)))"
  "same_accounts (rt_eng rt) (rt_eng (snd (roundCommit c now rq4 rt)))"
  "same_accounts (rt_eng rt) (rt_eng (snd (roundCommitSafe c msg now rq4 rt)))"
  "same_accounts (rt_eng rt) (rt_eng (snd (roundCommitSafe2 c msg now rq4 rt)))"
  "same_accounts (rt_eng rt) (rt_eng (snd (accountHandler rq4 rt)))"
  "same_accounts (rt_eng rt) (rt_eng (snd (nonceHandler rq4 rt)))"
  "same_accounts (rt_eng rt) (rt_eng (snd (mintingHandler rq4 rt)))"
proof -
  have close: "same_accounts (rt_eng rt) (rt_eng (snd (case close_check c own m rq rt of
     (Inl resp, rt) \<Rightarrow> (resp, rt) | (Inr (i, rid), rt) \<Rightarrow> close_finish st f i rid rt)))" for own m st f rq
    using close_check_eq [of c own m rq rt]
    by (auto simp: close_finish_def saveR2P_def same_accounts_def split: prod.split sum.split)
  show "same_accounts (rt_eng rt) (rt_eng (snd (r2pDecline c now rq2 rt)))"
    "same_accounts (rt_eng rt) (rt_eng (snd (r2pCancel c now rq3 rt)))"
    unfolding r2pDecline_def r2pCancel_def by (rule close)+
  show "same_accounts (rt_eng rt) (rt_eng (snd (r2pCreate c i now rq1 rt)))"
    by (simp add: r2pCreate_def Let_def split: option.split prod.split)
  show "same_accounts (rt_eng rt) (rt_eng (snd (roundCommit c now rq4 rt)))"
    "same_accounts (rt_eng rt) (rt_eng (snd (roundCommitSafe c msg now rq4 rt)))"
    "same_accounts (rt_eng rt) (rt_eng (snd (roundCommitSafe2 c msg now rq4 rt)))"
    by (auto simp: roundCommit_def roundCommitSafe_def roundCommitSafe2_def hasPending_def commit_recovering_def
        dest: CommitRound_same split: prod.split commit_outcome.split)
  show "same_accounts (rt_eng rt) (rt_eng (snd (accountHandler rq4 rt)))"
    "same_accounts (rt_eng rt) (rt_eng (snd (nonceHandler rq4 rt)))"
    by (simp_all add: accountHandler_def nonceHandler_def case_prod_beta Let_def)
  show "same_accounts (rt_eng rt) (rt_eng (snd (mintingHandler rq4 rt)))"
    unfolding mintingHandler_def Let_def case_prod_beta
    by (auto intro!: same_accounts_trans [OF _ GetAccount_same])
qed

lemma plain_pattern: "mux_matches path p \<Longrightarrow> last p \<noteq> CHR ''/'' \<Longrightarrow> path = p"
  by (auto simp: mux_matches_def)

lemma route_accounts:
  assumes "(p, h) \<in> set (node_routes n t)" "mux_matches (rq_Path rq) p"
  shows "same_accounts (rt_eng rt) (rt_eng (snd (h rq rt)))
    \<or> (\<exists>inp. is_tx rq \<and> Option.bind (rq_Body rq) (n_tx n) = Some inp
         \<and> transferred (tx_of inp) (rt_eng rt) (rt_eng (snd (h rq rt))))
    \<or> (\<exists>x. approves n rq rt x \<and> transferred x (rt_eng rt) (rt_eng (snd (h rq rt))))"
proof -
  consider (tx) "p = ''/tx''" "h = acts (n_tx n) (txHandler (n_cfg n) (t_now t))"
    | (approve) "p = ''/r2p/approve''" "h = acts (n_approve n) (r2pApprove (n_cfg n) (n_loopback n) (t_now t) (t_later t))"
    | (other) "same_accounts (rt_eng rt) (rt_eng (snd (h rq rt)))"
    using assms(1)
    by (auto simp: node_routes_def changing_routes_def Let_def acts_def acts_or_panics_def case_prod_beta
        stream_route_def events_stream_unavailable other_routes_same reading_routes_state)
  then show ?thesis
  proof cases
    case tx
    with assms(2) have path: "rq_Path rq = ''/tx''" by (auto dest: plain_pattern)
    from txHandler_accounts [of rt "n_cfg n" "t_now t" "decoded (n_tx n) rq"] path show ?thesis
      by (auto simp: tx(2) acts_def is_tx_def)
  next
    case approve
    with assms(2) have path: "rq_Path rq = ''/r2p/approve''" by (auto dest: plain_pattern)
    show ?thesis
    proof (cases rule: r2pApprove_db [of "n_cfg n" "n_loopback n" "t_now t" "t_later t" "decoded (n_approve n) rq" rt])
      case (paid inp rec x)
      then have "approves n rq rt x" using path by (auto simp: approves_def)
      with apply_db_cases [OF paid(8,9)] show ?thesis by (auto simp: approve(2) acts_def)
    qed (simp add: approve(2) acts_def)
  qed simp
qed

lemma node_root_accounts:
  "same_accounts (rt_eng rt) (rt_eng (snd (node_root n t rq rt)))
   \<or> (\<exists>x. (posts n rq rt x \<or> approves n rq rt x) \<and> transferred x (rt_eng rt) (rt_eng (snd (node_root n t rq rt))))"
proof (cases rule: node_root_cases [of n t rq rt])
  case passed
  note pass = this
  show ?thesis
  proof (cases rule: node_mux_cases [of n t rq rt])
    case (routed p h)
    have "posts n rq rt (tx_of inp)" if "is_tx rq" "Option.bind (rq_Body rq) (n_tx n) = Some inp" for inp
      using pass(1-4) that unfolding posts_def
      by (auto simp: fields_pass_def sig_pass_def sig_valid_def bind_pass_def commit_pass_def split: if_splits)
    with route_accounts [OF routed(1,2), of rt] pass(5) routed(3) show ?thesis by fastforce
  qed (simp add: pass(5))
qed simp

section \<open>Bounds\<close>

text \<open>Amounts below \<open>2^63\<close>, as in every request to pay that the node itself created.\<close>

definition amounts_ok :: "Router \<Rightarrow> bool" where
  "amounts_ok rt \<longleftrightarrow> (\<forall>(i, r) \<in> set (rt_store rt). unat (r_AmountMas r) < 9223372036854775808)"

lemma i64_pos: "0 < sint (x :: i64) \<Longrightarrow> unat x < 9223372036854775808"
  using u64_high_negative [of x] by (cases "unat x < 9223372036854775808") auto

lemma sint_small:
  assumes "unat (x :: u64) < 9223372036854775808"
  shows "sint x = int (unat x)"
proof -
  have "int (unat x) < int 9223372036854775808" using assms by (simp only: of_nat_less_iff)
  then have "uint x < 2 ^ 63" by simp
  moreover have "- (2 ^ 63) \<le> uint x" by (rule order_trans [OF _ uint_ge_0]) simp
  ultimately have "signed_take_bit 63 (uint x) = uint x" by (intro signed_take_bit_int_eq_self)
  then show ?thesis by (simp add: sint_uint)
qed

lemma minFeeMas_bounds: "0 < unat (minFeeMas a b)" "unat (minFeeMas a b) < 9223372036854775808"
proof -
  have lt: "unat x < 18446744073709551616" for x :: u64 using unsigned_less [of x, where ?'a = nat] by simp
  have "unat (x div 10000) < 9223372036854775808" for x :: u64 unfolding unat_div by (rule order_le_less_trans [OF div_le_mono [OF less_imp_le [OF lt]]]) simp
  then show "unat (minFeeMas a b) < 9223372036854775808" by (simp add: minFeeMas_def Let_def)
  show "0 < unat (minFeeMas a b)" by (auto simp: minFeeMas_def Let_def unat_gt_0)
qed

lemma posts_bounds:
  assumes "posts n rq rt x"
  shows "unat (tr_AmountMas x) < 9223372036854775808" "unat (tr_FeeMas x) < 9223372036854775808"
proof -
  from assms obtain inp where x: "x = tx_of inp" and ok: "precheck_errs (n_cfg n) (CurrentHeight (rt_eng rt)) inp = []"
    by (auto simp: posts_def)
  have fee: "0 < sint (expFee (n_cfg n) inp)"
    unfolding expFee_def by (subst sint_small [OF minFeeMas_bounds(2)]) (simp only: of_nat_0_less_iff minFeeMas_bounds)
  from ok have "0 < sint (tp_AmountMas inp)" "sint (expFee (n_cfg n) inp) \<le> sint (tp_FeeMas inp)"
    by (auto simp: precheck_errs_def split: if_splits)
  with fee show "unat (tr_AmountMas x) < 9223372036854775808" "unat (tr_FeeMas x) < 9223372036854775808"
    by (auto simp: x tx_of_def intro!: i64_pos)
qed

lemma approves_bounds:
  assumes "approves n rq rt x" "amounts_ok rt"
  shows "unat (tr_AmountMas x) < 9223372036854775808" "unat (tr_FeeMas x) < 9223372036854775808"
proof -
  from assms(1) obtain inp :: approveBody and rec k where x: "x = approve_transfer (n_cfg n) (pi_FeeMas inp) rec k"
    and "map_of (rt_store rt) (pi_ID inp) = Some rec"
    by (auto simp: approves_def)
  with assms(2) have "unat (r_AmountMas rec) < 9223372036854775808" by (auto simp: amounts_ok_def dest!: map_of_SomeD)
  then show "unat (tr_AmountMas x) < 9223372036854775808" "unat (tr_FeeMas x) < 9223372036854775808"
    by (auto simp: x approve_transfer_def Let_def minFeeMas_bounds intro: i64_pos)
qed

lemma ordered_fits:
  "posts n rq rt x \<or> approves n rq rt x \<Longrightarrow> amounts_ok rt \<Longrightarrow>
   unat (tr_AmountMas x) + unat (tr_FeeMas x) < 18446744073709551616"
  using posts_bounds [of n rq rt x] approves_bounds [of n rq rt x] by auto

text \<open>Who is touched by a transfer, and how.\<close>

lemma credit_mono:
  "total_balance db + unat x < 18446744073709551616 \<Longrightarrow>
   unat (acc_balance (acct db a)) \<le> unat (acc_balance (acct (credit b x db) a))"
  using balance_le_total [of db b] by (auto simp: u64_add_exact)

lemma ApplyTransfer_effect:
  assumes "ApplyTransfer from to amount fee nonce db = (Inr (), db')"
    and "unat amount + unat fee < 18446744073709551616" "total_balance db < 18446744073709551616"
  shows "feeReceiver db' = feeReceiver db"
    and "a \<noteq> from \<Longrightarrow> unat (acc_balance (acct db a)) \<le> unat (acc_balance (acct db' a))"
    and "acc_nonce (acct db' a) = acc_nonce (acct db a) + (if a = from then 1 else 0)"
    and "a \<notin> {from, to, feeReceiver db} \<Longrightarrow> acct db' a = acct db a"
proof -
  show "acc_nonce (acct db' a) = acc_nonce (acct db a) + (if a = from then 1 else 0)"
    using ApplyTransfer_nonce [OF assms(1)] by blast
  show "feeReceiver db' = feeReceiver db" "a \<notin> {from, to, feeReceiver db} \<Longrightarrow> acct db' a = acct db a"
    using assms(1) by (cases rule: ApplyTransfer_cases [of db "from" nonce to amount fee]; auto simp: Let_def split: if_splits)+
  show "unat (acc_balance (acct db a)) \<le> unat (acc_balance (acct db' a))" if "a \<noteq> from"
  proof (cases rule: ApplyTransfer_cases [of db "from" nonce to amount fee])
    case applied
    define d where "d = put_account from
        ((acct db from)\<lparr>acc_balance := acc_balance (acct db from) - (amount + fee), acc_nonce := nonce\<rparr>)
        (snd (db_get from db))"
    have need: "unat (amount + fee) = unat amount + unat fee" using assms(2) by (rule u64_add_exact)
    then have le: "unat amount + unat fee \<le> total_balance db"
      using applied(2) balance_le_total [of db "from"] by (simp add: u64_le_iff)
    have d: "total_balance d = total_balance db - (unat amount + unat fee)"
      unfolding d_def debit_total [OF applied(2)] by (simp add: need)
    have c: "total_balance (credit to amount d) = total_balance db - unat fee"
      using le assms(3) by (subst total_credit) (auto simp: d)
    have "acct d a = acct db a" using that by (simp add: d_def)
    with credit_mono [of d amount a to] le assms(3) d
    have m: "unat (acc_balance (acct db a)) \<le> unat (acc_balance (acct (credit to amount d) a))" by simp
    have "unat (acc_balance (acct (credit to amount d) a))
        \<le> unat (acc_balance (acct (credit (feeReceiver db) fee (credit to amount d)) a))"
      using le assms(3) c by (intro credit_mono) simp
    moreover have "db' = (if feeReceiver db \<noteq> [] then credit (feeReceiver db) fee (credit to amount d)
        else credit to amount d)"
      using assms(1) applied(3) by (auto simp: d_def Let_def split: if_splits)
    ultimately show ?thesis using m by (auto simp del: acct_credit)
  qed (use assms(1) in simp_all)
qed

section \<open>Runs of the node\<close>

lemma route_store:
  "(p, h) \<in> set (node_routes n t) \<Longrightarrow> store_next (t_id t) (rt_store rt) (rt_store (snd (h rq rt)))"
  by (auto simp: node_routes_def changing_routes_def Let_def acts_def acts_or_panics_def case_prod_beta stream_route_def
      events_stream_unavailable reading_routes_state r2pCreate_next r2pApprove_next decline_cancel_next)
    (auto simp: tx_handler_defs roundCommit_def roundCommitSafe_def roundCommitSafe2_def hasPending_def
      commit_recovering_def accountHandler_def nonceHandler_def mintingHandler_def
      split: option.split sum.split commit_outcome.split intro: store_next.same)

lemma node_root_store: "store_next (t_id t) (rt_store rt) (rt_store (snd (node_root n t rq rt)))"
proof (cases rule: node_root_cases [of n t rq rt])
  case passed
  then show ?thesis
    by (cases rule: node_mux_cases [of n t rq rt]) (auto simp: route_store store_next.same)
qed (simp add: store_next.same)

text \<open>Records are filed under their identifier, with one of four states and a positive amount.\<close>

definition record_wf :: "string \<times> r2pRecord \<Rightarrow> bool" where
  "record_wf ir \<longleftrightarrow> r_ID (snd ir) = fst ir \<and> r_Status (snd ir) \<in> {''open'', ''paid'', ''declined'', ''canceled''}
     \<and> 0 < sint (r_AmountMas (snd ir))"

text \<open>Where a record comes from: created by the node, or read from the file and closed at most once.\<close>

definition record_from :: "(string, r2pRecord) gomap \<Rightarrow> string \<times> r2pRecord \<Rightarrow> bool" where
  "record_from s0 ir \<longleftrightarrow> record_wf ir \<or> (\<exists>r0. map_of s0 (fst ir) = Some r0 \<and> rec_evolves r0 (snd ir))"

definition store_from :: "(string, r2pRecord) gomap \<Rightarrow> (string, r2pRecord) gomap \<Rightarrow> bool" where
  "store_from s0 s \<longleftrightarrow> gm_wf s \<and> (\<forall>ir \<in> set s. record_from s0 ir)"

lemma store_from_start: "gm_wf s \<Longrightarrow> store_from s s"
  by (auto simp: store_from_def record_from_def rec_evolves_def intro!: exI)

lemma store_from_update: "store_from s0 s \<Longrightarrow> record_from s0 (i, r) \<Longrightarrow> store_from s0 (AList.update i r s)"
  using set_update_subset [of i r s] by (auto simp: store_from_def gomap_simps)

lemma store_from_next: "store_next i s s' \<Longrightarrow> store_from s0 s \<Longrightarrow> store_from s0 s'"
proof (induction rule: store_next.induct)
  case (closed s j r r' now h)
  then have "record_from s0 (j, r)" by (auto simp: store_from_def dest: map_of_SomeD)
  moreover have "record_wf (j, r) \<Longrightarrow> record_wf (j, r')"
    using closed(3) by (auto simp: record_wf_def paid_def declined_def canceled_def)
  moreover have "rec_evolves r r'" using closed(2,3) unfolding rec_evolves_def by blast
  ultimately have "record_from s0 (j, r')" unfolding record_from_def using rec_evolves_trans by fastforce
  with closed show ?case by (simp add: store_from_update)
qed (simp_all add: store_from_update record_from_def record_wf_def)

lemma update_all:
  assumes "\<forall>(k, v) \<in> set m. P v" "P v"
  shows "\<forall>(k, v) \<in> set (AList.update k v m). P v"
  using assms set_update_subset [of k v m] by fastforce

lemma amounts_ok_next: "store_next i s s' \<Longrightarrow> amounts_ok (rt\<lparr>rt_store := s\<rparr>) \<Longrightarrow> amounts_ok (rt\<lparr>rt_store := s'\<rparr>)"
proof (induction rule: store_next.induct)
  case (opened r s)
  then have "unat (r_AmountMas r) < 9223372036854775808" by (intro i64_pos)
  with opened update_all [of s "\<lambda>r. unat (r_AmountMas r) < 9223372036854775808" r i] show ?case
    by (simp add: amounts_ok_def)
next
  case (closed s j r r' now h)
  then have "r_AmountMas r' = r_AmountMas r" by (auto simp: paid_def declined_def canceled_def)
  moreover have "unat (r_AmountMas r) < 9223372036854775808" using closed map_of_SomeD [OF closed(1)] by (auto simp: amounts_ok_def)
  ultimately show ?case
    using closed(4) update_all [of s "\<lambda>r. unat (r_AmountMas r) < 9223372036854775808" r' j] by (simp add: amounts_ok_def)
qed simp

text \<open>The database has distinct keys, fees go to the foundation, receipts are filed under their hash.\<close>

definition engine_wf :: "Engine \<Rightarrow> bool" where
  "engine_wf e \<longleftrightarrow> db_wf (e_db e) \<and> feeReceiver (e_db e) = ''tho1foundation'' \<and> gm_wf (e_receipts e)
     \<and> (\<forall>(k, r) \<in> set (e_receipts e). rc_TxHash r = k)"

lemma engine_wf_cong:
  "engine_wf e \<Longrightarrow> e_db e' = e_db e \<Longrightarrow> e_receipts e' = e_receipts e \<Longrightarrow> engine_wf e'"
  by (simp add: engine_wf_def)

lemma engine_wf_step:
  assumes "engine_step env e e'" "engine_wf e"
  shows "engine_wf e'"
  using assms(1)
proof cases
  case (account a)
  with assms(2) show ?thesis by (simp add: engine_wf_def eng_GetAccount_def GetAccount_def case_prod_beta)
next
  case (transfer feat wr t)
  obtain d where "e' = e\<lparr>e_db := snd (apply_db t e), e_disk := d\<rparr>"
    using transfer eng_ApplyTransfer_eq by blast
  moreover have "feeReceiver (snd (apply_db t e)) = feeReceiver (e_db e)"
    unfolding apply_db_def
    by (cases rule: ApplyTransfer_cases [of "e_db e" "tr_From t" "tr_Nonce t" "tr_To t" "tr_AmountMas t" "tr_FeeMas t"])
      (simp_all add: Let_def)
  ultimately show ?thesis using assms(2) by (simp add: engine_wf_def apply_db_def db_wf_ops)
next
  case (receipt wr now t ok reason)
  define r where "r = make_receipt env now t ok reason e"
  have "e_db e' = e_db e" "e_receipts e' = AList.update (rc_TxHash r) r (e_receipts e)"
    using receipt StoreReceipt_eq [of env wr now t ok reason e] by (auto simp: Let_def r_def)
  with assms(2) show ?thesis
    using set_update_subset [of "rc_TxHash r" r "e_receipts e"] by (fastforce simp: engine_wf_def gomap_simps)
next
  case (commit wr now)
  have "e_receipts e' = e_receipts e" using commit by (simp add: CommitRound_receipts)
  moreover have "db_wf (persistSupplyState (e_db e) h st)" for h st
    using assms(2) by (simp add: engine_wf_def persistSupplyState_def Let_def)
  ultimately show ?thesis using CommitRound_db [of env wr now e] assms(2) commit by (auto simp: engine_wf_def)
qed (use assms(2) in \<open>auto simp: PushRawTx_def RecordCommitBundle_def Let_def intro: engine_wf_cong split: sum.split\<close>)

lemma feeReceiver_simps [simp]:
  "feeReceiver (Restore m db) = feeReceiver db" "feeReceiver (InitGenesis bs db) = feeReceiver db"
proof -
  have "feeReceiver (fold (\<lambda>(addr, amt). credit addr amt) bs db) = feeReceiver db"
    by (induction bs arbitrary: db) auto
  then show "feeReceiver (Restore m db) = feeReceiver db" "feeReceiver (InitGenesis bs db) = feeReceiver db"
    by (simp_all add: Restore_def InitGenesis_def)
qed

lemma saveStateMas_db [simp]: "e_db (snd (saveStateMas env wr p e)) = e_db e"
  using saves_frame(1) [of env wr p e] by auto

lemma NewEngine_db: "e_db (NewEngine env wr disk loaded generated)
    = e_db (load_or_init_state env wr (blank_engine disk (choose_key loaded generated)))"
  by (simp add: NewEngine_def Let_def case_prod_beta)

lemma load_or_init_state_wf:
  assumes "db_wf (e_db e)"
  shows "db_wf (e_db (load_or_init_state env wr e))
    \<and> feeReceiver (e_db (load_or_init_state env wr e)) = feeReceiver (e_db e)"
  by (cases rule: loadStateMas_cases [of env statePathV2 e])
    (use assms in \<open>simp_all add: load_or_init_state_def db_wf_ops Let_def split: option.split\<close>)

lemma loaded_receipts_filed:
  "gm_wf (fold (\<lambda>r. AList.update (rc_TxHash r) r) rs m) \<and> (\<forall>(k, r) \<in> set (fold (\<lambda>r. AList.update (rc_TxHash r) r) rs m). rc_TxHash r = k)"
  if "gm_wf m" "\<forall>(k, r) \<in> set m. rc_TxHash r = k"
  using that
proof (induction rs arbitrary: m)
  case (Cons r rs)
  have "gm_wf (AList.update (rc_TxHash r) r m)" using Cons.prems by (simp add: gomap_simps)
  moreover have "\<forall>(k, r) \<in> set (AList.update (rc_TxHash r) r m). rc_TxHash r = k"
    using Cons.prems(2) set_update_subset [of "rc_TxHash r" r m] by fastforce
  ultimately show ?case using Cons.IH by simp
qed simp

lemma loadLedger_receipts:
  assumes "e_receipts e = []"
  shows "gm_wf (e_receipts (snd (loadLedger env p e))) \<and> (\<forall>(k, r) \<in> set (e_receipts (snd (loadLedger env p e))). rc_TxHash r = k)"
proof -
  have "gm_wf (fold (\<lambda>r. AList.update (rc_TxHash r) r) rs [])"
    "(k, r) \<in> set (fold (\<lambda>r. AList.update (rc_TxHash r) r) rs []) \<Longrightarrow> rc_TxHash r = k" for rs k r
    using loaded_receipts_filed [of "[]" rs] by auto
  with assms show ?thesis unfolding loadLedger_def Let_def by (auto split: option.split)
qed

lemma engine_wf_start:
  assumes "engine_start env e"
  shows "engine_wf e"
  using assms
proof cases
  case (1 wr disk loaded generated)
  let ?b = "blank_engine disk (choose_key loaded generated)"
  have "db_wf (e_db ?b)" "feeReceiver (e_db ?b) = ''tho1foundation''"
    by (simp_all add: blank_engine_def SetFeeReceiver_def NewDB_def db_wf_def)
  with load_or_init_state_wf [of ?b env wr] 1
  have "db_wf (e_db e) \<and> feeReceiver (e_db e) = ''tho1foundation''" by (simp add: NewEngine_db)
  moreover obtain db d where "e = snd (loadLedger env ledgerPath (?b\<lparr>e_db := db, e_disk := d\<rparr>))"
    using NewEngine_load 1 by blast
  then have "gm_wf (e_receipts e) \<and> (\<forall>(k, r) \<in> set (e_receipts e). rc_TxHash r = k)"
    using loadLedger_receipts [of "?b\<lparr>e_db := db, e_disk := d\<rparr>"] by (simp add: blank_engine_def)
  ultimately show ?thesis by (simp add: engine_wf_def)
qed

lemma engine_wf_runs: "engine_runs env e e' \<Longrightarrow> engine_wf e \<Longrightarrow> engine_wf e'"
  by (induction rule: rtranclp_induct) (auto intro: engine_wf_step)

lemma node_step_store: "node_step n rt rt' \<Longrightarrow> \<exists>i. store_next i (rt_store rt) (rt_store rt')"
  by (induction rule: node_step.induct) (auto intro: node_root_store store_next.same)

lemma node_step_amounts: "node_step n rt rt' \<Longrightarrow> amounts_ok rt \<Longrightarrow> amounts_ok rt'"
  using amounts_ok_next [of _ "rt_store rt" "rt_store rt'"] node_step_store [of n rt rt'] unfolding amounts_ok_def
  by simp blast

text \<open>From any start the engine stays well-formed.\<close>

interpretation node_sys: invariant_system "node_init n" "node_step n" "\<lambda>rt. True" "\<lambda>rt. engine_wf (rt_eng rt)" for n
proof
  show "engine_wf (rt_eng rt)" if "node_init n rt" for rt
    using node_sim.init_sim [OF that] by (rule engine_wf_start)
  show "engine_wf (rt_eng rt')" if "node_step n rt rt'" "engine_wf (rt_eng rt)" for rt rt'
    using node_step_runs [OF that(1)] that(2) by (rule engine_wf_runs)
qed simp

text \<open>Starts without a ledger reach only what such an engine reaches.\<close>

interpretation node_fresh_sys: transition_system "node_fresh n" "node_step n" "\<lambda>rt. True" for n
  by unfold_locales simp

abbreviation node_reachable :: "NodeEnv \<Rightarrow> Router \<Rightarrow> bool" where
  "node_reachable \<equiv> node_fresh_sys.reachable"

lemma node_reachable_engine: "node_reachable n rt \<Longrightarrow> engine_reachable (c_env (n_cfg n)) (rt_eng rt)"
  using node_fresh_sim.reachable_sim [of n] by (auto simp: node_fresh_sys.reachable_def engine_sys.reachable_def)

section \<open>Properties\<close>

text \<open>Value is conserved by every sequence of requests, as long as no loaded amount is too large.\<close>

definition node_wf :: "Router \<Rightarrow> bool" where
  "node_wf rt \<longleftrightarrow> engine_wf (rt_eng rt) \<and> amounts_ok rt"

lemma node_wf_step: "node_step n rt rt' \<Longrightarrow> node_wf rt \<Longrightarrow> node_wf rt'"
  using node_sys.inv_step [of n rt rt'] node_step_amounts [of n rt rt'] by (simp add: node_wf_def)

lemma node_conserves:
  assumes "node_wf rt" and "total_balance (e_db (rt_eng rt)) < 2 ^ 64" and "(node_step n)\<^sup>*\<^sup>* rt rt'"
  shows "node_wf rt' \<and> total_balance (e_db (rt_eng rt')) = total_balance (e_db (rt_eng rt))"
proof -
  have req: "total_balance (e_db (rt_eng (snd (node_root n t rq s)))) = total_balance (e_db (rt_eng s))"
    if wf: "node_wf s" and small: "total_balance (e_db (rt_eng s)) < 18446744073709551616" for s t rq
  proof (cases "same_accounts (rt_eng s) (rt_eng (snd (node_root n t rq s)))")
    case False
    with node_root_accounts obtain x where x: "posts n rq s x \<or> approves n rq s x"
      "transferred x (rt_eng s) (rt_eng (snd (node_root n t rq s)))" by blast
    from x(1) wf have "unat (tr_AmountMas x) + unat (tr_FeeMas x) < 18446744073709551616"
      by (auto simp: node_wf_def intro!: ordered_fits)
    from x(2) ApplyTransfer_total [OF _ this small] wf
    show ?thesis by (fastforce simp: transferred_def apply_db_def node_wf_def engine_wf_def)
  qed (simp add: same_accounts_def)
  from assms(3) show ?thesis
  proof (induction rule: rtranclp_induct)
    case (step s s')
    then have "node_wf s'" using node_wf_step by blast
    with step assms(2) show ?case by (auto elim!: node_step.cases simp: req)
  qed (use assms(1) in simp)
qed

lemma ApplyTransfer_touches:
  assumes "ApplyTransfer from to amount fee nonce db = (Inr (), db')" "acct db' a \<noteq> acct db a"
  shows "a \<in> {from, to, feeReceiver db}"
  using assms by (cases rule: ApplyTransfer_cases [of db "from" nonce to amount fee]) (auto simp: Let_def split: if_splits)

text \<open>
  Property C2. Nobody else moves an account: in a node that started on any files and has answered
  any requests one after the other, if answering one more request changes an account, then
  the request is a POST to \<open>/tx\<close> whose body passed every precheck (with signatures required, it is
  signed under a key that the binding file assigns to the sender) or an approval of an open request
  to pay that names its payer; exactly the transfer it orders has been applied; the account is its
  sender, its recipient or the fee receiver; and only the sender's nonce moves, by one. Provided
  the request-to-pay file read at the start held no amount of \<open>2^63\<close> or more, which the program does
  not check, and the balances at the start add up to less than \<open>2^64\<close>, only the sender's balance
  falls. Every other route, known or unknown, with any method, path and body, leaves all accounts
  as they were.
\<close>

theorem node_accounts_authorised:
  assumes "node_init n rt0" and "(node_step n)\<^sup>*\<^sup>* rt0 rt" and "rt' = snd (node_root n t rq rt)"
    and "acct (e_db (rt_eng rt')) a \<noteq> acct (e_db (rt_eng rt)) a"
  shows "\<exists>x. (posts n rq rt x \<or> approves n rq rt x)
    \<and> apply_db x (rt_eng rt) = (Inr (), e_db (rt_eng rt'))
    \<and> a \<in> {tr_From x, tr_To x, ''tho1foundation''}
    \<and> acc_nonce (acct (e_db (rt_eng rt')) a) = acc_nonce (acct (e_db (rt_eng rt)) a) + (if a = tr_From x then 1 else 0)
    \<and> ((\<forall>(i, r) \<in> set (rt_store rt0). unat (r_AmountMas r) < 2 ^ 63) \<and> total_balance (e_db (rt_eng rt0)) < 2 ^ 64
        \<and> unat (acc_balance (acct (e_db (rt_eng rt')) a)) < unat (acc_balance (acct (e_db (rt_eng rt)) a)) \<longrightarrow> a = tr_From x)"
proof -
  have wf0: "engine_wf (rt_eng rt0)" using assms(1) by (rule node_sys.inv_init)
  with engine_wf_runs [OF node_sim.run_sim [OF assms(2)]] have wf: "engine_wf (rt_eng rt)" by blast
  from node_root_accounts [of rt n t rq] assms(3,4) obtain x where x: "posts n rq rt x \<or> approves n rq rt x"
    and tr: "apply_db x (rt_eng rt) = (Inr (), e_db (rt_eng rt'))"
    by (auto simp: same_accounts_def transferred_def)
  have "a \<in> {tr_From x, tr_To x, ''tho1foundation''}"
    using ApplyTransfer_touches [OF tr [unfolded apply_db_def] assms(4)] wf by (simp add: engine_wf_def)
  moreover have "a = tr_From x"
    if amounts: "\<forall>(i, r) \<in> set (rt_store rt0). unat (r_AmountMas r) < 2 ^ 63"
      and total: "total_balance (e_db (rt_eng rt0)) < 2 ^ 64"
      and falls: "unat (acc_balance (acct (e_db (rt_eng rt')) a)) < unat (acc_balance (acct (e_db (rt_eng rt)) a))"
  proof -
    have "node_wf rt0" using wf0 amounts by (simp add: node_wf_def amounts_ok_def)
    from node_conserves [OF this total assms(2)] total
    have "amounts_ok rt" and small: "total_balance (e_db (rt_eng rt)) < 18446744073709551616" by (simp_all add: node_wf_def)
    with x have "unat (tr_AmountMas x) + unat (tr_FeeMas x) < 18446744073709551616" by (intro ordered_fits)
    from ApplyTransfer_effect(2) [OF tr [unfolded apply_db_def] this small, of a] falls show ?thesis
      by (cases "a = tr_From x") auto
  qed
  ultimately show ?thesis using x tr ApplyTransfer_nonce [OF tr [unfolded apply_db_def], of a] by blast
qed

lemma node_step_nonce:
  assumes "node_step n rt rt'"
  shows "acc_nonce (acct (e_db (rt_eng rt')) a) = acc_nonce (acct (e_db (rt_eng rt)) a)
      \<and> length (e_leaves (rt_eng rt)) \<le> length (e_leaves (rt_eng rt'))
    \<or> acc_nonce (acct (e_db (rt_eng rt')) a) = acc_nonce (acct (e_db (rt_eng rt)) a) + 1
      \<and> length (e_leaves (rt_eng rt)) < length (e_leaves (rt_eng rt'))"
proof -
  have run: "length (e_leaves e) \<le> length (e_leaves e')" if "engine_runs env e e'" for env e e'
    using that by (induction rule: rtranclp_induct) (auto dest!: engine_step_leaves)
  have le: "length (e_leaves (rt_eng rt)) \<le> length (e_leaves (rt_eng rt'))"
    using run [OF node_sim.step_sim [OF assms]] .
  from assms show ?thesis
  proof cases
    case (request t rq)
    show ?thesis
    proof (cases "same_accounts (rt_eng rt) (rt_eng rt')")
      case False
      with node_root_accounts [of rt n t rq] request obtain x
        where x: "apply_db x (rt_eng rt) = (Inr (), e_db (rt_eng rt'))"
          "length (e_leaves (rt_eng rt')) = Suc (length (e_leaves (rt_eng rt)))"
        by (auto simp: transferred_def)
      from ApplyTransfer_nonce [OF x(1) [unfolded apply_db_def], of a] x(2) show ?thesis by auto
    qed (use le in \<open>simp add: same_accounts_def\<close>)
  qed (use le in simp)
qed

lemma node_run_nonce:
  assumes "(node_step n)\<^sup>*\<^sup>* rt rt'"
    and "unat (acc_nonce (acct (e_db (rt_eng rt)) a)) + length (e_leaves (rt_eng rt')) < 2 ^ 64 + length (e_leaves (rt_eng rt))"
  shows "unat (acc_nonce (acct (e_db (rt_eng rt)) a)) \<le> unat (acc_nonce (acct (e_db (rt_eng rt')) a))
    \<and> unat (acc_nonce (acct (e_db (rt_eng rt')) a)) + length (e_leaves (rt_eng rt))
        \<le> unat (acc_nonce (acct (e_db (rt_eng rt)) a)) + length (e_leaves (rt_eng rt'))"
  using assms
proof (induction rule: rtranclp_induct)
  case (step s s')
  from node_step_nonce [OF step.hyps(2), of a] show ?case
  proof (elim disjE conjE)
    assume "acc_nonce (acct (e_db (rt_eng s')) a) = acc_nonce (acct (e_db (rt_eng s)) a)"
      "length (e_leaves (rt_eng s)) \<le> length (e_leaves (rt_eng s'))"
    with step.IH step.prems show ?thesis by simp
  next
    assume n: "acc_nonce (acct (e_db (rt_eng s')) a) = acc_nonce (acct (e_db (rt_eng s)) a) + 1"
      "length (e_leaves (rt_eng s)) < length (e_leaves (rt_eng s'))"
    with step.IH step.prems have ih: "unat (acc_nonce (acct (e_db (rt_eng rt)) a)) \<le> unat (acc_nonce (acct (e_db (rt_eng s)) a))"
      "unat (acc_nonce (acct (e_db (rt_eng s)) a)) + length (e_leaves (rt_eng rt))
        \<le> unat (acc_nonce (acct (e_db (rt_eng rt)) a)) + length (e_leaves (rt_eng s))" by simp_all
    with n step.prems have "unat (acc_nonce (acct (e_db (rt_eng s)) a) + 1) = unat (acc_nonce (acct (e_db (rt_eng s)) a)) + 1"
      by (subst u64_add_exact) simp_all
    with n ih show ?thesis by simp
  qed
qed simp

text \<open>
  Property C9. No transfer is replayed: once an account's nonce has reached that of a transfer,
  the transfer is refused as \<open>bad_nonce\<close> in every later state of the node, however many requests and
  round commits lie between, until the nonce has run through all 64-bit numbers.
\<close>

theorem node_no_replay:
  assumes "(node_step n)\<^sup>*\<^sup>* rt rt'" and "tr_Nonce x \<le> acc_nonce (acct (e_db (rt_eng rt)) (tr_From x))"
    and "unat (acc_nonce (acct (e_db (rt_eng rt)) (tr_From x))) + length (e_leaves (rt_eng rt')) + 1
      < 2 ^ 64 + length (e_leaves (rt_eng rt))"
  shows "fst (apply_db x (rt_eng rt')) = Inl ''bad_nonce''"
proof -
  let ?n = "acc_nonce (acct (e_db (rt_eng rt)) (tr_From x))" and ?n' = "acc_nonce (acct (e_db (rt_eng rt')) (tr_From x))"
  have le: "unat ?n \<le> unat ?n'" "unat ?n' + length (e_leaves (rt_eng rt)) \<le> unat ?n + length (e_leaves (rt_eng rt'))"
    using node_run_nonce [OF assms(1), of "tr_From x"] assms(3) by simp_all
  then have "unat (?n' + 1) = unat ?n' + 1" using assms(3) by (subst u64_add_exact) simp_all
  moreover have "unat (tr_Nonce x) \<le> unat ?n" using assms(2) by (simp add: u64_le_iff)
  ultimately have "unat (tr_Nonce x) < unat (?n' + 1)" using le by linarith
  then have "?n' + 1 \<noteq> tr_Nonce x" by auto
  then show ?thesis by (simp add: apply_db_def ApplyTransfer_def case_prod_beta)
qed

text \<open>
  Property C10. The state of a node stays well-formed from any start and under any requests: the
  account table, the key/value store, the receipts and the requests to pay have one entry per key,
  receipts, those read from a ledger included, are filed under their own hash, and fees go to
  the foundation. A request to pay either is filed under its own identifier with one of the
  four states and a positive amount below \<open>2^63\<close>, as the node creates them, or is one that the file
  held at the start, unchanged or, if the file had it as open, closed once with its parties and amount
  kept; of the file it is assumed only that it decodes to a map, one record per key.
\<close>

theorem node_well_formed:
  assumes "node_init n rt0" and "distinct (map fst (rt_store rt0))" and "(node_step n)\<^sup>*\<^sup>* rt0 rt"
  shows "distinct (map fst (accts (e_db (rt_eng rt)))) \<and> distinct (map fst (kv (e_db (rt_eng rt))))
    \<and> distinct (map fst (e_receipts (rt_eng rt))) \<and> distinct (map fst (rt_store rt))
    \<and> (\<forall>(h, r) \<in> set (e_receipts (rt_eng rt)). rc_TxHash r = h)
    \<and> feeReceiver (e_db (rt_eng rt)) = ''tho1foundation''
    \<and> (\<forall>(i, r) \<in> set (rt_store rt).
         r_ID r = i \<and> r_Status r \<in> {''open'', ''paid'', ''declined'', ''canceled''} \<and> 0 < sint (r_AmountMas r)
         \<or> (\<exists>r0. map_of (rt_store rt0) i = Some r0 \<and> (r = r0 \<or> r_Status r0 = ''open''
              \<and> (\<exists>now h. r = paid now h r0 \<or> r = declined now r0 \<or> r = canceled now r0))))"
proof -
  have "engine_wf (rt_eng rt)"
    using engine_wf_runs [OF node_sim.run_sim [OF assms(3)]] node_sys.inv_init [OF assms(1)] by blast
  moreover from assms(3) have "store_from (rt_store rt0) (rt_store rt)"
    by (induction rule: rtranclp_induct)
      (use assms(2) in \<open>auto simp: intro: store_from_start store_from_next dest: node_step_store\<close>)
  ultimately show ?thesis
    by (auto simp: engine_wf_def db_wf_def store_from_def record_from_def record_wf_def rec_evolves_def)
qed

text \<open>
  Fact. A loaded amount can break the accounts: an open request to pay of \<open>2^64 - 1\<close> in the file
  is loaded as it is, and approving it wraps the sum of amount and fee. With a payer who has 100 and
  a payee who has 50, the payee's balance falls to 49; with a payee who has nothing, almost \<open>2^64\<close> units come into being.
\<close>

definition huge_rec :: r2pRecord where
  "huge_rec = demo_rec\<lparr>r_AmountMas := 18446744073709551615\<rparr>"

definition huge_cfg :: Config where
  "huge_cfg = demo_cfg\<lparr>c_decR2P := (\<lambda>b. Some [(''a1'', huge_rec)])\<rparr>"

definition huge_rt :: "u64 \<Rightarrow> Router" where
  "huge_rt bob = SetR2PStorage huge_cfg ''r2p.json''
     \<lparr>rt_eng = (blank_engine [(''r2p.json'', [1])] ([], []))\<lparr>e_db := put_account ''tho1bob'' \<lparr>acc_balance = bob, acc_nonce = 0\<rparr> demo_db\<rparr>,
      rt_store = [], rt_path = [], rt_bindMismatch = 0, rt_badSig = 0\<rparr>"

definition huge_rq :: "approveBody Request" where
  "huge_rq = demo_rq\<lparr>rq_Body := Some \<lparr>pi_ID = ''a1'', pi_Party = [], pi_FeeMas = 2\<rparr>\<rparr>"

lemma r2pApprove_pay_db:
  assumes "approve_check c rq rt = (Inr (i, rid, t), rt1)"
  shows "e_db (rt_eng (snd (r2pApprove c loopback now later rq rt))) = snd (apply_db t (rt_eng rt1))"
  using assms approve_pay_db [of c "devFreeR2PEnabled c loopback rq" now rid t rt1]
  by (auto simp: r2pApprove_def approve_finish_def split: prod.split sum.split)

definition huge_db :: "u64 \<Rightarrow> DB" where
  "huge_db bob = snd (apply_db (approve_transfer huge_cfg 2 huge_rec 1) (rt_eng (huge_rt bob)))"

lemma huge_approved: "e_db (rt_eng (snd (r2pApprove huge_cfg (\<lambda>a. False) now later huge_rq (huge_rt bob)))) = huge_db bob"
proof -
  let ?e = "rt_eng (huge_rt bob)"
  have store: "rt_store (huge_rt bob) = [(''a1'', huge_rec)]"
    by (simp add: huge_rt_def SetR2PStorage_def ReadFile_def blank_engine_def huge_cfg_def Let_def)
  have nonce: "acc_nonce (acct (e_db ?e) ''tho1alice'') = 0"
    by (simp add: huge_rt_def SetR2PStorage_def ReadFile_def blank_engine_def huge_cfg_def Let_def) (simp add: acct_def demo_db_def)
  have "approve_check huge_cfg huge_rq (huge_rt bob) = (Inr (''a1'', ''a1'', approve_transfer huge_cfg 2 huge_rec 1),
      (huge_rt bob)\<lparr>rt_eng := snd (eng_GetAccount ''tho1alice'' ?e)\<rparr>)"
    by (subst approve_check_intro [of _ _ "\<lparr>pi_ID = ''a1'', pi_Party = [], pi_FeeMas = 2\<rparr>" _ huge_rec])
      (simp_all add: huge_rq_def demo_rq_def store huge_rec_def demo_rec_def featR2P_def huge_cfg_def demo_cfg_def
        party_ok_iff str_simps nonce)
  from r2pApprove_pay_db [OF this] show ?thesis
    using apply_db_after_get [of "approve_transfer huge_cfg 2 huge_rec 1" ?e]
    by (simp add: huge_db_def approve_transfer_def huge_rec_def demo_rec_def Let_def)
qed

lemma huge_balances:
  "map (\<lambda>a. acc_balance (acct (huge_db 50) a)) [''tho1alice'', ''tho1bob'', ''tho1foundation''] = [99, 49, 2]"
  "map (\<lambda>a. acc_balance (acct (huge_db 0) a)) [''tho1alice'', ''tho1bob'', ''tho1foundation''] = [99, 18446744073709551615, 2]"
  by code_simp+

theorem loaded_amount_wraps:
  "map_of (rt_store (huge_rt bob)) ''a1'' = Some huge_rec"
  "map (\<lambda>a. acc_balance (acct (e_db (rt_eng (snd (r2pApprove huge_cfg (\<lambda>a. False) 9 10 huge_rq (huge_rt 50))))) a))
     [''tho1alice'', ''tho1bob'', ''tho1foundation''] = [99, 49, 2]"
  "map (\<lambda>a. acc_balance (acct (e_db (rt_eng (snd (r2pApprove huge_cfg (\<lambda>a. False) 9 10 huge_rq (huge_rt 0))))) a))
     [''tho1alice'', ''tho1bob'', ''tho1foundation''] = [99, 18446744073709551615, 2]"
  unfolding huge_approved by (simp add: huge_rt_def SetR2PStorage_def ReadFile_def blank_engine_def huge_cfg_def Let_def, rule huge_balances, rule huge_balances)

text \<open>Runs in which the eight random bytes of a request do not spell the identifier \<open>i\<close>.\<close>

inductive node_step_apart :: "NodeEnv \<Rightarrow> string \<Rightarrow> Router \<Rightarrow> Router \<Rightarrow> bool" for n i where
  request_apart: "t_id t \<noteq> i \<Longrightarrow> node_step_apart n i rt (snd (node_root n t rq rt))"
| deliver_apart: "hub_step (e_hub (rt_eng rt)) h \<Longrightarrow> node_step_apart n i rt (rt\<lparr>rt_eng := (rt_eng rt)\<lparr>e_hub := h\<rparr>\<rparr>)"

lemma store_next_apart:
  assumes "store_next j s s'" "j \<noteq> i" "map_of s i = Some r"
  shows "\<exists>r'. map_of s' i = Some r' \<and> rec_evolves r r'"
  using assms
proof cases
  case (closed k r1 r' now h)
  then have "rec_evolves r1 r'" unfolding rec_evolves_def by blast
  with closed assms(3) show ?thesis by (cases "k = i") (auto simp: gomap_simps rec_evolves_def)
qed (auto simp: gomap_simps rec_evolves_def)

lemma node_step_apart_evolves:
  assumes "node_step_apart n i rt rt'" "map_of (rt_store rt) i = Some r"
  shows "\<exists>r'. map_of (rt_store rt') i = Some r' \<and> rec_evolves r r'"
  using assms(1)
proof cases
  case (request_apart t rq)
  with store_next_apart [OF node_root_store _ assms(2), of t n rq] show ?thesis by simp
qed (use assms(2) in \<open>simp add: rec_evolves_def\<close>)

text \<open>
  Property C8. The life cycle of a request to pay under any HTTP requests that are answered one
  after the other, as long as no later request draws the record's identifier again (eight random
  bytes, of which the program checks neither the error nor whether they are in use): the record is never removed, its
  parties, amount, memo and creation time never change, an open record is closed at most once, as
  paid, declined or canceled, and a closed record never changes again.
\<close>

theorem node_r2p_life_cycle:
  assumes "(node_step_apart n i)\<^sup>*\<^sup>* rt rt'" and "map_of (rt_store rt) i = Some r"
  shows "\<exists>r'. map_of (rt_store rt') i = Some r'
    \<and> (if r_Status r = ''open''
       then r' = r \<or> (\<exists>now h. r' = paid now h r \<or> r' = declined now r \<or> r' = canceled now r)
       else r' = r)"
proof -
  from assms(1) have "\<exists>r'. map_of (rt_store rt') i = Some r' \<and> rec_evolves r r'"
  proof (induction rule: rtranclp_induct)
    case (step s s')
    then show ?case using node_step_apart_evolves rec_evolves_trans by blast
  qed (use assms(2) in \<open>simp add: rec_evolves_def\<close>)
  then show ?thesis by (auto simp: rec_evolves_def)
qed

text \<open>
  Fact. An identifier that is drawn again overwrites: a create whose random bytes spell the
  identifier of an existing record replaces that record, whatever its state, by a new open one.
\<close>

theorem create_overwrites:
  assumes "rs_status (fst (r2pCreate c i now rq rt)) = 200"
  shows "\<exists>r. map_of (rt_store (snd (r2pCreate c i now rq rt))) i = Some r \<and> r_Status r = ''open'' \<and> r_CreatedUTC r = now
    \<and> r_TxHash r = []"
  using assms
  by (auto simp: r2pCreate_def Let_def reply_def status_only_def not_implemented_def new_record_def gomap_simps
      split: if_splits option.splits)

section \<open>A node at work\<close>

definition demo_nenv :: NodeEnv where
  "demo_nenv = \<lparr>n_cfg = demo_cfg, n_loopback = (\<lambda>a. False), n_wallet = demo_wallet,
     n_build = \<lparr>bi_Version = ''dev'', bi_Commit = [], bi_Date = [], bi_Go = [], bi_OS = [], bi_Arch = []\<rparr>,
     n_invariants = (\<lambda>rq rt. status_only 200), n_tx = (\<lambda>b. Some demo_pre),
     n_create = (\<lambda>b. Some \<lparr>ci_From = ''tho1bob'', ci_To = ''tho1alice'', ci_AmountMas = 3, ci_Memo = []\<rparr>),
     n_approve = (\<lambda>b. Some \<lparr>pi_ID = ''a1'', pi_Party = [], pi_FeeMas = 0\<rparr>),
     n_decline = (\<lambda>b. Some \<lparr>pi_ID = ''a1'', pi_Party = []\<rparr>), n_cancel = (\<lambda>b. Some \<lparr>pi_ID = ''a1'', pi_Party = []\<rparr>),
     n_words = (\<lambda>b. None)\<rparr>"

definition demo_tick :: Tick where
  "demo_tick = \<lparr>t_now = 9, t_later = 10, t_stamp = [], t_rand = [1, 2, 3, 4, 5, 6, 7, 8], t_mnemonic = Inl [], t_panic = [],
     t_process = \<lparr>p_uptime = 1, p_goroutines = 1, p_alloc = 0, p_cmdline = JNum 0, p_memstats = JNum 0\<rparr>\<rparr>"

definition demo_raw :: "string \<Rightarrow> bytes Request" where
  "demo_raw path = \<lparr>rq_Method = ''POST'', rq_Path = path, rq_Header = (\<lambda>k. []), rq_Query = (\<lambda>k. []), rq_Remote = [],
     rq_Body = Some []\<rparr>"

lemma demo_node_tx:
  "node_root demo_nenv demo_tick (demo_raw ''/tx'') rt = tx_root demo_cfg 9 demo_post rt"
  by (simp add: node_root_tx demo_raw_def demo_nenv_def demo_tick_def decoded_def demo_post_def)

definition demo_after :: Router where
  "demo_after = snd (tx_root demo_cfg 9 demo_post demo_rt)"

lemma demo_after_step: "node_step demo_nenv demo_rt demo_after"
  using node_step.request [of demo_nenv demo_rt demo_tick "demo_raw ''/tx''"] by (simp add: demo_node_tx demo_after_def)

lemma demo_is_tx: "is_tx demo_post"
  by (simp add: is_tx_def demo_post_def)

lemma demo_after_db: "apply_db (tx_of demo_pre) (rt_eng demo_rt) = (Inr (), e_db (rt_eng demo_after))"
proof (cases rule: tx_root_cases [OF demo_is_tx, of demo_cfg 9 demo_rt, case_names stopped handled])
  case handled
  then have "applied (fst (txHandler demo_cfg 9 demo_post demo_rt))" using demo_applied by simp
  with demo_is_tx obtain inp where "rq_Body demo_post = Some inp"
    "apply_db (tx_of inp) (rt_eng demo_rt) = (Inr (), e_db (rt_eng (snd (txHandler demo_cfg 9 demo_post demo_rt))))"
    by (rule txPost_ok)
  with handled show ?thesis by (simp add: demo_after_def demo_post_def)
qed (use demo_applied in simp)

lemma demo_after_alice: "acct (e_db (rt_eng demo_after)) ''tho1alice'' = \<lparr>acc_balance = 94, acc_nonce = 1\<rparr>"
proof -
  have "acct (snd (apply_db (tx_of demo_pre) (rt_eng demo_rt))) ''tho1alice'' = \<lparr>acc_balance = 94, acc_nonce = 1\<rparr>"
    by code_simp
  then show ?thesis by (simp add: demo_after_db)
qed

lemma tx_root_leaves:
  assumes "is_tx rq"
  shows "length (e_leaves (rt_eng (snd (tx_root c now rq rt)))) \<le> Suc (length (e_leaves (rt_eng rt)))"
proof (cases rule: tx_root_cases [OF assms, of c now rt, case_names stopped handled])
  case handled
  then show ?thesis
    using assms by (auto simp: tx_handler_defs split: option.split sum.split)
qed simp

theorem node_no_replay_witness:
  "fst (apply_db (tx_of demo_pre) (rt_eng (snd (tx_root demo_cfg 9 demo_post demo_after)))) = Inl ''bad_nonce''"
proof (rule node_no_replay [of demo_nenv demo_after])
  show "(node_step demo_nenv)\<^sup>*\<^sup>* demo_after (snd (tx_root demo_cfg 9 demo_post demo_after))"
    using node_step.request [of demo_nenv demo_after demo_tick "demo_raw ''/tx''"] by (auto simp: demo_node_tx)
  show "unat (acc_nonce (acct (e_db (rt_eng demo_after)) (tr_From (tx_of demo_pre))))
      + length (e_leaves (rt_eng (snd (tx_root demo_cfg 9 demo_post demo_after)))) + 1
    < 2 ^ 64 + length (e_leaves (rt_eng demo_after))"
    using tx_root_leaves [of demo_post demo_cfg 9 demo_after]
    by (simp add: tx_of_def demo_pre_def demo_after_alice is_tx_def demo_post_def)
qed (simp add: tx_of_def demo_pre_def demo_after_alice)

text \<open>A fresh node that answers one transfer, and a request to pay that is approved.\<close>

definition demo_start :: Router where
  "demo_start = node_start demo_cfg ''.'' [] (Some (replicate 32 1, replicate 64 2)) None"

definition demo_next :: Router where
  "demo_next = snd (tx_root demo_cfg 9 demo_post demo_start)"

lemma demo_start_ok: "node_init demo_nenv demo_start" "node_fresh demo_nenv demo_start" "rt_store demo_start = []"
proof -
  have cfg: "n_cfg demo_nenv = demo_cfg" by (simp add: demo_nenv_def)
  show "node_init demo_nenv demo_start" unfolding demo_start_def cfg [symmetric] by (rule node_init.intros)
  show "node_fresh demo_nenv demo_start" unfolding demo_start_def cfg [symmetric] by (rule node_fresh.intros) simp
  show "rt_store demo_start = []"
    by (simp add: demo_start_def node_start_def SetR2PStorage_def demo_cfg_def Let_def split: option.split)
qed

lemma demo_next_step: "node_step demo_nenv demo_start demo_next"
  using node_step.request [of demo_nenv demo_start demo_tick "demo_raw ''/tx''"] by (simp add: demo_node_tx demo_next_def)

lemma demo_start_total: "total_balance (e_db (rt_eng demo_start)) = 20000000"
proof -
  have "total_balance (InitGenesis genesis (SetFeeReceiver ''tho1foundation'' NewDB)) = 20000000"
    by (simp add: InitGenesis_def genesis_def credit_def db_get_def put_account_def zeroAccount_def SetFeeReceiver_def NewDB_def
        total_balance_def gm_total_def)
  then show ?thesis
    by (simp add: demo_start_def node_start_def NewEngine_db load_or_init_state_def loadStateMas_def
        loadStateMicro_def ReadFile_def blank_engine_def Let_def)
qed

lemma demo_next_bob: "acc_balance (acct (e_db (rt_eng demo_next)) ''tho1bob'') = 5"
  "acc_balance (acct (e_db (rt_eng demo_start)) ''tho1bob'') = 0"
  by code_simp+

theorem node_accounts_authorised_witness:
  "\<exists>x. (posts demo_nenv (demo_raw ''/tx'') demo_start x \<or> approves demo_nenv (demo_raw ''/tx'') demo_start x)
    \<and> apply_db x (rt_eng demo_start) = (Inr (), e_db (rt_eng demo_next)) \<and> tr_To x = ''tho1bob''"
proof -
  have changed: "acct (e_db (rt_eng demo_next)) ''tho1bob'' \<noteq> acct (e_db (rt_eng demo_start)) ''tho1bob''"
    using demo_next_bob by auto
  have served: "demo_next = snd (node_root demo_nenv demo_tick (demo_raw ''/tx'') demo_start)"
    by (simp add: demo_node_tx demo_next_def)
  from node_accounts_authorised [OF demo_start_ok(1) rtranclp.rtrancl_refl served changed]
  obtain x where x: "posts demo_nenv (demo_raw ''/tx'') demo_start x \<or> approves demo_nenv (demo_raw ''/tx'') demo_start x"
    "apply_db x (rt_eng demo_start) = (Inr (), e_db (rt_eng demo_next))" by blast
  from x(1) have "tr_To x = ''tho1bob''"
    by (auto simp: posts_def approves_def demo_raw_def demo_nenv_def tx_of_def demo_pre_def)
  with x show ?thesis by blast
qed

lemma demo_next_leaves: "length (e_leaves (rt_eng demo_next)) + 1 < 2 ^ 64"
proof -
  have "e_leaves (rt_eng demo_start) = []"
    using fresh_start_eq [OF fresh_start.intros [of "[]" "c_env demo_cfg" "c_wr demo_cfg"]]
    by (simp add: demo_start_def node_start_def Let_def)
  then show ?thesis
    using tx_root_leaves [of demo_post demo_cfg 9 demo_start] by (simp add: demo_next_def is_tx_def demo_post_def)
qed

theorem node_well_formed_witness:
  "distinct (map fst (accts (e_db (rt_eng demo_next)))) \<and> feeReceiver (e_db (rt_eng demo_next)) = ''tho1foundation''"
  using node_well_formed [OF demo_start_ok(1) _ r_into_rtranclp [of "node_step demo_nenv", OF demo_next_step]]
  by (simp add: demo_start_ok(3))

theorem node_r2p_life_cycle_witness:
  "\<exists>r'. map_of (rt_store demo_after) ''a1'' = Some r' \<and> r_AmountMas r' = 30"
proof -
  have "t_id demo_tick \<noteq> ''a1''" by code_simp
  then have "node_step_apart demo_nenv ''a1'' demo_rt demo_after"
    using node_step_apart.request_apart [of demo_tick "''a1''" demo_nenv demo_rt "demo_raw ''/tx''"]
    by (simp add: demo_node_tx demo_after_def)
  from node_r2p_life_cycle [OF r_into_rtranclp [of "node_step_apart demo_nenv ''a1''", OF this], of demo_rec]
  show ?thesis by (auto simp: demo_rt_def demo_rec_def paid_def declined_def canceled_def)
qed

theorem create_overwrites_witness:
  "\<exists>r. map_of (rt_store (snd (r2pCreate demo_cfg ''a1'' 20 (decoded (n_create demo_nenv) (demo_raw ''/r2p/create''))
      (set_record ''a1'' (paid 9 ''ab'') demo_rt)))) ''a1'' = Some r \<and> r_Status r = ''open''"
proof -
  have "rs_status (fst (r2pCreate demo_cfg ''a1'' 20 (decoded (n_create demo_nenv) (demo_raw ''/r2p/create''))
      (set_record ''a1'' (paid 9 ''ab'') demo_rt))) = 200"
    by code_simp
  from create_overwrites [OF this] show ?thesis by blast
qed

end
