(* ===== verification/Server.thy ===== *)
theory Server
  imports Node_Props
begin

text \<open>
  The whole of \<open>cmd/thomasd/main.go\<close>: the node behind the gateway's middleware and mux. A state of
  the server is the rate-limit table with the node's state, a step is a request to the listening port,
  whatever it holds. The server is simulated by the node, which is simulated by the engine, so
  what holds of every run of the engine or the node holds of every run of the server.
\<close>

section \<open>The server\<close>

definition server_root :: "(nat \<Rightarrow> nat) \<Rightarrow> DocsEnv \<Rightarrow> NodeEnv \<Rightarrow> Tick \<Rightarrow> (bytes, Router Gate) handler" where
  "server_root clk docs n t = main_root clk docs (node_root n t)"

text \<open>\<open>main\<close> refuses some settings; otherwise it listens with an empty rate-limit table, on whatever
  files it finds, or without a ledger file.\<close>

inductive server_init :: "string \<Rightarrow> NodeEnv \<Rightarrow> Router Gate \<Rightarrow> bool" for releaseBuild n where
  "main_refuses (c_getenv (n_cfg n)) releaseBuild = None \<Longrightarrow> node_init n rt \<Longrightarrow>
   server_init releaseBuild n \<lparr>g_rl = [], g_reads = 0, g_rest = rt\<rparr>"

inductive server_fresh :: "string \<Rightarrow> NodeEnv \<Rightarrow> Router Gate \<Rightarrow> bool" for releaseBuild n where
  "main_refuses (c_getenv (n_cfg n)) releaseBuild = None \<Longrightarrow> node_fresh n rt \<Longrightarrow>
   server_fresh releaseBuild n \<lparr>g_rl = [], g_reads = 0, g_rest = rt\<rparr>"

inductive server_step :: "(nat \<Rightarrow> nat) \<Rightarrow> DocsEnv \<Rightarrow> NodeEnv \<Rightarrow> Router Gate \<Rightarrow> Router Gate \<Rightarrow> bool" for clk docs n where
  http: "server_step clk docs n g (snd (server_root clk docs n t rq g))"
| event: "hub_step (e_hub (rt_eng (g_rest g))) h \<Longrightarrow>
    server_step clk docs n g (g\<lparr>g_rest := (g_rest g)\<lparr>rt_eng := (rt_eng (g_rest g))\<lparr>e_hub := h\<rparr>\<rparr>\<rparr>)"

section \<open>The gateway passes a request on at most once\<close>

lemma take_token_rest [simp]: "g_rest (snd (take_token clk rpm ip g)) = g_rest g"
  by (simp add: take_token_eq Let_def)

lemma withCORS_state: "snd (withCORS h rq s) = s \<or> snd (withCORS h rq s) = snd (h rq s)"
  by (simp add: withCORS_def case_prod_beta Let_def)

lemma limit_state:
  "g_rest (snd (withRateLimitRestore clk h rpm rq g)) = g_rest g
   \<or> (\<exists>g1. g_rest g1 = g_rest g \<and> snd (withRateLimitRestore clk h rpm rq g) = snd (h rq g1))"
  using take_token_rest [of clk rpm "clientIP rq" g]
  by (auto simp: withRateLimitRestore_def split: prod.split bool.split simp del: take_token_rest)

lemma gate_state:
  assumes "\<And>g. g_rest (snd (h rq g)) \<in> {g_rest g, f (g_rest g)}"
  shows "g_rest (snd (withCORS (withRateLimitRestore clk h rpm) rq g)) \<in> {g_rest g, f (g_rest g)}"
proof -
  have "g_rest (snd (withRateLimitRestore clk h rpm rq g)) \<in> {g_rest g, f (g_rest g)}"
    using limit_state [of clk h rpm rq g]
  proof (elim disjE exE conjE)
    fix g1 assume "g_rest g1 = g_rest g" "snd (withRateLimitRestore clk h rpm rq g) = snd (h rq g1)"
    with assms [of g1] show ?thesis by simp
  qed simp
  with withCORS_state [of "withRateLimitRestore clk h rpm" rq g] show ?thesis by auto
qed

lemma main_mux_state: "snd (main_mux env h rq s) \<in> {s, snd (h rq s)}"
  by (cases rule: mux_route_cases [of main_patterns rq "\<lambda>r. (r, s)"
      "\<lambda>p. if p = ''/'' then h rq s else (RegisterDocsRoutes env p rq, s)"])
    (auto simp: main_mux_def)

lemma server_root_node: "g_rest (snd (server_root clk docs n t rq g)) \<in> {g_rest g, snd (node_root n t rq (g_rest g))}"
proof -
  let ?f = "\<lambda>s. snd (node_root n t rq s)"
  let ?h = "withCORS (withRateLimitRestore clk (behind (node_root n t)) 5)"
  have h: "g_rest (snd (?h rq g)) \<in> {g_rest g, ?f (g_rest g)}" for g by (rule gate_state) simp
  have "g_rest (snd (main_mux docs ?h rq g)) \<in> {g_rest g, ?f (g_rest g)}" for g
    using main_mux_state [of docs ?h rq g] h [of g] by auto
  then show ?thesis unfolding server_root_def main_root_def Let_def by (rule gate_state)
qed

lemma server_step_runs: "server_step clk docs n g g' \<Longrightarrow> (node_step n)\<^sup>*\<^sup>* (g_rest g) (g_rest g')"
proof (induction rule: server_step.induct)
  case (http g t rq)
  have "(node_step n)\<^sup>*\<^sup>* (g_rest g) (snd (node_root n t rq (g_rest g)))"
    by (rule r_into_rtranclp) (rule node_step.request)
  with server_root_node [of clk docs n t rq g] show ?case by auto
qed (auto intro: r_into_rtranclp node_step.deliver)

text \<open>The server is simulated by the node, from any start and from one without a ledger.\<close>

interpretation server_sim: simulation "server_init releaseBuild n" "server_step clk docs n"
    "node_init n" "node_step n" g_rest for releaseBuild clk docs n
  by unfold_locales (auto elim: server_init.cases intro: server_step_runs)

interpretation server_fresh_sim: simulation "server_fresh releaseBuild n" "server_step clk docs n"
    "node_fresh n" "node_step n" g_rest for releaseBuild clk docs n
  by unfold_locales (auto elim: server_fresh.cases intro: server_step_runs)

interpretation server_sys: transition_system "server_fresh releaseBuild n" "server_step clk docs n" "\<lambda>g. True"
    for releaseBuild clk docs n
  by unfold_locales simp

abbreviation server_reachable ::
  "string \<Rightarrow> (nat \<Rightarrow> nat) \<Rightarrow> DocsEnv \<Rightarrow> NodeEnv \<Rightarrow> Router Gate \<Rightarrow> bool" where
  "server_reachable releaseBuild clk docs n \<equiv> server_sys.reachable releaseBuild n clk docs"

lemma server_reachable_node: "server_reachable releaseBuild clk docs n g \<Longrightarrow> node_reachable n (g_rest g)"
  using server_fresh_sim.reachable_sim [of releaseBuild n _ clk docs g]
  by (auto simp: server_sys.reachable_def node_fresh_sys.reachable_def)

section \<open>Properties\<close>

text \<open>
  Property C1. Value is conserved by the program as a whole: from a start on any files, whatever
  sequence of HTTP requests reaches the listening port and is answered one after the other,
  malformed and hostile ones included, the sum of all balances stays what it was when the server
  started. Two things are assumed of the files found at the start, neither of which the program
  checks: the balances add up to less than \<open>2^64\<close>, and no request to pay has an amount of \<open>2^63\<close> or more. The
  prechecks of \<open>/tx\<close> and the check of \<open>/r2p/create\<close> keep new amounts and fees below \<open>2^63\<close>, so their
  sum, which the account table computes in 64 bits, never wraps; round commits mint into the
  supply counters and not into accounts.
\<close>

theorem server_conserves:
  assumes "server_init releaseBuild n g" and "total_balance (e_db (rt_eng (g_rest g))) < 2 ^ 64"
    and "\<forall>(i, r) \<in> set (rt_store (g_rest g)). unat (r_AmountMas r) < 2 ^ 63"
    and "(server_step clk docs n)\<^sup>*\<^sup>* g g'"
  shows "total_balance (e_db (rt_eng (g_rest g'))) = total_balance (e_db (rt_eng (g_rest g)))"
proof -
  have "node_wf (g_rest g)"
    using node_sys.inv_init [OF server_sim.init_sim [OF assms(1)]] assms(3) by (simp add: node_wf_def amounts_ok_def)
  from node_conserves [OF this assms(2) server_sim.run_sim [OF assms(4)]] show ?thesis by blast
qed

text \<open>
  Property C3. The chain is consistent after any requests: in every state that a server started
  without a ledger file reaches, the rounds tile the receipts without gap or overlap, each
  with the Merkle root of exactly its receipts, the Eternity headers form a hash chain from the zero
  hash to the current block identifier, and every receipt is filed under its hash and its JSON text
  is the leaf at its height.
\<close>

theorem server_chain_consistent:
  assumes "server_reachable releaseBuild clk docs n g" and "e = rt_eng (g_rest g)" and "length (e_leaves e) + 1 < 2 ^ 64"
  shows "rounds_tile (env_sha (c_env (n_cfg n))) (e_leaves e) 0 0 (e_rounds e) (unat (e_lastCommittedHeight e))
    \<and> header_chain (c_env (n_cfg n)) zero32 (e_eternityHeaders e) (e_lastBlockID e)
    \<and> (\<forall>(h, r) \<in> set (e_receipts e). rc_TxHash r = h
         \<and> unat (rc_Height r) < length (e_leaves e) \<and> e_leaves e ! unat (rc_Height r) = receipt_json r)"
proof -
  have e: "engine_reachable (c_env (n_cfg n)) e"
    unfolding assms(2) using server_reachable_node [OF assms(1)] by (rule node_reachable_engine)
  then have "receipts_inv e" using assms(3) by (rule receipts_sys.reachable_inv)
  with engine_sys.reachable_inv [OF e assms(3)] show ?thesis
    by (auto simp: engine_inv_def receipts_inv_def receipt_filed_def)
qed

section \<open>A server at work\<close>

definition demo_gate :: "Router Gate" where
  "demo_gate = \<lparr>g_rl = [], g_reads = 0, g_rest = demo_start\<rparr>"

definition demo_gate1 :: "Router Gate" where
  "demo_gate1 = snd (server_root (\<lambda>k. 7) (docs_demo Map.empty) demo_nenv demo_tick (demo_raw ''/tx'') demo_gate)"

lemma demo_gate_init: "server_init ''prod'' demo_nenv demo_gate" "server_fresh ''prod'' demo_nenv demo_gate"
proof -
  have "main_refuses (c_getenv (n_cfg demo_nenv)) ''prod'' = None"
    by (simp add: main_refuses_def demo_nenv_def demo_cfg_def)
  then show "server_init ''prod'' demo_nenv demo_gate" "server_fresh ''prod'' demo_nenv demo_gate"
    using server_init.intros server_fresh.intros demo_start_ok(1,2) by (auto simp: demo_gate_def)
qed

lemma demo_gate_step: "server_step (\<lambda>k. 7) (docs_demo Map.empty) demo_nenv demo_gate demo_gate1"
  unfolding demo_gate1_def by (rule server_step.http)

theorem server_conserves_witness: "total_balance (e_db (rt_eng (g_rest demo_gate1))) = 20000000"
  using server_conserves [OF demo_gate_init(1) _ _
      r_into_rtranclp [of "server_step (\<lambda>k. 7) (docs_demo Map.empty) demo_nenv", OF demo_gate_step]]
  by (simp add: demo_gate_def demo_start_total demo_start_ok(3))

lemma demo_gate1_reachable: "server_reachable ''prod'' (\<lambda>k. 7) (docs_demo Map.empty) demo_nenv demo_gate1"
  by (rule server_sys.reachable_step [OF server_sys.reachable_init [OF demo_gate_init(2)] demo_gate_step])

lemma demo_gate1_leaves: "length (e_leaves (rt_eng (g_rest demo_gate1))) + 1 < 2 ^ 64"
proof -
  have "e_leaves (rt_eng demo_start) = []"
    using fresh_start_eq [OF fresh_start.intros [of "[]" "c_env demo_cfg" "c_wr demo_cfg"]]
    by (simp add: demo_start_def node_start_def Let_def)
  moreover have "g_rest demo_gate1 \<in> {demo_start, demo_next}"
    using server_root_node [of "\<lambda>k. 7" "docs_demo Map.empty" demo_nenv demo_tick "demo_raw ''/tx''" demo_gate]
    by (simp add: demo_gate1_def demo_gate_def demo_node_tx demo_next_def)
  ultimately show ?thesis using demo_next_leaves by auto
qed

theorem server_chain_consistent_witness:
  "header_chain demo_env zero32 (e_eternityHeaders (rt_eng (g_rest demo_gate1))) (e_lastBlockID (rt_eng (g_rest demo_gate1)))"
  using server_chain_consistent [OF demo_gate1_reachable refl demo_gate1_leaves] by (simp add: demo_nenv_def demo_cfg_def)

end
