(* ===== verification/Light_Router.thy ===== *)
theory Light_Router
  imports Eternity_Json
begin

text \<open>
  \<open>internal/rpc/router_lightclient.go\<close>, the router of the \<open>light_client\<close> build: an in-memory chain
  whose header and bundle at a height are the hash of the height, with per-sender nonces and
  receipts. SHA-256 is the parameter \<open>sha\<close>. A body is represented by the members the handler reads,
  with a JSON number as a sign and a magnitude, and by the bytes that \<open>json.Marshal\<close> gives for the
  whole object; \<open>oob\<close> is what the platform makes of a conversion out of range, \<open>ts\<close> the time of a request as RFC 3339 text. Every handler
  runs under the mutex, so requests are a sequence of steps; the
  server mux routes them.
\<close>

section \<open>State\<close>

record lcReceipt =
  lr_TxHash :: string

record LC =
  lcHeight :: u64
  lcNonces :: "(string, u64) gomap"
  lcReceipts :: "(string, lcReceipt) gomap"
  lcHeaders :: "(u64, bytes) gomap"
  lcBundles :: "(u64, bytes) gomap"

definition lcChainID :: int where "lcChainID = 777"

definition lc_init :: LC where
  "lc_init = \<lparr>lcHeight = 0, lcNonces = [], lcReceipts = [], lcHeaders = [], lcBundles = []\<rparr>"

record lcTx =
  lt_from :: string          \<comment> \<open>empty when absent or not a string\<close>
  lt_nonce :: "bool \<times> f64"   \<comment> \<open>negative?, magnitude; zero when absent or not a number\<close>
  lt_chain_id :: "bool \<times> f64"
  lt_raw :: bytes

text \<open>\<open>uint64(x)\<close> and \<open>int(x)\<close> of a float.\<close>

definition f_uint64 :: "u64 \<Rightarrow> bool \<times> f64 \<Rightarrow> u64" where
  "f_uint64 oob x = (case ftrunc (snd x) of
     Some n \<Rightarrow> if n = 0 then 0 else if fst x \<or> 2 ^ 64 \<le> n then oob else of_nat n
   | None \<Rightarrow> oob)"

definition f_int :: "i64 \<Rightarrow> bool \<times> f64 \<Rightarrow> i64" where
  "f_int oob x = (case ftrunc (snd x) of
     Some n \<Rightarrow>
       if fst x then (if n \<le> 2 ^ 63 then - of_nat n else oob)
       else (if n < 2 ^ 63 then of_nat n else oob)
   | None \<Rightarrow> oob)"

definition lcH256 :: "(bytes \<Rightarrow> bytes) \<Rightarrow> bytes \<Rightarrow> bytes" where
  "lcH256 sha b = sha b"

definition lcWriteJSON :: "nat \<Rightarrow> json \<Rightarrow> Response" where
  "lcWriteJSON status v = \<lparr>rs_status = status, rs_header = ctJSON, rs_body = Some v\<rparr>"

definition lcWriteErr :: "nat \<Rightarrow> string \<Rightarrow> Response" where
  "lcWriteErr status key = lcWriteJSON status (JObj [(''error'', JStr key)])"

section \<open>Handlers\<close>

definition lc_ping :: Response where
  "lc_ping = \<lparr>rs_status = 200, rs_header = [], rs_body = Some (JStr ''pong'')\<rparr>"

definition lc_get :: "lcTx Request \<Rightarrow> Response \<Rightarrow> Response" where
  "lc_get rq r = (if rq_Method rq \<noteq> ''GET'' then lcWriteErr 405 ''method'' else r)"

definition lc_health :: "string \<Rightarrow> lcTx Request \<Rightarrow> Response" where
  "lc_health ts rq = lc_get rq (lcWriteJSON 200 (JObj [(''ok'', JBool True), (''ts'', JStr ts)]))"

definition lc_policy :: "lcTx Request \<Rightarrow> Response" where
  "lc_policy rq = lc_get rq (lcWriteJSON 200 (JObj [(''allowed_chain_id'', JNum lcChainID)]))"

definition lc_nonce_of :: "LC \<Rightarrow> string \<Rightarrow> u64" where
  "lc_nonce_of s a = (case map_of (lcNonces s) a of Some n \<Rightarrow> n | None \<Rightarrow> 0)"

definition lc_nonce :: "lcTx Request \<Rightarrow> LC \<Rightarrow> Response" where
  "lc_nonce rq s = lc_get rq
     (let addr = trim_prefix (rq_Path rq) ''/nonce/''
      in if addr = [] then lcWriteErr 400 ''bad_addr''
         else lcWriteJSON 200 (JObj [(''expected_nonce'', ju64 (lc_nonce_of s addr))]))"

definition lc_tx :: "(bytes \<Rightarrow> bytes) \<Rightarrow> u64 \<Rightarrow> lcTx Request \<Rightarrow> LC \<Rightarrow> Response \<times> LC" where
  "lc_tx sha oob rq s =
     (if rq_Method rq \<noteq> ''POST'' then (lcWriteErr 405 ''method'', s)
      else case rq_Body rq of
        None \<Rightarrow> (lcWriteErr 400 ''bad_json'', s)
      | Some tx \<Rightarrow>
          if f_int oob (lt_chain_id tx) \<noteq> of_int lcChainID then (lcWriteErr 400 ''bad_chain_id'', s)
          else
            let expd = lc_nonce_of s (lt_from tx)
            in if f_uint64 oob (lt_nonce tx) \<noteq> expd then (lcWriteErr 409 ''bad_nonce'', s)
               else
                 let hashHex = hex_encode (lcH256 sha (lt_raw tx))
                 in (lcWriteJSON 200 (JObj [(''tx_hash'', JStr hashHex),
                       (''receipt'', JObj [(''tx_hash'', JStr hashHex)])]),
                     s\<lparr>lcNonces := AList.update (lt_from tx) (expd + 1) (lcNonces s),
                       lcReceipts := AList.update hashHex \<lparr>lr_TxHash = hashHex\<rparr> (lcReceipts s)\<rparr>))"

definition lc_root :: "(bytes \<Rightarrow> bytes) \<Rightarrow> u64 \<Rightarrow> bytes" where
  "lc_root sha h = lcH256 sha (bytes_of (''h:'' @ dec_nat (unat h)))"

definition lc_commit :: "(bytes \<Rightarrow> bytes) \<Rightarrow> lcTx Request \<Rightarrow> LC \<Rightarrow> Response \<times> LC" where
  "lc_commit sha rq s =
     (if rq_Method rq \<noteq> ''POST'' then (lcWriteErr 405 ''method'', s)
      else
        let h = lcHeight s + 1; root = lc_root sha h
        in (lcWriteJSON 200 (JObj [(''to_height'', ju64 h)]),
            s\<lparr>lcHeight := h, lcHeaders := AList.update h root (lcHeaders s),
              lcBundles := AList.update h root (lcBundles s)\<rparr>))"

definition lc_latest :: "lcTx Request \<Rightarrow> LC \<Rightarrow> Response" where
  "lc_latest rq s = lc_get rq (lcWriteJSON 200
     (JObj [(''from_height'', ju64 (lcHeight s)), (''to_height'', ju64 (lcHeight s))]))"

definition lc_receipt :: "lcTx Request \<Rightarrow> LC \<Rightarrow> Response" where
  "lc_receipt rq s = lc_get rq
     (let q = rq_Query rq ''hash''
      in if q = [] then lcWriteErr 400 ''bad_hash''
         else case map_of (lcReceipts s) q of
           None \<Rightarrow> lcWriteErr 404 ''not_found''
         | Some rc \<Rightarrow> lcWriteJSON 200 (JObj [(''tx_hash'', JStr (lr_TxHash rc))]))"

definition lc_block :: "lcTx Request \<Rightarrow> LC \<Rightarrow> Response" where
  "lc_block rq s = lc_get rq
     (if \<not> has_suffix (rq_Path rq) ''/light-proof'' then http_NotFound
      else case ParseUint (trim_slash (trim_suffix (trim_prefix (rq_Path rq) ''/block/'') ''/light-proof'')) of
        None \<Rightarrow> lcWriteErr 400 ''bad_height''
      | Some h \<Rightarrow> (case map_of (lcHeaders s) h of
          None \<Rightarrow> lcWriteErr 404 ''header_not_found''
        | Some hdr \<Rightarrow> (case map_of (lcBundles s) h of
            None \<Rightarrow> lcWriteErr 404 ''bundle_not_found''
          | Some bun \<Rightarrow>
              let okEq = (hdr = bun);
                  resp = JObj [(''ok'', JBool okEq), (''height'', ju64 h),
                    (''header_commit_root'', JStr (hex_encode hdr)), (''bundle_root'', JStr (hex_encode bun))]
              in if \<not> okEq then lcWriteJSON 409 resp else lcWriteJSON 200 resp)))"

definition light_patterns :: "string list" where
  "light_patterns = [''/ping'', ''/health'', ''/policy'', ''/nonce/'', ''/tx'', ''/round/commit'', ''/round/latest'',
     ''/receipt/get'', ''/block/'']"

definition light_handler ::
  "(bytes \<Rightarrow> bytes) \<Rightarrow> u64 \<Rightarrow> string \<Rightarrow> lcTx Request \<Rightarrow> LC \<Rightarrow> string \<Rightarrow> Response \<times> LC" where
  "light_handler sha oob ts rq s p =
     (if p = ''/ping'' then (lc_ping, s)
      else if p = ''/health'' then (lc_health ts rq, s)
      else if p = ''/policy'' then (lc_policy rq, s)
      else if p = ''/nonce/'' then (lc_nonce rq s, s)
      else if p = ''/tx'' then lc_tx sha oob rq s
      else if p = ''/round/commit'' then lc_commit sha rq s
      else if p = ''/round/latest'' then (lc_latest rq s, s)
      else if p = ''/receipt/get'' then (lc_receipt rq s, s)
      else (lc_block rq s, s))"

definition installLightRoutes :: "(bytes \<Rightarrow> bytes) \<Rightarrow> u64 \<Rightarrow> string \<Rightarrow> lcTx Request \<Rightarrow> LC \<Rightarrow> Response \<times> LC" where
  "installLightRoutes sha oob ts rq s =
     mux_route light_patterns rq (\<lambda>r. (r, s)) (light_handler sha oob ts rq s)"

text \<open>A sequence of requests with their times, and the answers.\<close>

fun lc_run :: "(bytes \<Rightarrow> bytes) \<Rightarrow> u64 \<Rightarrow> (string \<times> lcTx Request) list \<Rightarrow> LC \<Rightarrow> Response list \<times> LC" where
  "lc_run sha oob [] s = ([], s)"
| "lc_run sha oob ((ts, rq) # rqs) s =
     (let (r, s1) = installLightRoutes sha oob ts rq s; (rs, s2) = lc_run sha oob rqs s1 in (r # rs, s2))"

section \<open>The chain of headers\<close>

inductive lc_step :: "(bytes \<Rightarrow> bytes) \<Rightarrow> u64 \<Rightarrow> LC \<Rightarrow> LC \<Rightarrow> bool" for sha oob where
  served: "lc_step sha oob s (snd (installLightRoutes sha oob ts rq s))"

lemma light_tx: "rq_Path rq = ''/tx'' \<Longrightarrow> installLightRoutes sha oob ts rq s = lc_tx sha oob rq s"
  and light_commit: "rq_Path rq = ''/round/commit'' \<Longrightarrow> installLightRoutes sha oob ts rq s = lc_commit sha rq s"
proof -
  have "cleanPath ''/tx'' = ''/tx''" "mux_best light_patterns ''/tx'' = Some ''/tx''" "''/tx'' @ ''/'' \<notin> set light_patterns"
    "cleanPath ''/round/commit'' = ''/round/commit''" "mux_best light_patterns ''/round/commit'' = Some ''/round/commit''"
    "''/round/commit'' @ ''/'' \<notin> set light_patterns"
    by code_simp+
  then show "rq_Path rq = ''/tx'' \<Longrightarrow> installLightRoutes sha oob ts rq s = lc_tx sha oob rq s"
    "rq_Path rq = ''/round/commit'' \<Longrightarrow> installLightRoutes sha oob ts rq s = lc_commit sha rq s"
    by (simp_all add: installLightRoutes_def mux_route_pattern light_handler_def)
qed

lemma light_same:
  assumes "rq_Path rq \<noteq> ''/tx''" "rq_Path rq \<noteq> ''/round/commit''"
  shows "snd (installLightRoutes sha oob ts rq s) = s"
  unfolding installLightRoutes_def
proof (cases rule: mux_route_cases [of light_patterns rq "\<lambda>r. (r, s)" "light_handler sha oob ts rq s"])
  case (routed p)
  with assms have "p \<noteq> ''/tx''" "p \<noteq> ''/round/commit''" by (auto simp: mux_matches_def)
  with routed(1) show "snd (mux_route light_patterns rq (\<lambda>r. (r, s)) (light_handler sha oob ts rq s)) = s"
    by (simp add: light_handler_def)
qed simp

text \<open>What a request does to the state.\<close>

lemma light_effect:
  obtains (same) "snd (installLightRoutes sha oob ts rq s) = s"
  | (commit) "rq_Path rq = ''/round/commit''" "rq_Method rq = ''POST''"
      "snd (installLightRoutes sha oob ts rq s) = snd (lc_commit sha rq s)"
  | (tx) tx where "rq_Path rq = ''/tx''" "rq_Method rq = ''POST''" "rq_Body rq = Some tx"
      "f_int oob (lt_chain_id tx) = of_int lcChainID" "f_uint64 oob (lt_nonce tx) = lc_nonce_of s (lt_from tx)"
      "snd (installLightRoutes sha oob ts rq s) = snd (lc_tx sha oob rq s)"
proof -
  consider "rq_Path rq = ''/tx''" | "rq_Path rq = ''/round/commit''" | "snd (installLightRoutes sha oob ts rq s) = s"
    using light_same by blast
  then show ?thesis
  proof cases
    case 1
    show ?thesis
    proof (cases "snd (lc_tx sha oob rq s) = s")
      case True
      with 1 show ?thesis by (intro same) (simp add: light_tx)
    next
      case False
      then obtain t where "rq_Method rq = ''POST''" "rq_Body rq = Some t"
        "f_int oob (lt_chain_id t) = of_int lcChainID" "f_uint64 oob (lt_nonce t) = lc_nonce_of s (lt_from t)"
        by (auto simp: lc_tx_def Let_def split: if_splits option.splits)
      with 1 show ?thesis by (intro tx [of t]) (simp_all add: light_tx)
    qed
  next
    case 2
    then show ?thesis using same commit by (cases "rq_Method rq = ''POST''") (simp_all add: light_commit, simp add: lc_commit_def light_commit)
  qed (rule same)
qed

definition lc_inv :: "(bytes \<Rightarrow> bytes) \<Rightarrow> LC \<Rightarrow> bool" where
  "lc_inv sha s \<longleftrightarrow> length (lcHeaders s) = unat (lcHeight s)
     \<and> (\<forall>h. map_of (lcHeaders s) h = (if 1 \<le> h \<and> h \<le> lcHeight s then Some (lc_root sha h) else None))
     \<and> map_of (lcBundles s) = map_of (lcHeaders s)"

definition lc_bound :: "LC \<Rightarrow> bool" where
  "lc_bound s \<longleftrightarrow> length (lcHeaders s) < 2 ^ 64"

lemma length_update: "length (AList.update k v m) = (if k \<in> fst ` set m then length m else length m + 1)"
  by (induction m) auto

lemma lc_inv_commit:
  assumes "lc_inv sha s" and "lc_bound (snd (lc_commit sha rq s))"
  shows "lc_inv sha (snd (lc_commit sha rq s))"
proof (cases "rq_Method rq = ''POST''")
  case True
  let ?h = "lcHeight s + 1"
  note inv = assms(1) [unfolded lc_inv_def]
  have up: "unat ?h = unat (lcHeight s) + 1" if "?h \<noteq> 0"
    using unatSuc [of "lcHeight s"] that by (simp add: add.commute)
  have fresh: "map_of (lcHeaders s) ?h = None"
    using inv up by (cases "?h = 0") (simp_all add: u64_le_iff)
  then have new: "?h \<notin> fst ` set (lcHeaders s)" by (simp only: map_of_eq_None_iff not_False_eq_True)
  then have "length (AList.update ?h (lc_root sha ?h) (lcHeaders s)) = unat (lcHeight s) + 1"
    using inv by (simp add: length_update)
  with assms(2) True have room: "unat (lcHeight s) + 1 < 2 ^ 64"
    by (simp add: lc_bound_def lc_commit_def Let_def)
  then have up: "unat ?h = unat (lcHeight s) + 1" by (simp add: u64_add_exact)
  have "1 \<le> h \<and> h \<le> ?h \<longleftrightarrow> 1 \<le> h \<and> h \<le> lcHeight s \<or> h = ?h" for h
    by (auto simp: u64_le_iff u64_eq_iff up)
  with inv up new show ?thesis
    by (simp add: lc_inv_def lc_commit_def Let_def True update_conv' length_update)
qed (use assms in \<open>simp add: lc_commit_def\<close>)

interpretation light_sys: invariant_system "\<lambda>s. s = lc_init" "lc_step sha oob" lc_bound "lc_inv sha" for sha oob
proof
  fix s t assume step: "lc_step sha oob s t" and b: "lc_bound t"
  from step obtain ts rq where t: "t = snd (installLightRoutes sha oob ts rq s)" by (auto elim: lc_step.cases)
  show "lc_bound s"
  proof (cases rule: light_effect [of sha oob ts rq s, case_names same commit tx])
    case commit
    with b t show ?thesis
      by (auto simp: lc_bound_def lc_commit_def Let_def length_update split: if_splits)
  qed (use b t in \<open>auto simp: lc_bound_def lc_tx_def Let_def\<close>)
next
  fix s t assume step: "lc_step sha oob s t" and inv: "lc_inv sha s" and b: "lc_bound t"
  from step obtain ts rq where t: "t = snd (installLightRoutes sha oob ts rq s)" by (auto elim: lc_step.cases)
  show "lc_inv sha t"
  proof (cases rule: light_effect [of sha oob ts rq s, case_names same commit tx])
    case commit
    then show ?thesis using lc_inv_commit [OF inv] b t by simp
  qed (use inv t in \<open>auto simp: lc_inv_def lc_tx_def Let_def\<close>)
qed (auto simp: lc_inv_def lc_init_def)

section \<open>Properties\<close>

definition lc_reachable :: "(bytes \<Rightarrow> bytes) \<Rightarrow> u64 \<Rightarrow> LC \<Rightarrow> bool" where
  "lc_reachable sha oob s \<longleftrightarrow> (lc_step sha oob)\<^sup>*\<^sup>* lc_init s"

lemma lc_reachable_inv: "lc_reachable sha oob s \<Longrightarrow> lc_bound s \<Longrightarrow> lc_inv sha s"
  using light_sys.reachable_inv [of sha oob s] by (simp add: lc_reachable_def light_sys.reachable_def)

lemma block_route:
  assumes "rq_Method rq = ''GET''" "rq_Path rq = ''/block/'' @ dec_nat (unat h) @ ''/light-proof''"
  shows "installLightRoutes sha oob ts rq s = (lc_block rq s, s)"
    and "has_suffix (rq_Path rq) ''/light-proof''"
    and "trim_slash (trim_suffix (trim_prefix (rq_Path rq) ''/block/'') ''/light-proof'') = dec_nat (unat h)"
proof -
  have "hd (dec_nat (unat h)) \<in> set (dec_nat (unat h))" "last (dec_nat (unat h)) \<in> set (dec_nat (unat h))" by simp_all
  then have "hd (dec_nat (unat h)) \<noteq> CHR ''/''" "last (dec_nat (unat h)) \<noteq> CHR ''/''"
    using dec_nat_no_slash [of "unat h"] by metis+
  then show "trim_slash (trim_suffix (trim_prefix (rq_Path rq) ''/block/'') ''/light-proof'') = dec_nat (unat h)"
    unfolding assms(2) by (simp only: trim_prefix_append trim_suffix_append) (rule trim_slash_id, simp_all)
  show "has_suffix (rq_Path rq) ''/light-proof''"
    using has_suffix_append [of "''/block/'' @ dec_nat (unat h)" "''/light-proof''"] assms(2) by simp
  have path: "rq_Path rq = CHR ''/'' # join_slash [''block'', dec_nat (unat h), ''light-proof'']" by (simp add: assms(2))
  have clean: "cleanPath (rq_Path rq) = rq_Path rq"
    unfolding path by (intro cleanPath_rooted) (simp_all add: dec_nat_plain, simp_all add: plain_part_def real_part_def)
  have "filter (mux_matches (rq_Path rq)) light_patterns = [''/block/'']"
    by (simp add: light_patterns_def mux_matches_def assms(2))
  then have "mux_best light_patterns (rq_Path rq) = Some ''/block/''" by (simp add: mux_best_def longer_def)
  moreover have "rq_Path rq @ ''/'' \<notin> set light_patterns" by (simp add: light_patterns_def assms(2))
  ultimately show "installLightRoutes sha oob ts rq s = (lc_block rq s, s)"
    by (simp add: installLightRoutes_def mux_route_pattern [OF clean] light_handler_def)
qed

text \<open>
  Property C21. The light chain proves exactly its own heights: in every reachable state a proof request
  for a height from one to the current height is answered with matching header and bundle roots,
  the hash of the height, and for any other height with \<open>header_not_found\<close>; it changes nothing and
  never reports a mismatch.
\<close>

theorem lc_proof_served:
  assumes "lc_reachable sha oob s" "length (lcHeaders s) < 2 ^ 64"
    and "rq_Method rq = ''GET''" "rq_Path rq = ''/block/'' @ dec_nat (unat h) @ ''/light-proof''"
  shows "installLightRoutes sha oob ts rq s =
    (if 1 \<le> h \<and> h \<le> lcHeight s
     then lcWriteJSON 200 (JObj [(''ok'', JBool True), (''height'', ju64 h),
       (''header_commit_root'', JStr (hex_encode (lc_root sha h))), (''bundle_root'', JStr (hex_encode (lc_root sha h)))])
     else lcWriteErr 404 ''header_not_found'', s)"
proof -
  have "lc_inv sha s" using assms(1,2) by (intro lc_reachable_inv) (simp_all add: lc_bound_def)
  then have "map_of (lcHeaders s) h = (if 1 \<le> h \<and> h \<le> lcHeight s then Some (lc_root sha h) else None)"
    and "map_of (lcBundles s) = map_of (lcHeaders s)" by (simp_all add: lc_inv_def)
  then show ?thesis
    by (simp add: block_route [OF assms(3,4)] lc_block_def lc_get_def assms(3))
qed

definition lc_req :: "string \<Rightarrow> string \<Rightarrow> lcTx option \<Rightarrow> lcTx Request" where
  "lc_req meth path body = \<lparr>rq_Method = meth, rq_Path = path, rq_Header = (\<lambda>k. []), rq_Query = (\<lambda>k. []),
     rq_Remote = [], rq_Body = body\<rparr>"

definition lc_demo :: LC where
  "lc_demo = snd (installLightRoutes toy_hash 0 [] (lc_req ''POST'' ''/round/commit'' None) lc_init)"

theorem lc_proof_served_witness:
  "rs_status (fst (installLightRoutes toy_hash 0 [] (lc_req ''GET'' ''/block/1/light-proof'' None) lc_demo)) = 200"
proof -
  have "lc_step toy_hash 0 lc_init lc_demo" unfolding lc_demo_def by (rule lc_step.served)
  then have "lc_reachable toy_hash 0 lc_demo" unfolding lc_reachable_def by (rule r_into_rtranclp)
  moreover have "length (lcHeaders lc_demo) = 1" "lcHeight lc_demo = 1" by code_simp+
  moreover have "dec_nat 1 = ''1''" by code_simp
  ultimately show ?thesis
    using lc_proof_served [of toy_hash 0 lc_demo "lc_req ''GET'' ''/block/1/light-proof'' None" 1]
    by (simp add: lc_req_def lcWriteJSON_def)
qed

text \<open>The nonces of the transactions of one sender that a run accepts.\<close>

fun lc_accepted :: "(bytes \<Rightarrow> bytes) \<Rightarrow> u64 \<Rightarrow> string \<Rightarrow> (string \<times> lcTx Request) list \<Rightarrow> LC \<Rightarrow> u64 list" where
  "lc_accepted sha oob a [] s = []"
| "lc_accepted sha oob a ((ts, rq) # rqs) s =
     (let (r, t) = installLightRoutes sha oob ts rq s
      in (case rq_Body rq of
            Some tx \<Rightarrow> if rq_Path rq = ''/tx'' \<and> rs_status r = 200 \<and> lt_from tx = a then [f_uint64 oob (lt_nonce tx)] else []
          | None \<Rightarrow> [])
         @ lc_accepted sha oob a rqs t)"

lemma lc_tx_status:
  assumes "rq_Body rq = Some tx"
  shows "rs_status (fst (lc_tx sha oob rq s)) = 200 \<longleftrightarrow> rq_Method rq = ''POST''
    \<and> f_int oob (lt_chain_id tx) = of_int lcChainID \<and> f_uint64 oob (lt_nonce tx) = lc_nonce_of s (lt_from tx)"
  using assms by (simp add: lc_tx_def lcWriteErr_def lcWriteJSON_def Let_def)

lemma lc_nonce_step:
  "lc_nonce_of (snd (installLightRoutes sha oob ts rq s)) a =
     lc_nonce_of s a + of_nat (length (lc_accepted sha oob a [(ts, rq)] s))
   \<and> lc_accepted sha oob a [(ts, rq)] s \<in> {[], [lc_nonce_of s a]}"
proof (cases "rq_Path rq = ''/tx''")
  case True
  then have eq: "installLightRoutes sha oob ts rq s = lc_tx sha oob rq s" by (rule light_tx)
  show ?thesis
  proof (cases "rq_Body rq")
    case None
    then show ?thesis by (simp add: eq lc_tx_def case_prod_beta Let_def)
  next
    case (Some tx)
    show ?thesis
    proof (cases "rs_status (fst (lc_tx sha oob rq s)) = 200")
      case ok: True
      with Some have "snd (lc_tx sha oob rq s) = s\<lparr>lcNonces := AList.update (lt_from tx) (lc_nonce_of s (lt_from tx) + 1) (lcNonces s),
          lcReceipts := AList.update (hex_encode (sha (lt_raw tx))) \<lparr>lr_TxHash = hex_encode (sha (lt_raw tx))\<rparr> (lcReceipts s)\<rparr>"
        by (simp add: lc_tx_status) (simp add: lc_tx_def lcH256_def Let_def)
      with ok Some True show ?thesis
        by (auto simp: eq lc_nonce_of_def update_conv' case_prod_beta lc_tx_status)
    next
      case False
      with Some have "snd (lc_tx sha oob rq s) = s" by (auto simp: lc_tx_status) (auto simp: lc_tx_def Let_def)
      with False Some True show ?thesis by (simp add: eq case_prod_beta Let_def)
    qed
  qed
next
  case False
  then have "lcNonces (snd (installLightRoutes sha oob ts rq s)) = lcNonces s"
    by (cases rule: light_effect [of sha oob ts rq s]) (simp_all add: lc_commit_def Let_def)
  with False show ?thesis by (simp add: lc_nonce_of_def case_prod_beta Let_def split: option.split)
qed

lemma lc_accepted_Cons:
  "lc_accepted sha oob a ((ts, rq) # rqs) s =
     lc_accepted sha oob a [(ts, rq)] s @ lc_accepted sha oob a rqs (snd (installLightRoutes sha oob ts rq s))"
  by (simp add: case_prod_beta Let_def)

lemma lc_run_Cons: "snd (lc_run sha oob ((ts, rq) # rqs) s) = snd (lc_run sha oob rqs (snd (installLightRoutes sha oob ts rq s)))"
  by (simp add: case_prod_beta Let_def)

lemma lc_accepted_from:
  "lc_accepted sha oob a rqs s = map (\<lambda>i. lc_nonce_of s a + of_nat i) [0..<length (lc_accepted sha oob a rqs s)]
   \<and> lc_nonce_of (snd (lc_run sha oob rqs s)) a = lc_nonce_of s a + of_nat (length (lc_accepted sha oob a rqs s))"
proof (induction rqs arbitrary: s)
  case (Cons x rqs)
  obtain ts rq where x: "x = (ts, rq)" by (cases x)
  define t where "t = snd (installLightRoutes sha oob ts rq s)"
  define xs where "xs = lc_accepted sha oob a rqs t"
  note IH = Cons.IH [of t, folded xs_def]
  have run: "lc_accepted sha oob a ((ts, rq) # rqs) s = lc_accepted sha oob a [(ts, rq)] s @ xs"
    "snd (lc_run sha oob ((ts, rq) # rqs) s) = snd (lc_run sha oob rqs t)"
    unfolding t_def xs_def by (rule lc_accepted_Cons, rule lc_run_Cons)
  from lc_nonce_step [of sha oob ts rq s a, folded t_def]
  consider "lc_accepted sha oob a [(ts, rq)] s = []" "lc_nonce_of t a = lc_nonce_of s a"
    | "lc_accepted sha oob a [(ts, rq)] s = [lc_nonce_of s a]" "lc_nonce_of t a = lc_nonce_of s a + 1" by fastforce
  then show ?case
  proof cases
    case 1
    with IH show ?thesis unfolding x run by simp
  next
    case 2
    have "map (\<lambda>i. lc_nonce_of s a + of_nat i) [0..<Suc (length xs)]
        = lc_nonce_of s a # map (\<lambda>i. lc_nonce_of t a + of_nat i) [0..<length xs]"
      by (simp add: upt_conv_Cons map_Suc_upt [symmetric] 2(2) algebra_simps del: upt_Suc)
    with IH 2 show ?thesis
      unfolding x run by (simp add: algebra_simps del: upt_Suc)
  qed
qed simp

text \<open>
  Fact. Nonces are consumed in order and once: whatever the sequence of requests, the accepted
  transactions of a sender carry the nonces \<open>0, 1, 2, ...\<close>, and the nonce endpoint then reports
  their number.
\<close>

theorem lc_nonces_sequential:
  "lc_accepted sha oob a rqs lc_init = map of_nat [0..<length (lc_accepted sha oob a rqs lc_init)]
   \<and> lc_nonce_of (snd (lc_run sha oob rqs lc_init)) a = of_nat (length (lc_accepted sha oob a rqs lc_init))"
  using lc_accepted_from [of sha oob a rqs lc_init] by (simp add: lc_nonce_of_def lc_init_def)

end
