(* ===== verification/Light_Standalone.thy ===== *)
theory Light_Standalone
  imports Light_Router
begin

text \<open>
  \<open>tmp_light_router_standalone.go\<close>, a cut-down copy of the light router as a program of its own: no
  method checks, transfers without chain or nonce check, no receipts. The handlers are compared with
  those of \<open>router_lightclient.go\<close> on the same chain. A request whose body is not JSON has no body.
\<close>

record SL =
  sl_height :: u64
  sl_nonces :: "(string, u64) gomap"   \<comment> \<open>read but never written\<close>
  sl_headers :: "(u64, bytes) gomap"
  sl_bundles :: "(u64, bytes) gomap"

definition sl_init :: SL where
  "sl_init = \<lparr>sl_height = 0, sl_nonces = [], sl_headers = [], sl_bundles = []\<rparr>"

definition sl_j :: "nat \<Rightarrow> json \<Rightarrow> Response" where
  "sl_j code v = \<lparr>rs_status = code, rs_header = ctJSON, rs_body = Some v\<rparr>"

definition sl_err :: "nat \<Rightarrow> string \<Rightarrow> Response" where
  "sl_err code e = sl_j code (JObj [(''error'', JStr e)])"

definition sl_nonce :: "lcTx Request \<Rightarrow> SL \<Rightarrow> Response" where
  "sl_nonce rq s = sl_j 200 (JObj [(''expected_nonce'',
     ju64 (case map_of (sl_nonces s) (trim_prefix (rq_Path rq) ''/nonce/'') of Some n \<Rightarrow> n | None \<Rightarrow> 0))])"

definition sl_tx :: "(bytes \<Rightarrow> bytes) \<Rightarrow> lcTx Request \<Rightarrow> Response" where
  "sl_tx sha rq = (case rq_Body rq of
     None \<Rightarrow> sl_err 400 ''bad_json''
   | Some tx \<Rightarrow>
       let hx = hex_encode (sha (lt_raw tx))
       in sl_j 200 (JObj [(''tx_hash'', JStr hx), (''receipt'', JObj [(''tx_hash'', JStr hx)])]))"

definition sl_commit :: "(bytes \<Rightarrow> bytes) \<Rightarrow> SL \<Rightarrow> Response \<times> SL" where
  "sl_commit sha s =
     (let h = sl_height s + 1; root = sha (bytes_of (dec_nat (unat h)))
      in (sl_j 200 (JObj [(''to_height'', ju64 h)]),
          s\<lparr>sl_height := h, sl_headers := AList.update h root (sl_headers s),
            sl_bundles := AList.update h root (sl_bundles s)\<rparr>))"

definition sl_latest :: "SL \<Rightarrow> Response" where
  "sl_latest s = sl_j 200 (JObj [(''from_height'', ju64 (sl_height s)), (''to_height'', ju64 (sl_height s))])"

definition sl_receipt :: "lcTx Request \<Rightarrow> Response" where
  "sl_receipt rq = (let q = rq_Query rq ''hash''
     in if q = [] then sl_err 400 ''bad_hash'' else sl_j 200 (JObj [(''tx_hash'', JStr q)]))"

definition sl_block :: "lcTx Request \<Rightarrow> SL \<Rightarrow> Response" where
  "sl_block rq s =
     (if \<not> has_suffix (rq_Path rq) ''/light-proof'' then http_NotFound
      else case ParseUint (trim_slash (trim_suffix (trim_prefix (rq_Path rq) ''/block/'') ''/light-proof'')) of
        None \<Rightarrow> sl_err 400 ''bad_height''
      | Some h \<Rightarrow> (case (map_of (sl_headers s) h, map_of (sl_bundles s) h) of
          (None, _) \<Rightarrow> sl_err 404 ''header_not_found''
        | (Some _, None) \<Rightarrow> sl_err 404 ''bundle_not_found''
        | (Some hr, Some br) \<Rightarrow>
            let okEq = (hr = br);
                resp = JObj [(''ok'', JBool okEq), (''height'', ju64 h),
                  (''header_commit_root'', JStr (hex_encode hr)), (''bundle_root'', JStr (hex_encode br))]
            in if \<not> okEq then sl_j 409 resp else sl_j 200 resp))"

definition sl_handler :: "(bytes \<Rightarrow> bytes) \<Rightarrow> string \<Rightarrow> lcTx Request \<Rightarrow> SL \<Rightarrow> string \<Rightarrow> Response \<times> SL" where
  "sl_handler sha ts rq s p =
     (if p = ''/ping'' then (lc_ping, s)
      else if p = ''/health'' then (sl_j 200 (JObj [(''ok'', JBool True), (''ts'', JStr ts)]), s)
      else if p = ''/policy'' then (sl_j 200 (JObj [(''allowed_chain_id'', JNum 777)]), s)
      else if p = ''/nonce/'' then (sl_nonce rq s, s)
      else if p = ''/tx'' then (sl_tx sha rq, s)
      else if p = ''/round/commit'' then sl_commit sha s
      else if p = ''/round/latest'' then (sl_latest s, s)
      else if p = ''/receipt/get'' then (sl_receipt rq, s)
      else (sl_block rq s, s))"

definition sl_main :: "(bytes \<Rightarrow> bytes) \<Rightarrow> string \<Rightarrow> lcTx Request \<Rightarrow> SL \<Rightarrow> Response \<times> SL" where
  "sl_main sha ts rq s = mux_route light_patterns rq (\<lambda>r. (r, s)) (sl_handler sha ts rq s)"

section \<open>Against the light router\<close>

text \<open>The state of the light router with the same chain.\<close>

definition lc_view :: "SL \<Rightarrow> LC" where
  "lc_view s = \<lparr>lcHeight = sl_height s, lcNonces = sl_nonces s, lcReceipts = [], lcHeaders = sl_headers s,
     lcBundles = sl_bundles s\<rparr>"

lemmas sl_lc_defs = sl_j_def sl_err_def lcWriteJSON_def lcWriteErr_def lc_get_def lc_view_def

lemma sl_block_eq: "rq_Method rq = ''GET'' \<Longrightarrow> sl_block rq s = lc_block rq (lc_view s)"
  by (simp add: sl_block_def lc_block_def sl_lc_defs Let_def split: option.split)

lemma sl_nonce_eq:
  "rq_Method rq = ''GET'' \<Longrightarrow> trim_prefix (rq_Path rq) ''/nonce/'' \<noteq> [] \<Longrightarrow> sl_nonce rq s = lc_nonce rq (lc_view s)"
  by (simp add: sl_nonce_def lc_nonce_def lc_nonce_of_def sl_lc_defs Let_def split: option.split)

text \<open>
  Fact. To a reader the two light routers are the same: on the same chain a GET for a light
  proof, the latest round, the policy, the health or the nonce of an address is answered alike by both.
\<close>

theorem standalone_reads_agree:
  assumes "rq_Method rq = ''GET''" and "p \<in> {''/ping'', ''/health'', ''/policy'', ''/nonce/'', ''/round/latest'', ''/block/''}"
    and "p = ''/nonce/'' \<longrightarrow> trim_prefix (rq_Path rq) ''/nonce/'' \<noteq> []"
  shows "fst (sl_handler sha ts rq s p) = fst (light_handler sha oob ts rq (lc_view s) p)"
  using assms
  by (auto simp: sl_handler_def light_handler_def sl_block_eq sl_nonce_eq sl_latest_def lc_latest_def lc_health_def
      lc_policy_def lcChainID_def sl_lc_defs)

text \<open>
  Fact. A client of the standalone router never sees its nonce move: whatever transfers it has sent, the
  expected nonce of every address stays zero.
\<close>

theorem standalone_nonce_zero:
  assumes "sl_nonces s = []"
  shows "sl_nonces (snd (sl_main sha ts rq s)) = [] \<and> sl_nonce rq' s = sl_j 200 (JObj [(''expected_nonce'', ju64 0)])"
proof -
  have "sl_nonces (snd (sl_handler sha ts rq s p)) = []" for p
    using assms by (simp add: sl_handler_def sl_commit_def Let_def)
  moreover have "snd (sl_main sha ts rq s) = s \<or> (\<exists>p. snd (sl_main sha ts rq s) = snd (sl_handler sha ts rq s p))"
    unfolding sl_main_def by (cases rule: mux_route_cases [of light_patterns rq "\<lambda>r. (r, s)" "sl_handler sha ts rq s"]) auto
  ultimately show ?thesis using assms by (auto simp: sl_nonce_def)
qed

end
