(* ===== verification/R2P_Client.thy ===== *)
theory R2P_Client
  imports R2P_Race "HOL-Library.Monad_Syntax"
begin

text \<open>
  \<open>pkg/r2pclient\<close> and \<open>cmd/r2p-list\<close>: the client that fetches request-to-pay records page by page.
  The transport is a parameter \<open>get\<close> from a URL and its query to an error or a status with a
  JSON body; the router's list handler is one such transport. Member names are matched exactly.
  The base URL is one that \<open>url.Parse\<close> accepts.
\<close>

section \<open>client.go\<close>

record R2PRecord =
  cl_ID :: string
  cl_From :: string
  cl_To :: string
  cl_Status :: string
  cl_CreatedUTC :: i64
  cl_UpdatedUTC :: i64
  cl_PaidUTC :: i64
  cl_DeclinedUTC :: i64
  cl_CanceledUTC :: i64

record listResp =
  lr_OK :: bool
  lr_Records :: "R2PRecord list"
  lr_NextCursor :: string

text \<open>
  \<open>encoding/json\<close> on a member: absent or null leaves the zero value, another type is an error, and
  so is for an integer a number not written as one (but \<open>-0\<close> is zero).
\<close>

definition dec_str :: "string \<Rightarrow> json \<Rightarrow> string option" where
  "dec_str k j = (case jget k j of None \<Rightarrow> Some [] | Some JNull \<Rightarrow> Some [] | Some (JStr s) \<Rightarrow> Some s
     | Some _ \<Rightarrow> None)"

definition dec_i64_field :: "string \<Rightarrow> json \<Rightarrow> i64 option" where
  "dec_i64_field k j = (case jget k j of
     None \<Rightarrow> Some 0
   | Some JNull \<Rightarrow> Some 0
   | Some (JDec s) \<Rightarrow> if s = ''-0'' then Some 0 else None
   | Some (JNum n) \<Rightarrow> if - (2 ^ 63) \<le> n \<and> n < 2 ^ 63 then Some (of_int n) else None
   | Some _ \<Rightarrow> None)"

definition dec_bool :: "string \<Rightarrow> json \<Rightarrow> bool option" where
  "dec_bool k j = (case jget k j of None \<Rightarrow> Some False | Some JNull \<Rightarrow> Some False | Some (JBool b) \<Rightarrow> Some b | Some _ \<Rightarrow> None)"

definition dec_record :: "json \<Rightarrow> R2PRecord option" where
  "dec_record j = (case j of
     JObj _ \<Rightarrow> do {
       i \<leftarrow> dec_str ''id'' j;
       f \<leftarrow> dec_str ''from'' j;
       t \<leftarrow> dec_str ''to'' j;
       st \<leftarrow> dec_str ''status'' j;
       cr \<leftarrow> dec_i64_field ''created_utc'' j;
       up \<leftarrow> dec_i64_field ''updated_utc'' j;
       pa \<leftarrow> dec_i64_field ''paid_utc'' j;
       de \<leftarrow> dec_i64_field ''declined_utc'' j;
       ca \<leftarrow> dec_i64_field ''canceled_utc'' j;
       Some \<lparr>cl_ID = i, cl_From = f, cl_To = t, cl_Status = st, cl_CreatedUTC = cr, cl_UpdatedUTC = up,
         cl_PaidUTC = pa, cl_DeclinedUTC = de, cl_CanceledUTC = ca\<rparr> }
   | JNull \<Rightarrow> Some \<lparr>cl_ID = [], cl_From = [], cl_To = [], cl_Status = [], cl_CreatedUTC = 0, cl_UpdatedUTC = 0,
       cl_PaidUTC = 0, cl_DeclinedUTC = 0, cl_CanceledUTC = 0\<rparr>
   | _ \<Rightarrow> None)"

definition dec_records :: "json \<Rightarrow> R2PRecord list option" where
  "dec_records j = (case jget ''records'' j of
     None \<Rightarrow> Some [] | Some JNull \<Rightarrow> Some [] | Some (JArr xs) \<Rightarrow> those (map dec_record xs) | Some _ \<Rightarrow> None)"

text \<open>\<open>Cursor.UnmarshalJSON\<close>: null is empty, a string is itself, a number is kept as its text.\<close>

definition Cursor_UnmarshalJSON :: "json \<Rightarrow> string option" where
  "Cursor_UnmarshalJSON j = (case j of
     JNull \<Rightarrow> Some []
   | JStr s \<Rightarrow> Some s
   | JDec s \<Rightarrow> Some s
   | JNum n \<Rightarrow> Some (if n < 0 then CHR ''-'' # dec_nat (nat (- n)) else dec_nat (nat n))
   | _ \<Rightarrow> None)"

definition dec_resp :: "(json \<Rightarrow> string option) \<Rightarrow> json option \<Rightarrow> listResp option" where
  "dec_resp dec_cursor body = (case body of
     Some (JObj kvs) \<Rightarrow> do {
       ok \<leftarrow> dec_bool ''ok'' (JObj kvs);
       recs \<leftarrow> dec_records (JObj kvs);
       cur \<leftarrow> (case jget ''next_cursor'' (JObj kvs) of None \<Rightarrow> Some [] | Some c \<Rightarrow> dec_cursor c);
       Some \<lparr>lr_OK = ok, lr_Records = recs, lr_NextCursor = cur\<rparr> }
   | Some JNull \<Rightarrow> Some \<lparr>lr_OK = False, lr_Records = [], lr_NextCursor = []\<rparr>
   | _ \<Rightarrow> None)"

type_synonym query = "(string \<times> string) list"
type_synonym transport = "string \<Rightarrow> query \<Rightarrow> string + nat \<times> json option"

text \<open>\<open>url.Values.Encode\<close> lists the query by key.\<close>

definition Encode :: "query \<Rightarrow> query" where
  "Encode q = sort_key fst q"

definition set_if :: "string \<Rightarrow> string \<Rightarrow> query" where
  "set_if k v = (if v = [] then [] else [(k, v)])"

definition fetch_query :: "string \<Rightarrow> string \<Rightarrow> string \<Rightarrow> i64 \<Rightarrow> string \<Rightarrow> query" where
  "fetch_query owner status role limit cursor = Encode
     ([(''owner'', owner)] @ set_if ''status'' status @ [(''role'', role), (''limit'', dec_i64 limit)]
      @ set_if ''cursor'' cursor)"

fun fetch_pages ::
  "transport \<Rightarrow> string \<Rightarrow> (string \<Rightarrow> query) \<Rightarrow> nat \<Rightarrow> string \<Rightarrow> R2PRecord list \<Rightarrow> R2PRecord list result" where
  "fetch_pages get url q 0 cursor acc = Inr acc"
| "fetch_pages get url q (Suc n) cursor acc =
     (case get url (q cursor) of
        Inl err \<Rightarrow> Inl err
      | Inr (status, body) \<Rightarrow>
          if status \<noteq> 200 then Inl (''bad status '' @ dec_nat status)
          else case dec_resp Cursor_UnmarshalJSON body of
            None \<Rightarrow> Inl ''json''
          | Some lr \<Rightarrow>
              if \<not> lr_OK lr then Inl ''ok=false''
              else if lr_NextCursor lr = [] then Inr (acc @ lr_Records lr)
              else fetch_pages get url q n (lr_NextCursor lr) (acc @ lr_Records lr))"

definition FetchAllR2P ::
  "transport \<Rightarrow> string \<Rightarrow> string \<Rightarrow> string \<Rightarrow> string \<Rightarrow> i64 \<Rightarrow> R2PRecord list result" where
  "FetchAllR2P get base owner status role limit =
     (let role = (if role = [] then ''payee'' else role);
          limit = (if sint limit \<le> 0 then 50 else limit)
      in fetch_pages get (base @ ''/r2p/list'') (fetch_query owner status role limit) 100 [] [])"

section \<open>pager.go\<close>

record Pager =
  pg_Base :: string
  pg_Owner :: string
  pg_Role :: string
  pg_Status :: string
  pg_Limit :: i64
  pg_cursor :: string
  pg_done :: bool

definition NewPager :: "string \<Rightarrow> string \<Rightarrow> string \<Rightarrow> string \<Rightarrow> i64 \<Rightarrow> Pager" where
  "NewPager base owner role status limit =
     \<lparr>pg_Base = base, pg_Owner = owner, pg_Role = role, pg_Status = status,
      pg_Limit = (if sint limit \<le> 0 then 50 else limit), pg_cursor = [], pg_done = False\<rparr>"

definition pager_query :: "Pager \<Rightarrow> query" where
  "pager_query p = Encode
     ([(''owner'', pg_Owner p)] @ set_if ''role'' (pg_Role p) @ set_if ''status'' (pg_Status p)
      @ [(''limit'', dec_i64 (pg_Limit p))] @ set_if ''cursor'' (pg_cursor p))"

text \<open>A cursor member of type \<open>string\<close>.\<close>

definition string_cursor :: "json \<Rightarrow> string option" where
  "string_cursor j = (case j of JNull \<Rightarrow> Some [] | JStr s \<Rightarrow> Some s | _ \<Rightarrow> None)"

definition pager_Next :: "transport \<Rightarrow> Pager \<Rightarrow> (R2PRecord list \<times> bool) result \<times> Pager" where
  "pager_Next get p =
     (if pg_done p then (Inr ([], True), p)
      else case get (pg_Base p @ ''/r2p/list'') (pager_query p) of
        Inl err \<Rightarrow> (Inl err, p)
      | Inr (status, body) \<Rightarrow>
          if status \<noteq> 200 then (Inl (''http '' @ dec_nat status), p)
          else case dec_resp string_cursor body of
            None \<Rightarrow> (Inl ''json'', p)
          | Some lr \<Rightarrow>
              if \<not> lr_OK lr then (Inl ''ok=false'', p)
              else
                let p = (if lr_NextCursor lr = [] then p\<lparr>pg_done := True\<rparr> else p\<lparr>pg_cursor := lr_NextCursor lr\<rparr>)
                in (Inr (lr_Records lr, pg_done p), p))"

section \<open>cmd/r2p-list\<close>

definition updatedOf :: "R2PRecord \<Rightarrow> i64" where
  "updatedOf r =
     (if cl_PaidUTC r \<noteq> 0 then cl_PaidUTC r
      else if cl_DeclinedUTC r \<noteq> 0 then cl_DeclinedUTC r
      else if cl_CanceledUTC r \<noteq> 0 then cl_CanceledUTC r
      else if cl_UpdatedUTC r \<noteq> 0 then cl_UpdatedUTC r
      else cl_CreatedUTC r)"

text \<open>The node's own list handler as a transport.\<close>

definition list_req :: "query \<Rightarrow> unit Request" where
  "list_req q = \<lparr>rq_Method = ''GET'', rq_Path = ''/r2p/list'', rq_Header = (\<lambda>k. []),
     rq_Query = (\<lambda>k. case map_of q k of Some v \<Rightarrow> v | None \<Rightarrow> []), rq_Remote = [], rq_Body = None\<rparr>"

definition router_get :: "Config \<Rightarrow> Router \<Rightarrow> transport" where
  "router_get c rt url q = (let r = r2pListHandlerOpaque c (list_req q) rt in Inr (rs_status r, rs_body r))"

section \<open>Paging\<close>

text \<open>
  A server that answers with pages: page \<open>i\<close> under the cursor \<open>cur i\<close>, the first without a cursor,
  the last without a next one.
\<close>

definition serves :: "transport \<Rightarrow> string \<Rightarrow> (string \<Rightarrow> query) \<Rightarrow> (nat \<Rightarrow> string) \<Rightarrow> R2PRecord list list \<Rightarrow> bool" where
  "serves get url q cur pages \<longleftrightarrow> pages \<noteq> [] \<and> cur 0 = []
     \<and> (\<forall>i < length pages. (0 < i \<longrightarrow> cur i \<noteq> []) \<and> (\<exists>body. get url (q (cur i)) = Inr (200, body)
          \<and> dec_resp string_cursor body = Some \<lparr>lr_OK = True, lr_Records = pages ! i,
              lr_NextCursor = (if i + 1 < length pages then cur (i + 1) else [])\<rparr>))"

lemma dec_resp_cursor: "dec_resp string_cursor body = Some lr \<Longrightarrow> dec_resp Cursor_UnmarshalJSON body = Some lr"
proof -
  have "Cursor_UnmarshalJSON j = Some c" if "string_cursor j = Some c" for j c
    using that by (auto simp: string_cursor_def Cursor_UnmarshalJSON_def split: json.splits)
  then show "dec_resp string_cursor body = Some lr \<Longrightarrow> ?thesis"
    by (auto simp: dec_resp_def bind_eq_Some_conv split: option.splits json.splits)
qed

lemma fetch_pages_serves:
  assumes "serves get url q cur pages"
  shows "i < length pages \<Longrightarrow>
    fetch_pages get url q n (cur i) acc = Inr (acc @ concat (take n (drop i pages)))"
proof (induction n arbitrary: i acc)
  case (Suc n)
  from assms Suc.prems obtain body where "get url (q (cur i)) = Inr (200, body)"
    and lr: "dec_resp string_cursor body = Some \<lparr>lr_OK = True, lr_Records = pages ! i,
      lr_NextCursor = (if i + 1 < length pages then cur (i + 1) else [])\<rparr>" (is "_ = Some ?lr")
    by (auto simp: serves_def)
  with dec_resp_cursor [OF lr]
  have step: "fetch_pages get url q (Suc n) (cur i) acc =
      (if lr_NextCursor ?lr = [] then Inr (acc @ pages ! i)
       else fetch_pages get url q n (cur (i + 1)) (acc @ pages ! i))" by simp
  have drop: "drop i pages = pages ! i # drop (i + 1) pages" using Suc.prems by (simp add: Cons_nth_drop_Suc)
  show ?case
  proof (cases "i + 1 < length pages")
    case True
    with assms have "cur (i + 1) \<noteq> []" by (auto simp: serves_def)
    with True Suc.IH [OF True] show ?thesis unfolding step drop by simp
  next
    case False
    then show ?thesis unfolding step drop by simp
  qed
qed simp

definition page_rec :: "string \<Rightarrow> R2PRecord" where
  "page_rec i = \<lparr>cl_ID = i, cl_From = [], cl_To = [], cl_Status = ''open'', cl_CreatedUTC = 0, cl_UpdatedUTC = 0,
     cl_PaidUTC = 0, cl_DeclinedUTC = 0, cl_CanceledUTC = 0\<rparr>"

definition page_body :: "string \<Rightarrow> (string \<times> json) list \<Rightarrow> json option" where
  "page_body i kvs = Some (JObj ([(''ok'', JBool True),
     (''records'', JArr [JObj [(''id'', JStr i), (''status'', JStr ''open'')]])] @ kvs))"

definition two_pages :: transport where
  "two_pages url q = Inr (200, if map_of q ''cursor'' = None then page_body ''a'' [(''next_cursor'', JStr ''c1'')]
     else page_body ''b'' [])"

lemma two_pages_serve:
  "serves two_pages url (fetch_query owner status role limit) (\<lambda>i. if i = 0 then [] else ''c1'')
     [[page_rec ''a''], [page_rec ''b'']]"
proof -
  have cursor: "map_of (fetch_query owner status role limit c) ''cursor'' = None \<longleftrightarrow> c = []" for c
    by (auto simp: fetch_query_def Encode_def map_of_eq_None_iff set_if_def)
  show ?thesis
    by (auto simp: serves_def two_pages_def cursor dec_resp_def page_body_def dec_bool_def dec_records_def jget_def
        string_cursor_def dec_record_def dec_str_def dec_i64_field_def page_rec_def less_Suc_eq)
qed

text \<open>
  Property C24. The client ends and gathers the pages: against a server with any number of pages it
  stops after at most a hundred requests and returns the records of the first hundred pages in
  order, all of them when there are no more; beyond that the rest is dropped without an error.
\<close>

theorem FetchAllR2P_pages:
  assumes "role \<noteq> []" "0 < sint limit"
    and "serves get (base @ ''/r2p/list'') (fetch_query owner status role limit) cur pages"
  shows "FetchAllR2P get base owner status role limit = Inr (concat (take 100 pages))"
proof -
  have "cur 0 = []" "0 < length pages" using assms(3) by (auto simp: serves_def)
  with fetch_pages_serves [OF assms(3), of 0 100 "[]"] assms(1,2)
  show ?thesis by (simp add: FetchAllR2P_def)
qed

theorem FetchAllR2P_pages_witness:
  "FetchAllR2P two_pages ''http://n'' ''tho1bob'' [] ''inbox'' 1 = Inr [page_rec ''a'', page_rec ''b'']"
  using FetchAllR2P_pages [OF _ _ two_pages_serve, of "''inbox''" 1 "''http://n''" "''tho1bob''" "[]"] by simp

text \<open>The pager driven by a caller until it reports the end.\<close>

fun drain :: "transport \<Rightarrow> nat \<Rightarrow> Pager \<Rightarrow> R2PRecord list result option" where
  "drain get 0 p = None"
| "drain get (Suc n) p = (case pager_Next get p of
     (Inl err, _) \<Rightarrow> Some (Inl err)
   | (Inr (recs, end), p') \<Rightarrow>
       if end then Some (Inr recs)
       else map_option (map_sum id ((@) recs)) (drain get n p'))"

lemma pager_query_fetch:
  assumes "pg_Role p \<noteq> []"
  shows "pager_query p = fetch_query (pg_Owner p) (pg_Status p) (pg_Role p) (pg_Limit p) (pg_cursor p)"
proof -
  have "inj_on fst (set ([(''owner'', pg_Owner p)] @ set_if ''role'' (pg_Role p) @ set_if ''status'' (pg_Status p)
      @ [(''limit'', dec_i64 (pg_Limit p))] @ set_if ''cursor'' (pg_cursor p)))"
    by (auto simp: set_if_def)
  then show ?thesis
    using assms unfolding pager_query_def fetch_query_def Encode_def
    by (intro sort_key_cong_mset) (simp_all add: set_if_def)
qed

lemma drain_serves:
  assumes "serves get (pg_Base p @ ''/r2p/list'') (fetch_query (pg_Owner p) (pg_Status p) (pg_Role p) (pg_Limit p)) cur pages"
    and "pg_Role p \<noteq> []" "\<not> pg_done p"
  shows "i < length pages \<Longrightarrow> length pages - i \<le> n \<Longrightarrow>
    drain get n (p\<lparr>pg_cursor := cur i\<rparr>) = Some (Inr (concat (drop i pages)))"
proof (induction n arbitrary: i)
  case (Suc n)
  let ?p = "p\<lparr>pg_cursor := cur i\<rparr>"
  from assms(1) Suc.prems(1) obtain body
    where "get (pg_Base p @ ''/r2p/list'') (fetch_query (pg_Owner p) (pg_Status p) (pg_Role p) (pg_Limit p) (cur i)) = Inr (200, body)"
    and lr: "dec_resp string_cursor body = Some \<lparr>lr_OK = True, lr_Records = pages ! i,
      lr_NextCursor = (if i + 1 < length pages then cur (i + 1) else [])\<rparr>"
    by (auto simp: serves_def)
  moreover have "pager_query ?p = fetch_query (pg_Owner p) (pg_Status p) (pg_Role p) (pg_Limit p) (cur i)"
    using pager_query_fetch [of ?p] assms(2) by simp
  ultimately have get: "get (pg_Base ?p @ ''/r2p/list'') (pager_query ?p) = Inr (200, body)" by simp
  have drop: "drop i pages = pages ! i # drop (i + 1) pages" using Suc.prems by (simp add: Cons_nth_drop_Suc)
  show ?case
  proof (cases "i + 1 < length pages")
    case True
    with assms(1) have cur: "cur (i + 1) \<noteq> []" by (auto simp: serves_def)
    have "pager_Next get ?p = (Inr (pages ! i, False), p\<lparr>pg_cursor := cur (i + 1)\<rparr>)"
      using get lr True cur assms(3) by (simp add: pager_Next_def Let_def)
    moreover have "drain get n (p\<lparr>pg_cursor := cur (i + 1)\<rparr>) = Some (Inr (concat (drop (i + 1) pages)))"
      using Suc.IH [OF True] Suc.prems(2) True by simp
    ultimately show ?thesis unfolding drop by simp
  next
    case False
    then have "pager_Next get ?p = (Inr (pages ! i, True), ?p\<lparr>pg_done := True\<rparr>)"
      using get lr assms(3) by (simp add: pager_Next_def Let_def)
    with False show ?thesis unfolding drop by simp
  qed
qed simp

text \<open>
  Fact. The two clients agree: against a server of at most a hundred pages, a pager driven to
  its end returns exactly what \<open>FetchAllR2P\<close> returns, within as many calls as there are pages.
\<close>

theorem pager_agrees:
  assumes "role \<noteq> []" "0 < sint limit" "length pages \<le> 100"
    and "serves get (base @ ''/r2p/list'') (fetch_query owner status role limit) cur pages"
  shows "drain get (length pages) (NewPager base owner role status limit) = Some (FetchAllR2P get base owner status role limit)"
proof -
  let ?p = "NewPager base owner role status limit"
  have cur: "cur 0 = []" "0 < length pages" using assms(4) by (auto simp: serves_def)
  have sel: "pg_Base ?p = base" "pg_Owner ?p = owner" "pg_Status ?p = status" "pg_Role ?p = role" "pg_Limit ?p = limit"
    "\<not> pg_done ?p" "?p\<lparr>pg_cursor := []\<rparr> = ?p"
    using assms(2) by (simp_all add: NewPager_def)
  have "drain get (length pages) ?p = Some (Inr (concat pages))"
    using drain_serves [of get ?p cur pages 0 "length pages"] assms(1,4) cur by (simp add: sel)
  moreover have "FetchAllR2P get base owner status role limit = Inr (concat pages)"
    using fetch_pages_serves [OF assms(4), of 0 100 "[]"] cur assms(1-3) by (simp add: FetchAllR2P_def)
  ultimately show ?thesis by simp
qed

theorem pager_agrees_witness:
  "drain two_pages 2 (NewPager ''http://n'' ''tho1bob'' ''inbox'' [] 1) = Some (FetchAllR2P two_pages ''http://n'' ''tho1bob'' [] ''inbox'' 1)"
  using pager_agrees [OF _ _ _ two_pages_serve, of "''inbox''" 1 "''http://n''" "''tho1bob''" "[]"]
  by (simp add: numeral_2_eq_2)

section \<open>Against the router\<close>

definition client_view :: "r2pRecord \<Rightarrow> R2PRecord" where
  "client_view r = \<lparr>cl_ID = r_ID r, cl_From = r_From r, cl_To = r_To r, cl_Status = r_Status r,
     cl_CreatedUTC = r_CreatedUTC r, cl_UpdatedUTC = 0, cl_PaidUTC = r_PaidUTC r,
     cl_DeclinedUTC = r_DeclinedUTC r, cl_CanceledUTC = r_CanceledUTC r\<rparr>"

lemma sint_i64_range: "- (2 ^ 63) \<le> sint (x :: i64)" "sint (x :: i64) < 2 ^ 63"
  using sint_ge [of x] sint_lt [of x] by simp_all

lemma dec_record_json: "dec_record (record_json r) = Some (client_view r)"
  using sint_i64_range
  by (simp add: dec_record_def record_json_def dec_str_def dec_i64_field_def jget_def ji64_def ju64_def client_view_def)

lemma dec_resp_list:
  "dec_resp Cursor_UnmarshalJSON (Some (JObj [(''ok'', JBool True), (''records'', JArr (map record_json recs))]))
   = Some \<lparr>lr_OK = True, lr_Records = map client_view recs, lr_NextCursor = []\<rparr>"
proof -
  have "those (map dec_record (map record_json recs)) = Some (map client_view recs)"
    by (induction recs) (simp_all add: dec_record_json)
  then show ?thesis by (simp add: dec_resp_def dec_bool_def dec_records_def jget_def)
qed

lemma fetch_from_router:
  assumes "featR2P c"
  shows "fetch_pages (router_get c rt) url q 100 [] [] =
    (case r2pList_out c (rq_Query (list_req (q []))) rt of
       Inl err \<Rightarrow> Inl ''bad status 400'' | Inr recs \<Rightarrow> Inr (map client_view recs))"
proof -
  have status: "dec_nat 400 = ''400''" by code_simp
  have hundred: "100 = Suc 99" by simp
  show ?thesis
    unfolding hundred fetch_pages.simps router_get_def r2pListHandlerOpaque_def
    using assms status dec_resp_list by (simp add: list_req_def reply_def Let_def split: sum.split)
qed

lemma map_of_sort:
  assumes "gm_wf m"
  shows "map_of (sort_key fst m) = map_of m"
proof -
  have "mset (map fst (sort_key fst m)) = mset (map fst m)" by (simp only: mset_map mset_sort)
  with assms have "gm_wf (sort_key fst m)" by (metis mset_eq_imp_distinct_iff)
  with assms show ?thesis by (simp add: map_of_inject_set)
qed

lemma query_lookup:
  "rq_Query (list_req (fetch_query owner status role limit [])) k =
     (if k = ''owner'' then owner else if k = ''status'' then status else if k = ''role'' then role
      else if k = ''limit'' then dec_i64 limit else [])"
proof -
  let ?q = "[(''owner'', owner)] @ set_if ''status'' status @ [(''role'', role), (''limit'', dec_i64 limit)]"
  have wf: "gm_wf ?q" by (simp add: set_if_def)
  from map_of_sort [OF wf] show ?thesis by (simp add: list_req_def fetch_query_def Encode_def set_if_def)
qed



text \<open>
  Fact. With its own default role the client never gets an answer: the role \<open>payee\<close> is none of
  the roles the node accepts, whatever the owner and the status.
\<close>

theorem FetchAllR2P_default_role:
  assumes "featR2P c"
  shows "FetchAllR2P (router_get c rt) base owner status [] limit = Inl ''bad status 400''"
proof -
  have "to_lower (trim_space ''payee'') = ''payee''" by code_simp
  then have "\<exists>err. r2pList_out c (rq_Query (list_req (fetch_query owner status ''payee'' l []))) rt = Inl err" for l
    by (auto simp: r2pList_out_def query_lookup Let_def split: option.split)
  then have "(case r2pList_out c (rq_Query (list_req (fetch_query owner status ''payee'' l []))) rt of
      Inl err \<Rightarrow> Inl ''bad status 400'' | Inr recs \<Rightarrow> Inr (map client_view recs)) = Inl ''bad status 400''" for l
    by (metis sum.case(1))
  then show ?thesis by (simp add: FetchAllR2P_def fetch_from_router [OF assms] Let_def)
qed

theorem FetchAllR2P_default_role_witness:
  "FetchAllR2P (router_get demo_cfg demo_rt) ''http://n'' ''tho1alice'' ''open'' [] 2 = Inl ''bad status 400''"
proof -
  have "featR2P demo_cfg" by code_simp
  then show ?thesis by (rule FetchAllR2P_default_role)
qed

end
