(* ===== verification/Signed_Proxy.thy ===== *)
theory Signed_Proxy
  imports R2P_Client Wallet
begin

text \<open>
  \<open>tools/signedmsg_proxy\<close>: a server in front of a node that adds to a signed round header the message
  that was signed and whether the signature holds. The transport to the node is a parameter, as is
  which addresses \<open>http.NewRequest\<close> accepts; \<open>None\<close> is a panic of the handler, which closes the
  connection. Bodies are represented by their JSON value; what the node answers is passed through
  unchanged.
\<close>

section \<open>Data\<close>

record hdr =
  h_Round :: i64
  h_FromHeight :: i64
  h_ToHeight :: i64
  h_TxCount :: i64
  h_Root :: string
  h_TimeUTC :: i64

record signedResp =
  s_Algo :: string
  s_Header :: hdr
  s_PubHex :: string
  s_SigHex :: string

record outMsg =
  o_Algo :: string
  o_Header :: hdr
  o_MessageHex :: string
  o_MessageB64 :: string
  o_PubKeyHex :: string
  o_SignatureHex :: string
  o_SignatureValid :: bool

definition zero_hdr :: hdr where
  "zero_hdr = \<lparr>h_Round = 0, h_FromHeight = 0, h_ToHeight = 0, h_TxCount = 0, h_Root = [], h_TimeUTC = 0\<rparr>"

text \<open>\<open>json.Unmarshal\<close> into the two structs; member names are matched exactly.\<close>

definition dec_hdr :: "json \<Rightarrow> hdr option" where
  "dec_hdr j = (case j of
     JObj _ \<Rightarrow> do {
       r \<leftarrow> dec_i64_field ''round'' j;
       f \<leftarrow> dec_i64_field ''from_height'' j;
       t \<leftarrow> dec_i64_field ''to_height'' j;
       n \<leftarrow> dec_i64_field ''tx_count'' j;
       root \<leftarrow> dec_str ''root'' j;
       utc \<leftarrow> dec_i64_field ''time_utc'' j;
       Some \<lparr>h_Round = r, h_FromHeight = f, h_ToHeight = t, h_TxCount = n, h_Root = root, h_TimeUTC = utc\<rparr> }
   | _ \<Rightarrow> None)"

definition dec_signedResp :: "json option \<Rightarrow> signedResp option" where
  "dec_signedResp body = (case body of
     Some (JObj kvs) \<Rightarrow> do {
       algo \<leftarrow> dec_str ''algo'' (JObj kvs);
       h \<leftarrow> (case jget ''header'' (JObj kvs) of None \<Rightarrow> Some zero_hdr | Some j \<Rightarrow> dec_hdr j);
       pub \<leftarrow> dec_str ''pubkey_hex'' (JObj kvs);
       sig \<leftarrow> dec_str ''signature_hex'' (JObj kvs);
       Some \<lparr>s_Algo = algo, s_Header = h, s_PubHex = pub, s_SigHex = sig\<rparr> }
   | _ \<Rightarrow> None)"

text \<open>\<open>json.Marshal\<close> of the header, as text and as a value.\<close>

definition hdr_json :: "hdr \<Rightarrow> string" where
  "hdr_json h = ''{'' @ json_key ''round'' @ dec_i64 (h_Round h)
     @ '','' @ json_key ''from_height'' @ dec_i64 (h_FromHeight h)
     @ '','' @ json_key ''to_height'' @ dec_i64 (h_ToHeight h)
     @ '','' @ json_key ''tx_count'' @ dec_i64 (h_TxCount h)
     @ '','' @ json_key ''root'' @ json_string (h_Root h)
     @ '','' @ json_key ''time_utc'' @ dec_i64 (h_TimeUTC h) @ ''}''"

definition hdr_obj :: "hdr \<Rightarrow> json" where
  "hdr_obj h = JObj [(''round'', ji64 (h_Round h)), (''from_height'', ji64 (h_FromHeight h)),
     (''to_height'', ji64 (h_ToHeight h)), (''tx_count'', ji64 (h_TxCount h)), (''root'', JStr (h_Root h)),
     (''time_utc'', ji64 (h_TimeUTC h))]"

definition outMsg_obj :: "outMsg \<Rightarrow> json" where
  "outMsg_obj m = JObj ([(''algo'', JStr (o_Algo m)), (''header'', hdr_obj (o_Header m))]
     @ omitempty ''message_hex'' (o_MessageHex m) @ omitempty ''message_b64'' (o_MessageB64 m)
     @ [(''pubkey_hex'', JStr (o_PubKeyHex m)), (''signature_hex'', JStr (o_SignatureHex m)),
        (''signature_valid'', JBool (o_SignatureValid m))])"

section \<open>Replies\<close>

text \<open>\<open>WriteHeader\<close> panics on a status outside three digits.\<close>

definition proxy_writeJSON :: "nat \<Rightarrow> json option \<Rightarrow> Response option" where
  "proxy_writeJSON code body = (if code < 100 \<or> 999 < code then None
     else Some \<lparr>rs_status = code, rs_header = ctJSON8, rs_body = body\<rparr>)"

definition writeErr :: "nat \<Rightarrow> string \<Rightarrow> string \<Rightarrow> Response option" where
  "writeErr code codeStr detail = proxy_writeJSON code (Some (JObj
     [(''applied'', JBool False),
      (''error'', JObj ([(''code'', JStr codeStr), (''message'', JStr [])] @ omitempty ''detail'' detail)),
      (''ok'', JBool False)]))"

definition firstNonEmpty :: "string \<Rightarrow> string \<Rightarrow> string" where
  "firstNonEmpty a b = (if trim_space a \<noteq> [] then a else b)"

text \<open>
  The node behind the proxy: whether a URL can be requested at all, and the answer to a GET, an error
  or a status with a body. A request that cannot be made is a nil pointer, used at once.
\<close>

record Backend =
  b_url_ok :: "string \<Rightarrow> bool"
  b_get :: "string \<Rightarrow> string + nat \<times> json option"

definition proxyGET :: "Backend \<Rightarrow> string \<Rightarrow> (string + nat \<times> json option) option" where
  "proxyGET b url = (if b_url_ok b url then Some (b_get b url) else None)"

definition verifySig :: "(bytes \<Rightarrow> bytes \<Rightarrow> bytes \<Rightarrow> bool) \<Rightarrow> string \<Rightarrow> string \<Rightarrow> bytes \<Rightarrow> bool result" where
  "verifySig verify pubHex sigHex msg =
     (case hex_decode (trim_space pubHex) of
        None \<Rightarrow> Inl ''bad pubkey_hex''
      | Some pub \<Rightarrow> (case hex_decode (trim_space sigHex) of
          None \<Rightarrow> Inl ''bad signature_hex''
        | Some sig \<Rightarrow>
            if length pub \<noteq> 32 \<or> length sig \<noteq> 64 then Inl ''invalid key/signature length''
            else Inr (verify pub msg sig)))"

definition proxy_prefix :: string where "proxy_prefix = ''THOMAS|hdr|v1|''"

text \<open>What is answered for a signed header; an error of the check counts as not valid.\<close>

definition signed_message :: "(bytes \<Rightarrow> bytes \<Rightarrow> bytes \<Rightarrow> bool) \<Rightarrow> signedResp \<Rightarrow> outMsg" where
  "signed_message verify s =
     (let msg = bytes_of (proxy_prefix @ hdr_json (s_Header s))
      in \<lparr>o_Algo = firstNonEmpty (s_Algo s) ''ed25519'', o_Header = s_Header s, o_MessageHex = hex_encode msg,
          o_MessageB64 = b64_encode False msg, o_PubKeyHex = s_PubHex s, o_SignatureHex = s_SigHex s,
          o_SignatureValid = (verifySig verify (s_PubHex s) (s_SigHex s) msg = Inr True)\<rparr>)"

definition handleSignedMsg ::
  "(bytes \<Rightarrow> bytes \<Rightarrow> bytes \<Rightarrow> bool) \<Rightarrow> Backend \<Rightarrow> string \<Rightarrow> string \<Rightarrow> Response option" where
  "handleSignedMsg verify b base round =
     (case proxyGET b (base @ ''/round/'' @ round @ ''/signed'') of
        None \<Rightarrow> None
      | Some (Inl e) \<Rightarrow> writeErr 502 ''bad_gateway'' e
      | Some (Inr (code, j)) \<Rightarrow>
          if code \<noteq> 200 then proxy_writeJSON code j
          else case dec_signedResp j of
            None \<Rightarrow> writeErr 502 ''bad_gateway'' ''unmarshal backend signed''
          | Some s \<Rightarrow> proxy_writeJSON 200 (Some (outMsg_obj (signed_message verify s))))"

section \<open>Routes\<close>

text \<open>A failed request leaves status 0 and no body.\<close>

definition proxy_health :: "Backend \<Rightarrow> string \<Rightarrow> Response option" where
  "proxy_health b base =
     (case proxyGET b (base @ ''/health'') of
        None \<Rightarrow> None
      | Some (Inl e) \<Rightarrow> proxy_writeJSON 0 None
      | Some (Inr (code, j)) \<Rightarrow> proxy_writeJSON code j)"

definition proxy_round ::
  "(bytes \<Rightarrow> bytes \<Rightarrow> bytes \<Rightarrow> bool) \<Rightarrow> Backend \<Rightarrow> string \<Rightarrow> 'b Request \<Rightarrow> Response option" where
  "proxy_round verify b base rq =
     (let parts = split_at (CHR ''/'') (trim_prefix (rq_Path rq) ''/round/'')
      in if length parts = 2 \<and> parts ! 1 = ''signed_msg'' then
           (if parts ! 0 = ''latest'' then handleSignedMsg verify b base ''latest''
            else case ParseInt (parts ! 0) of
              None \<Rightarrow> writeErr 400 ''bad_request'' (''round must be integer or '' @ [CHR 0x27] @ ''latest'' @ [CHR 0x27])
            | Some n \<Rightarrow> handleSignedMsg verify b base (dec_i64 n))
         else writeErr 404 ''not_found'' ''unknown path'')"

definition proxy_tx :: "Backend \<Rightarrow> string \<Rightarrow> 'b Request \<Rightarrow> Response option" where
  "proxy_tx b base rq =
     (let hash = trim_prefix (rq_Path rq) ''/tx/''
      in if hash = [] then writeErr 400 ''bad_request'' ''missing tx hash''
         else case proxyGET b (base @ ''/tx/'' @ hash) of
           None \<Rightarrow> None
         | Some (Inl e) \<Rightarrow> writeErr 502 ''bad_gateway'' e
         | Some (Inr (code, j)) \<Rightarrow> proxy_writeJSON code j)"

definition proxy_patterns :: "string list" where
  "proxy_patterns = [''/health'', ''/round/latest/signed_msg'', ''/round/'', ''/tx/'']"

definition proxy_mux ::
  "(bytes \<Rightarrow> bytes \<Rightarrow> bytes \<Rightarrow> bool) \<Rightarrow> Backend \<Rightarrow> string \<Rightarrow> 'b Request \<Rightarrow> Response option" where
  "proxy_mux verify b base rq = mux_route proxy_patterns rq Some
     (\<lambda>p. if p = ''/health'' then proxy_health b base
          else if p = ''/round/latest/signed_msg'' then handleSignedMsg verify b base ''latest''
          else if p = ''/round/'' then proxy_round verify b base rq
          else proxy_tx b base rq)"

text \<open>The base address of the node: the flag, else the process variable; without one the tool stops.\<close>

definition proxy_main ::
  "(bytes \<Rightarrow> bytes \<Rightarrow> bytes \<Rightarrow> bool) \<Rightarrow> Backend \<Rightarrow> string \<Rightarrow> (string \<Rightarrow> string) \<Rightarrow> ('b Request \<Rightarrow> Response option) result" where
  "proxy_main verify b flagBase getenv =
     (let base = firstNonEmpty flagBase (getenv ''THOMAS_BASE'')
      in if base = [] then Inl ''missing -base (or THOMAS_BASE)'' else Inr (proxy_mux verify b base))"

section \<open>In front of a node\<close>

text \<open>The header as the proxy reads it; numbers of 63 bits keep their value.\<close>

definition hdr_of :: "RoundHeader \<Rightarrow> hdr" where
  "hdr_of h = \<lparr>h_Round = rh_Round h, h_FromHeight = rh_FromHeight h, h_ToHeight = rh_ToHeight h,
     h_TxCount = rh_TxCount h, h_Root = rh_Root h, h_TimeUTC = rh_TimeUTC h\<rparr>"

definition fits63 :: "RoundHeader \<Rightarrow> bool" where
  "fits63 h \<longleftrightarrow> (\<forall>x \<in> set [rh_Round h, rh_FromHeight h, rh_ToHeight h, rh_TxCount h]. unat x < 2 ^ 63)"

lemma sint_63: "unat (x :: u64) < 2 ^ 63 \<Longrightarrow> sint x = int (unat x)"
proof -
  assume x: "unat x < 2 ^ 63"
  have u: "uint x = int (unat x)" by simp
  with x have "uint x < 2 ^ 63" by (simp del: of_nat_unat)
  moreover have "- (2 ^ 63) \<le> uint x" by (rule order_trans [OF _ uint_ge_0]) simp
  ultimately have "signed_take_bit 63 (uint x) = uint x" by (intro signed_take_bit_int_eq_self)
  then show ?thesis unfolding u [symmetric] by (simp add: sint_uint)
qed

lemma dec_i64_63: "unat x < 2 ^ 63 \<Longrightarrow> dec_i64 x = dec_nat (unat x)"
  by (simp add: dec_i64_def sint_63)

lemma hdr_json_canonical: "fits63 h \<Longrightarrow> bytes_of (hdr_json (hdr_of h)) = CanonicalRoundHeaderBytes h"
  by (simp add: fits63_def hdr_json_def hdr_of_def CanonicalRoundHeaderBytes_def dec_i64_63)

lemma dec_u64_field:
  assumes "jget k j = Some (ju64 x)" "unat x < 2 ^ 63"
  shows "dec_i64_field k j = Some x"
proof -
  have "uint x < 2 ^ 63" using sint_63 [OF assms(2)] sint_i64_range(2) [of x] by simp
  with assms(1) show ?thesis by (simp add: dec_i64_field_def ju64_def order_trans [OF _ uint_ge_0])
qed

lemma dec_hdr_round:
  assumes "fits63 h"
  shows "dec_hdr (round_obj h) = Some (hdr_of h)"
proof -
  have "dec_i64_field ''round'' (round_obj h) = Some (rh_Round h)"
    "dec_i64_field ''from_height'' (round_obj h) = Some (rh_FromHeight h)"
    "dec_i64_field ''to_height'' (round_obj h) = Some (rh_ToHeight h)"
    "dec_i64_field ''tx_count'' (round_obj h) = Some (rh_TxCount h)"
    using assms by (auto intro!: dec_u64_field simp: fits63_def round_obj_def jget_def)
  moreover have "dec_i64_field ''time_utc'' (round_obj h) = Some (rh_TimeUTC h)"
    using sint_range_size [of "rh_TimeUTC h"]
    by (simp add: dec_i64_field_def round_obj_def jget_def ji64_def word_size)
  moreover have "dec_str ''root'' (round_obj h) = Some (rh_Root h)"
    by (simp add: dec_str_def round_obj_def jget_def)
  ultimately show ?thesis by (simp add: dec_hdr_def hdr_of_def) (simp add: round_obj_def)
qed

definition node_sig :: "Env \<Rightarrow> Engine \<Rightarrow> RoundHeader \<Rightarrow> string" where
  "node_sig env e h = hex_encode (env_sign env (e_priv e) (CanonicalRoundHeaderBytes h))"

lemma dec_signed_round:
  assumes "fits63 h" "e_priv e \<noteq> []" "rh_SignatureHex h \<in> {[], node_sig env e h}"
  shows "dec_signedResp (rs_body (signed_round env e h)) =
    Some \<lparr>s_Algo = ''ed25519'', s_Header = hdr_of h, s_PubHex = PubKeyHex e, s_SigHex = node_sig env e h\<rparr>"
  using assms
  by (auto simp: dec_signedResp_def signed_round_def reply_def jget_def dec_str_def dec_hdr_round SignRoundHeader_def
      node_sig_def Let_def)

lemma trim_hex [simp]: "trim_space (hex_encode bs) = hex_encode bs"
  by (rule trim_space_id) (rule hex_encode_no_space)

section \<open>Properties\<close>

text \<open>
  Fact. What the proxy checks: in front of a node with a key, the latest signed round is
  answered with the node's header, key and signature, but the message shown and checked is the
  signed header text with the prefix \<open>THOMAS|hdr|v1|\<close> in front, while the node signs the text without
  it; \<open>signature_valid\<close> is therefore the outcome of checking a signature on another message.
\<close>

theorem proxy_checks_prefixed:
  assumes "LatestRound (rt_eng rt) = Some h" "fits63 h" "e_priv (rt_eng rt) \<noteq> []"
    and "rh_SignatureHex h \<in> {[], node_sig env (rt_eng rt) h}" and "rq_Method nrq = ''GET''"
    and "b_url_ok b (base @ ''/round/latest/signed'')"
    and "b_get b (base @ ''/round/latest/signed'') = Inr (200, rs_body (roundLatestSigned env nrq rt))"
    and "length (e_pub (rt_eng rt)) = 32"
    and "sig = env_sign env (e_priv (rt_eng rt)) (CanonicalRoundHeaderBytes h)" "length sig = 64"
  shows "handleSignedMsg verify b base ''latest'' = proxy_writeJSON 200 (Some (outMsg_obj
    \<lparr>o_Algo = ''ed25519'', o_Header = hdr_of h,
     o_MessageHex = hex_encode (bytes_of proxy_prefix @ CanonicalRoundHeaderBytes h),
     o_MessageB64 = b64_encode False (bytes_of proxy_prefix @ CanonicalRoundHeaderBytes h),
     o_PubKeyHex = hex_encode (e_pub (rt_eng rt)), o_SignatureHex = hex_encode sig,
     o_SignatureValid = verify (e_pub (rt_eng rt)) (bytes_of proxy_prefix @ CanonicalRoundHeaderBytes h) sig\<rparr>))"
proof -
  define e where "e = rt_eng rt"
  have "dec_signedResp (rs_body (roundLatestSigned env nrq rt)) =
    Some \<lparr>s_Algo = ''ed25519'', s_Header = hdr_of h, s_PubHex = PubKeyHex e, s_SigHex = node_sig env e h\<rparr>"
    using assms(1-5) by (simp add: roundLatestSigned_def get_only_def dec_signed_round e_def)
  moreover have "firstNonEmpty ''ed25519'' d = ''ed25519''" for d
    by (simp add: firstNonEmpty_def trim_space_def is_space_def)
  ultimately show ?thesis
    using assms(6-10) hdr_json_canonical [OF assms(2)]
    by (simp add: handleSignedMsg_def proxyGET_def signed_message_def verifySig_def node_sig_def PubKeyHex_def e_def Let_def)
qed

text \<open>A scheme whose signatures tell the length of the message.\<close>

definition len_sign :: "bytes \<Rightarrow> bytes \<Rightarrow> bytes" where
  "len_sign sk m = replicate 64 (of_nat (length m))"

definition len_verify :: "bytes \<Rightarrow> bytes \<Rightarrow> bytes \<Rightarrow> bool" where
  "len_verify pk m sig \<longleftrightarrow> sig = replicate 64 (of_nat (length m))"

definition proxy_hdr :: RoundHeader where
  "proxy_hdr = \<lparr>rh_Round = 1, rh_FromHeight = 1, rh_ToHeight = 2, rh_TxCount = 2, rh_Root = ''ab'', rh_TimeUTC = 5, rh_SignatureHex = []\<rparr>"

definition proxy_node :: Router where
  "proxy_node = demo_rt\<lparr>rt_eng := (rt_eng demo_rt)\<lparr>e_rounds := [proxy_hdr], e_priv := [1], e_pub := replicate 32 2\<rparr>\<rparr>"

definition proxy_backend :: Backend where
  "proxy_backend = \<lparr>b_url_ok = (\<lambda>u. True),
     b_get = (\<lambda>u. Inr (200, rs_body (roundLatestSigned (demo_env\<lparr>env_sign := len_sign\<rparr>) (path_req u) proxy_node)))\<rparr>"

theorem proxy_checks_prefixed_witness:
  "len_verify (replicate 32 2) (CanonicalRoundHeaderBytes proxy_hdr) (len_sign [1] (CanonicalRoundHeaderBytes proxy_hdr))
   \<and> (\<exists>r j. handleSignedMsg len_verify proxy_backend ''http://n'' ''latest'' = Some r \<and> rs_body r = Some j
        \<and> jget ''signature_valid'' j = Some (JBool False))"
proof -
  let ?env = "demo_env\<lparr>env_sign := len_sign\<rparr>" and ?url = "''http://n'' @ ''/round/latest/signed''"
  have "LatestRound (rt_eng proxy_node) = Some proxy_hdr" "e_priv (rt_eng proxy_node) = [1]" "e_pub (rt_eng proxy_node) = replicate 32 2"
    by (simp_all add: proxy_node_def LatestRound_def)
  moreover have "fits63 proxy_hdr" "rh_SignatureHex proxy_hdr = []" by (simp_all add: fits63_def proxy_hdr_def)
  moreover have "b_url_ok proxy_backend ?url" "rq_Method (path_req ?url) = ''GET''"
    "b_get proxy_backend ?url = Inr (200, rs_body (roundLatestSigned ?env (path_req ?url) proxy_node))"
    by (simp_all add: proxy_backend_def path_req_def)
  ultimately have run: "handleSignedMsg len_verify proxy_backend ''http://n'' ''latest'' = proxy_writeJSON 200 (Some (outMsg_obj
    \<lparr>o_Algo = ''ed25519'', o_Header = hdr_of proxy_hdr,
     o_MessageHex = hex_encode (bytes_of proxy_prefix @ CanonicalRoundHeaderBytes proxy_hdr),
     o_MessageB64 = b64_encode False (bytes_of proxy_prefix @ CanonicalRoundHeaderBytes proxy_hdr),
     o_PubKeyHex = hex_encode (replicate 32 2), o_SignatureHex = hex_encode (len_sign [1] (CanonicalRoundHeaderBytes proxy_hdr)),
     o_SignatureValid = len_verify (replicate 32 2) (bytes_of proxy_prefix @ CanonicalRoundHeaderBytes proxy_hdr)
       (len_sign [1] (CanonicalRoundHeaderBytes proxy_hdr))\<rparr>))"
    using proxy_checks_prefixed [of proxy_node proxy_hdr ?env "path_req ?url" proxy_backend "''http://n''"
        "len_sign [1] (CanonicalRoundHeaderBytes proxy_hdr)" len_verify]
    by (simp add: len_sign_def)
  have "of_nat (n + 14) \<noteq> (of_nat n :: byte)" for n by simp
  then have "\<not> len_verify (replicate 32 2) (bytes_of proxy_prefix @ m) (len_sign [1] m)" for m
    by (simp add: len_verify_def len_sign_def proxy_prefix_def bytes_of_def)
  with run show ?thesis
    by (simp add: proxy_writeJSON_def outMsg_obj_def jget_def omitempty_def) (simp add: len_verify_def len_sign_def)
qed

text \<open>
  Fact. While the node cannot be reached the health route of the proxy answers nothing: it writes the
  status 0, which panics.
\<close>

theorem proxy_health_down:
  assumes "b_get b (base @ ''/health'') = Inl e"
  shows "proxy_health b base = None"
  using assms by (simp add: proxy_health_def proxyGET_def proxy_writeJSON_def)

end
