(* ===== verification/Key_Tools.thy ===== *)
theory Key_Tools
  imports Wallet
begin

text \<open>
  The two signing tools: \<open>tools/ed25519sign\<close>, which keeps its key in a file, and
  \<open>cmd/ed25519tool\<close>, which takes it on the command line. The parsed flags are records; the result is
  the text printed, or the message with which the process exits, and the files afterwards. Ed25519
  and the generated key are parameters.
\<close>

definition println :: "string \<Rightarrow> string" where
  "println s = s @ [CHR 0x0A]"

section \<open>tools/ed25519sign\<close>

definition tool_space :: "char \<Rightarrow> bool" where
  "tool_space c \<longleftrightarrow> c \<in> set [CHR '' '', CHR 0x0A, CHR 0x0D, CHR 0x09]"

definition bytesTrimSpace :: "string \<Rightarrow> string" where
  "bytesTrimSpace b = rev (dropWhile tool_space (rev (dropWhile tool_space b)))"

definition key_of_bytes :: "KeyEnv \<Rightarrow> bytes \<Rightarrow> (bytes \<times> bytes) result" where
  "key_of_bytes k dec =
     (if length dec = 32 then Inr (k_fromSeed k dec, k_public k (k_fromSeed k dec))
      else if length dec = 64 then Inr (dec, k_public k dec)
      else Inl (''unexpected key length: '' @ dec_nat (length dec)))"

definition text_of :: "bytes \<Rightarrow> string" where
  "text_of b = map (\<lambda>x. char_of (unat x)) b"

definition readKey :: "KeyEnv \<Rightarrow> disk \<Rightarrow> string \<Rightarrow> (bytes \<times> bytes) result" where
  "readKey k d path =
     (case map_of d path of
        None \<Rightarrow> Inl ''open''
      | Some b \<Rightarrow>
          let s = bytesTrimSpace (text_of b)
          in case b64_decode False s of
               Some dec \<Rightarrow> key_of_bytes k dec
             | None \<Rightarrow> (case hex_decode s of
                 None \<Rightarrow> Inl ''key decode failed (b64/hex)''
               | Some bin \<Rightarrow> key_of_bytes k bin))"

record sign_flags =
  sf_gen :: bool
  sf_key :: string
  sf_out :: string
  sf_pub :: bool
  sf_msgHex :: string
  sf_msgB64 :: string
  sf_sign :: bool

definition sign_message :: "sign_flags \<Rightarrow> bytes result" where
  "sign_message flags =
     (if sf_msgHex flags \<noteq> [] then
        (case hex_decode (sf_msgHex flags) of None \<Rightarrow> Inl ''encoding/hex'' | Some m \<Rightarrow> Inr m)
      else if sf_msgB64 flags \<noteq> [] then
        (case b64_decode False (sf_msgB64 flags) of None \<Rightarrow> Inl ''illegal base64 data'' | Some m \<Rightarrow> Inr m)
      else Inl ''provide -msghex or -msgb64'')"

text \<open>\<open>seed\<close> is what the key generator gives.\<close>

definition ed25519sign_main ::
  "KeyEnv \<Rightarrow> (bytes \<Rightarrow> bytes \<Rightarrow> bytes) \<Rightarrow> bytes result \<Rightarrow> sign_flags \<Rightarrow> disk \<Rightarrow> string result \<times> disk" where
  "ed25519sign_main k sign seed flags d =
     (if sf_gen flags then
        (case seed of
           Inl e \<Rightarrow> (Inl e, d)
         | Inr sd \<Rightarrow>
             let data = b64_encode False sd
             in if sf_out flags \<noteq> [] then
                  (if k_write k (sf_out flags)
                   then (Inr (println (''wrote seed(base64): '' @ sf_out flags)), AList.update (sf_out flags) (bytes_of data) d)
                   else (Inl ''write'', d))
                else (Inr (println data), d))
      else case readKey k d (sf_key flags) of
        Inl e \<Rightarrow> (Inl e, d)
      | Inr (priv, pubKey) \<Rightarrow>
          if sf_pub flags then (Inr (println (b64_encode False pubKey)), d)
          else if sf_sign flags then
            (case sign_message flags of
               Inl e \<Rightarrow> (Inl e, d)
             | Inr m \<Rightarrow> (Inr (println (b64_encode False (sign priv m))), d))
          else (Inr (println ''nothing to do; use -gen / -pub / -sign''), d))"

section \<open>cmd/ed25519tool\<close>

record tool_flags =
  tf_gen :: bool
  tf_sk :: string
  tf_m :: string
  tf_hex :: bool

definition two_lines :: "string \<Rightarrow> string \<Rightarrow> string \<Rightarrow> string \<Rightarrow> string" where
  "two_lines a x b y = a @ x @ [CHR 0x0A] @ b @ y @ [CHR 0x0A]"

text \<open>The secret key is used as it is or made from a seed.\<close>

definition tool_key :: "KeyEnv \<Rightarrow> tool_flags \<Rightarrow> bytes result" where
  "tool_key k flags =
     (case (if tf_hex flags then hex_decode (tf_sk flags) else b64_decode False (tf_sk flags)) of
        None \<Rightarrow> Inl ''bad private key encoding''
      | Some raw \<Rightarrow>
          if length raw = 64 then Inr raw
          else if length raw = 32 then Inr (k_fromSeed k raw)
          else Inl ''bad private key length'')"

definition ed25519tool_main ::
  "KeyEnv \<Rightarrow> (bytes \<Rightarrow> bytes \<Rightarrow> bytes) \<Rightarrow> bytes \<Rightarrow> tool_flags \<Rightarrow> string result" where
  "ed25519tool_main k sign generated flags =
     (if tf_gen flags then
        Inr (two_lines ''PK:'' (b64_encode False (k_public k generated)) ''SK:'' (b64_encode False generated))
      else if tf_sk flags = [] \<or> tf_m flags = [] then
        Inl ''usage: ed25519tool -sk <b64-or-hex> [-hex] -m <message>   or   ed25519tool -gen''
      else case tool_key k flags of
        Inl e \<Rightarrow> Inl e
      | Inr sk \<Rightarrow> Inr (two_lines ''PK:'' (b64_encode False (k_public k sk)) ''SIG:'' (b64_encode False (sign sk (bytes_of (tf_m flags))))))"

section \<open>Hexadecimal text read as base64\<close>

lemma b64_quanta_valid:
  "\<forall>c \<in> set s. b64_val False c \<noteq> None \<Longrightarrow> length s mod 4 = 0 \<Longrightarrow>
    \<exists>d. b64_quanta False s = Some d \<and> 4 * length d = 3 * length s"
proof (induction False s rule: b64_quanta.induct)
  case (4 a b c d rest)
  have eq: "b64_val False (CHR ''='') = None" by (simp add: b64_val_def)
  with 4(2) have "c \<noteq> CHR ''=''" "d \<noteq> CHR ''=''" by auto
  with 4 obtain y where y: "b64_quanta False rest = Some y" "4 * length y = 3 * length rest" by auto
  from 4(2) obtain i j l m where "b64_val False a = Some i" "b64_val False b = Some j" "b64_val False c = Some l"
    "b64_val False d = Some m" by auto
  with y eq show ?case by (auto simp: dec4_def)
qed simp_all

lemma b64_quanta_odd:
  "\<forall>c \<in> set s. b64_val False c \<noteq> None \<Longrightarrow> length s mod 4 \<noteq> 0 \<Longrightarrow> b64_quanta False s = None"
proof (induction False s rule: b64_quanta.induct)
  case (4 a b c d rest)
  moreover have "b64_val False (CHR ''='') = None" by (simp add: b64_val_def)
  ultimately show ?case by (auto split: option.split)
qed simp_all

lemma tool_space_b64: "tool_space c \<Longrightarrow> b64_val url c = None"
  by (auto simp: tool_space_def b64_val_def)

lemma hex_char_b64: "n < 16 \<Longrightarrow> b64_val False (hex_char n) \<noteq> None"
  by (auto simp: hex_char_def b64_val_def Let_def)

lemma hex_text: "\<forall>c \<in> set (hex_encode bs). b64_val False c \<noteq> None \<and> \<not> tool_space c"
proof (induction bs)
  case (Cons b bs)
  have "unat b div 16 < 16" "unat b mod 16 < 16" using unat_byte_lt [of b] by simp_all
  then have "b64_val False c \<noteq> None" if "c \<in> {hex_char (unat b div 16), hex_char (unat b mod 16)}" for c
    using that hex_char_b64 by blast
  with Cons tool_space_b64 show ?case by fastforce
qed simp

lemma trim_tool:
  assumes "\<forall>c \<in> set s. \<not> tool_space c"
  shows "bytesTrimSpace s = s" "bytesTrimSpace (s @ [CHR 0x0A]) = s"
proof -
  have id: "dropWhile tool_space s = s" "dropWhile tool_space (rev s) = rev s"
    using assms by (auto simp: dropWhile_eq_self_iff hd_rev)
  have "tool_space (CHR 0x0A)" by (simp add: tool_space_def)
  with assms id show "bytesTrimSpace s = s" "bytesTrimSpace (s @ [CHR 0x0A]) = s"
    by (cases s; simp add: bytesTrimSpace_def)+
qed

lemma text_of_bytes_of [simp]: "text_of (bytes_of s) = s"
  by (induction s) (simp_all add: text_of_def bytes_of_def)

lemma text_of_append [simp]: "text_of (a @ b) = text_of a @ text_of b"
  by (simp add: text_of_def)

text \<open>No length of a key is both a hexadecimal and a base64 length.\<close>

lemma hex_file_refused:
  assumes "map_of d path = Some (bytes_of (hex_encode key @ [CHR 0x0A]))"
  shows "readKey k d path = Inl (''unexpected key length: '' @
    dec_nat (if even (length key) then 3 * (length key div 2) else length key))"
proof -
  let ?h = "hex_encode key"
  have trim: "bytesTrimSpace (?h @ [CHR 0x0A]) = ?h" using hex_text by (intro trim_tool) blast
  have "filter (\<lambda>c. c \<noteq> CHR 0x0A \<and> c \<noteq> CHR 0x0D) ?h = ?h"
    using hex_text [of key] by (auto simp: filter_id_conv tool_space_def)
  then have b64: "b64_decode False ?h = b64_quanta False ?h" by (simp add: b64_decode_def)
  have valid: "\<forall>c \<in> set ?h. b64_val False c \<noteq> None" using hex_text by blast
  show ?thesis
  proof (cases "even (length key)")
    case True
    then obtain n where n: "length key = 2 * n" by (elim evenE)
    then obtain dec where "b64_quanta False ?h = Some dec" "length dec = 3 * n"
      using b64_quanta_valid [OF valid] by auto
    moreover have "3 * n \<noteq> 32" "3 * n \<noteq> 64" by presburger+
    ultimately show ?thesis using n assms by (simp add: readKey_def trim b64 key_of_bytes_def Let_def)
  next
    case False
    then have "2 * length key mod 4 \<noteq> 0" by presburger
    then have "b64_quanta False ?h = None" using b64_quanta_odd [OF valid] by simp
    moreover from False have "length key \<noteq> 32" "length key \<noteq> 64" by auto
    ultimately show ?thesis using False assms by (simp add: readKey_def trim b64 key_of_bytes_def Let_def)
  qed
qed

lemma b64_encode_chars: "c \<in> set (b64_encode url bs) \<Longrightarrow> c = CHR ''='' \<or> (\<exists>n < 64. c = b64_char url n)"
  by (induction url bs rule: b64_encode.induct) (auto simp: Let_def intro: b64_ranges b64_mixed split: if_splits)

lemma b64_encode_plain: "c \<in> set (b64_encode url bs) \<Longrightarrow> \<not> tool_space c"
proof -
  have "\<not> tool_space (CHR ''='')" by (simp add: tool_space_def)
  then show "c \<in> set (b64_encode url bs) \<Longrightarrow> \<not> tool_space c"
    using b64_encode_chars [of c url bs] b64_val_char tool_space_b64 [of c url] by fastforce
qed

section \<open>Properties\<close>

text \<open>
  Fact. The signing tool cannot read the node's key file: the file that \<open>LoadOrCreate\<close> writes
  holds the key in hexadecimal, which is also valid base64, so that the tool decodes it to 96 bytes
  and refuses it; the hexadecimal branch of \<open>readKey\<close> accepts no key at all.
\<close>

theorem node_key_refused:
  assumes "LoadOrCreate k generated args d = (Inr (pub, priv), d')" "map_of d (defaultKeyPath k args) = None"
    and "length priv = 64" "sf_key flags = defaultKeyPath k args" "\<not> sf_gen flags"
  shows "ed25519sign_main k sign seed flags d' = (Inl ''unexpected key length: 96'', d')
    \<and> (\<forall>path key. map_of d path = Some (bytes_of (hex_encode key @ [CHR 0x0A])) \<longrightarrow> (\<exists>e. readKey k d path = Inl e))"
proof -
  from assms(1,2) have "map_of d' (defaultKeyPath k args) = Some (bytes_of (hex_encode priv @ [CHR 0x0A]))"
    by (auto simp: LoadOrCreate_def Let_def update_conv' split: sum.splits if_splits prod.splits)
  moreover have "dec_nat 96 = ''96''" by code_simp
  ultimately have "readKey k d' (defaultKeyPath k args) = Inl ''unexpected key length: 96''"
    using assms(3) by (simp add: hex_file_refused)
  then show ?thesis using assms(4,5) hex_file_refused by (auto simp: ed25519sign_main_def)
qed

definition sign_demo :: sign_flags where
  "sign_demo = \<lparr>sf_gen = False, sf_key = ''data/node.key'', sf_out = [], sf_pub = True, sf_msgHex = [], sf_msgB64 = [],
     sf_sign = False\<rparr>"

theorem node_key_refused_witness:
  "\<exists>d'. LoadOrCreate demo_keys (Inr (replicate 32 2, replicate 64 2)) [''data/node.key''] [] = (Inr (replicate 32 2, replicate 64 2), d')
     \<and> ed25519sign_main demo_keys (@) (Inl ''entropy'') sign_demo d' = (Inl ''unexpected key length: 96'', d')"
proof -
  obtain d' where run: "LoadOrCreate demo_keys (Inr (replicate 32 2, replicate 64 2)) [''data/node.key''] []
      = (Inr (replicate 32 2, replicate 64 2), d')"
    by (simp add: LoadOrCreate_def demo_keys_def Let_def)
  have "sf_key sign_demo = defaultKeyPath demo_keys [''data/node.key'']" "\<not> sf_gen sign_demo"
    by (simp_all add: sign_demo_def defaultKeyPath_def demo_keys_def has_suffix_def)
  from node_key_refused [OF run _ _ this] run show ?thesis by auto
qed

text \<open>
  Fact. A seed that the tool generates into a file is the seed it signs with afterwards.
\<close>

theorem generated_seed_signs:
  assumes "sf_gen gen" "sf_out gen \<noteq> []" "ed25519sign_main k sign (Inr sd) gen d = (Inr out, d')" "length sd = 32"
    and "\<not> sf_gen flags" "\<not> sf_pub flags" "sf_sign flags" "sf_key flags = sf_out gen" "sf_msgHex flags = hex_encode m" "m \<noteq> []"
  shows "ed25519sign_main k sign (Inr sd') flags d' = (Inr (println (b64_encode False (sign (k_fromSeed k sd) m))), d')"
proof -
  from assms(1-3) have saved: "map_of d' (sf_out gen) = Some (bytes_of (b64_encode False sd))"
    by (auto simp: ed25519sign_main_def Let_def update_conv' split: if_splits)
  have "bytesTrimSpace (b64_encode False sd) = b64_encode False sd"
    using b64_encode_plain by (intro trim_tool) blast
  with saved assms(4) have "readKey k d' (sf_out gen) = Inr (k_fromSeed k sd, k_public k (k_fromSeed k sd))"
    by (simp add: readKey_def key_of_bytes_def)
  moreover have "hex_encode m \<noteq> []" using assms(10) by (cases m) simp_all
  ultimately show ?thesis using assms(5-9) by (simp add: ed25519sign_main_def sign_message_def)
qed

end
