(* ===== verification/Sig_Util.thy ===== *)
theory Sig_Util
  imports Key_Tools Tx_Pipeline
begin

text \<open>
  The helpers \<open>sig_util.go\<close> and \<open>sig_once.go\<close> at the top of the repository, with which a client signs
  a transfer, and what the node makes of the request. The result is the lines printed, the usage
  text or the message before exit code 2, or a crash of the process. Arguments are those after the
  program's name.
\<close>

datatype tool_run = Printed "string list" | Usage | BadKey | Crash

text \<open>The public key is the second half of the secret key; the slice panics on a shorter one.\<close>

definition pub_half :: "bytes \<Rightarrow> string" where
  "pub_half sk = b64_encode False (drop 32 sk)"

definition sig_util_pub :: "string list \<Rightarrow> tool_run" where
  "sig_util_pub args = (case args of
     [] \<Rightarrow> Usage
   | s # _ \<Rightarrow> (case b64_decode False s of
       None \<Rightarrow> BadKey
     | Some sk \<Rightarrow> if length sk < 32 then Crash else Printed [pub_half sk]))"

text \<open>\<open>ed25519.Sign\<close> panics unless the key has 64 bytes.\<close>

definition sig_util_sign :: "(bytes \<Rightarrow> bytes \<Rightarrow> bytes) \<Rightarrow> string list \<Rightarrow> tool_run" where
  "sig_util_sign sign args = (case args of
     s # msg # _ \<Rightarrow> (case b64_decode False s of
       None \<Rightarrow> BadKey
     | Some sk \<Rightarrow> if length sk \<noteq> 64 then Crash else Printed [pub_half sk, b64_encode False (sign sk (bytes_of msg))])
   | _ \<Rightarrow> Usage)"

text \<open>\<open>generated\<close> is the secret key that \<open>ed25519.GenerateKey\<close> gives.\<close>

definition sig_util_main :: "(bytes \<Rightarrow> bytes \<Rightarrow> bytes) \<Rightarrow> bytes \<Rightarrow> string list \<Rightarrow> tool_run" where
  "sig_util_main sign generated args = (case args of
     [] \<Rightarrow> Usage
   | cmd # rest \<Rightarrow>
       if cmd = ''gen'' then Printed [pub_half generated, b64_encode False generated]
       else if cmd = ''pub'' then sig_util_pub rest
       else if cmd = ''sign'' then sig_util_sign sign rest
       else Usage)"

definition sig_once_main :: "(bytes \<Rightarrow> bytes \<Rightarrow> bytes) \<Rightarrow> bytes \<Rightarrow> string list \<Rightarrow> tool_run" where
  "sig_once_main sign generated args = (case args of
     [] \<Rightarrow> Crash
   | m # _ \<Rightarrow> Printed [pub_half generated, b64_encode False (sign generated (bytes_of m))])"

section \<open>A padded base64 text is not hexadecimal\<close>

lemma hex_decode_bad: "c \<in> set s \<Longrightarrow> hex_val c = None \<Longrightarrow> hex_decode s = None"
  by (induction s rule: hex_decode.induct) (auto split: option.splits)

lemma b64_padded: "length bs mod 3 \<noteq> 0 \<Longrightarrow> CHR ''='' \<in> set (b64_encode False bs)"
  by (induction False bs rule: b64_encode.induct) (auto simp: Let_def mod_Suc split: if_splits)

lemma pub_half_not_hex: "length sk = 64 \<Longrightarrow> hex_decode (pub_half sk) = None"
  unfolding pub_half_def by (rule hex_decode_bad [OF b64_padded]) (simp_all add: hex_val_def)

section \<open>Properties\<close>

text \<open>
  Property C28. What the helper signs the node accepts: take a key that \<open>sig_util gen\<close> printed, let
  \<open>sig_util sign\<close> sign the commitment of a transfer with it, and send the two printed lines as
  \<open>X-PubKey\<close> and \<open>X-Sig\<close>. If the binding file has the printed public key for the sender, the request
  passes the signature check and the key binding unchanged, whatever the node requires. Ed25519 is assumed to
  verify what it signs under the second half of the secret key.
\<close>

theorem sig_util_accepted:
  assumes "length sk = 64" and "sig_util_main sign sk [''gen''] = Printed [pk, skText]"
    and "sig_util_main sign any [''sign'', skText, calcCommit c inp] = Printed [pk', sg]"
    and ed25519: "\<And>m. length (sign sk m) = 64 \<and> c_verify c (drop 32 sk) m (sign sk m)"
    and "is_tx rq" "rq_Body rq = Some inp" "rq_Header rq ''X-PubKey'' = pk'" "rq_Header rq ''X-Sig'' = sg"
    and "getFromPubKeyMap (c_env c) (rt_eng rt) = Some bound" "map_of bound (tp_From inp) = Some pk"
  shows "precheckSig c (precheckFromBindingWith c next) rq rt = next rq rt"
proof -
  have pk: "pk = pub_half sk" "skText = b64_encode False sk" using assms(2) by (simp_all add: sig_util_main_def)
  with assms(1,3) have out: "pk' = pk" "sg = b64_encode False (sign sk (bytes_of (calcCommit c inp)))"
    by (simp_all add: sig_util_main_def sig_util_sign_def)
  have ne: "b64_encode False bs \<noteq> []" if "length bs \<noteq> 0" for bs
    using that b64_decode_encode [of False bs] by (auto simp: b64_decode_def)
  have pk_ne: "pk \<noteq> []" unfolding pk pub_half_def using assms(1) by (intro ne) simp
  have sg_ne: "sg \<noteq> []" unfolding out using ed25519 by (intro ne) simp
  have pk_dec: "b64_decode False pk = Some (drop 32 sk)" by (simp add: pk pub_half_def)
  have "sig_valid c rq inp"
    using assms(1,7,8) ed25519 sg_ne by (simp add: sig_valid_def sig_given_def out pk_dec)
  then have sig: "sig_pass c rq rt"
    using assms(6-8) pk_ne sg_ne by (simp add: sig_pass_def sig_given_def out)
  have "VerifyFromBinding (c_env c) (tp_From inp) (drop 32 sk) (rt_eng rt)"
    using assms(1,9,10) pk_ne pk_dec by (simp add: VerifyFromBinding_def pk(1) pub_half_not_hex)
  then have "bind_pass c rq rt" using assms(1,6,7) pk_ne pk_dec by (simp add: bind_pass_def out)
  then show ?thesis by (simp add: sig.passes [OF sig] bind.passes)
qed

definition toy_sign :: "bytes \<Rightarrow> bytes \<Rightarrow> bytes" where
  "toy_sign sk m = take 64 (drop 32 sk @ m @ replicate 64 0)"

definition demo_sk :: bytes where
  "demo_sk = replicate 64 2"

definition sig_cfg :: Config where
  "sig_cfg = demo_cfg\<lparr>c_env := demo_env\<lparr>env_decStrings := (\<lambda>b. Some [(''tho1alice'', pub_half demo_sk)])\<rparr>,
     c_getenv := (\<lambda>k. ''1''), c_verify := (\<lambda>pk m s. s = take 64 (pk @ m @ replicate 64 0))\<rparr>"

definition sig_rt :: Router where
  "sig_rt = demo_rt\<lparr>rt_eng := (rt_eng demo_rt)\<lparr>e_disk := [(''data/from_pubkeys.json'', [1])]\<rparr>\<rparr>"

definition sig_rq :: "txPre Request" where
  "sig_rq = demo_post\<lparr>rq_Header := (\<lambda>k. if k = ''X-PubKey'' then pub_half demo_sk
     else if k = ''X-Sig'' then b64_encode False (toy_sign demo_sk (bytes_of (calcCommit sig_cfg demo_pre))) else [])\<rparr>"

theorem sig_util_accepted_witness:
  "precheckSig sig_cfg (precheckFromBindingWith sig_cfg (\<lambda>rq rt. (status_only 204, rt))) sig_rq sig_rt = (status_only 204, sig_rt)"
proof (rule sig_util_accepted [of demo_sk toy_sign _ _ demo_sk sig_cfg demo_pre])
  show "sig_util_main toy_sign demo_sk [''gen''] = Printed [pub_half demo_sk, b64_encode False demo_sk]"
    by (simp add: sig_util_main_def)
  show "sig_util_main toy_sign demo_sk [''sign'', b64_encode False demo_sk, calcCommit sig_cfg demo_pre]
      = Printed [pub_half demo_sk, b64_encode False (toy_sign demo_sk (bytes_of (calcCommit sig_cfg demo_pre)))]"
    by (simp add: sig_util_main_def sig_util_sign_def) (simp add: demo_sk_def)
  show "getFromPubKeyMap (c_env sig_cfg) (rt_eng sig_rt) = Some [(''tho1alice'', pub_half demo_sk)]"
    by (simp add: getFromPubKeyMap_def ReadFile_def sig_cfg_def sig_rt_def)
qed (simp_all add: demo_sk_def toy_sign_def sig_cfg_def sig_rq_def demo_post_def is_tx_def demo_pre_def)

end
