(* ===== verification/Binary64.thy ===== *)
theory Binary64
  imports Float64
begin

text \<open>
  Signed IEEE binary64 numbers as their 64-bit patterns, for the scores that the code keeps in
  \<open>float64\<close> fields: classification, addition and subtraction rounded to nearest even with
  subnormals, signed zeros, infinities and NaN, the comparison with zero and
  \<open>uint64(math.Round(x))\<close>. A finite number is its significand times \<open>2^(pos - 1074)\<close>. The
  bits of a NaN result are left open by the language and are a parameter \<open>nan\<close>.
\<close>

section \<open>Fields and classes\<close>

type_synonym float64 = u64

definition f_neg :: "float64 \<Rightarrow> bool" where
  "f_neg x \<longleftrightarrow> 2 ^ 63 \<le> unat x"

definition f_exp :: "float64 \<Rightarrow> nat" where
  "f_exp x = unat x div 2 ^ 52 mod 2048"

definition f_frac :: "float64 \<Rightarrow> nat" where
  "f_frac x = unat x mod 2 ^ 52"

definition f_nan :: "float64 \<Rightarrow> bool" where
  "f_nan x \<longleftrightarrow> f_exp x = 2047 \<and> f_frac x \<noteq> 0"

definition f_inf :: "float64 \<Rightarrow> bool" where
  "f_inf x \<longleftrightarrow> f_exp x = 2047 \<and> f_frac x = 0"

definition f_finite :: "float64 \<Rightarrow> bool" where
  "f_finite x \<longleftrightarrow> f_exp x \<noteq> 2047"

definition f_mant :: "float64 \<Rightarrow> nat" where
  "f_mant x = (if f_exp x = 0 then f_frac x else 2 ^ 52 + f_frac x)"

definition f_pos :: "float64 \<Rightarrow> nat" where
  "f_pos x = f_exp x - 1"

text \<open>The finite number in units of \<open>2^(E - 1074)\<close>, for \<open>E\<close> up to its position.\<close>

definition f_units :: "float64 \<Rightarrow> nat \<Rightarrow> int" where
  "f_units x E = (if f_neg x then - 1 else 1) * int (f_mant x * 2 ^ (f_pos x - E))"

section \<open>Operations\<close>

text \<open>The bits of the number nearest to \<open>p * 2^(E - 1074)\<close>, without the sign.\<close>

definition f_magnitude :: "nat \<Rightarrow> nat \<Rightarrow> nat" where
  "f_magnitude p E =
     (let l = min E (53 - blen p); p' = p * 2 ^ l; k = blen p' - 53
      in min (2047 * 2 ^ 52) (if p = 0 then 0 else (E - l + k) * 2 ^ 52 + rne p' k))"

definition f_pack :: "bool \<Rightarrow> nat \<Rightarrow> float64" where
  "f_pack neg m = of_nat (if neg then 2 ^ 63 + m else m)"

definition f_add :: "(float64 \<Rightarrow> float64 \<Rightarrow> float64) \<Rightarrow> float64 \<Rightarrow> float64 \<Rightarrow> float64" where
  "f_add nan x y =
     (if f_nan x \<or> f_nan y \<or> (f_inf x \<and> f_inf y \<and> f_neg x \<noteq> f_neg y) then nan x y
      else if f_inf x then x
      else if f_inf y then y
      else
        let E = min (f_pos x) (f_pos y); s = f_units x E + f_units y E
        in if s = 0 then f_pack (f_neg x \<and> f_neg y) 0
           else f_pack (s < 0) (f_magnitude (nat \<bar>s\<bar>) E))"

definition f_minus :: "float64 \<Rightarrow> float64" where
  "f_minus x = x + 2 ^ 63"

definition f_sub :: "(float64 \<Rightarrow> float64 \<Rightarrow> float64) \<Rightarrow> float64 \<Rightarrow> float64 \<Rightarrow> float64" where
  "f_sub nan x y = f_add nan x (f_minus y)"

definition f_positive :: "float64 \<Rightarrow> bool" where
  "f_positive x \<longleftrightarrow> \<not> f_nan x \<and> \<not> f_neg x \<and> f_mant x \<noteq> 0"

text \<open>\<open>uint64(math.Round(x))\<close> of a positive number; \<open>oob\<close> is the result out of range.\<close>

definition f_round_u64 :: "u64 \<Rightarrow> float64 \<Rightarrow> u64" where
  "f_round_u64 oob x =
     to_u64 oob (fround (if f_inf x then PInf else Fin (f_mant x) (int (f_pos x) - 1074)))"

text \<open>The number \<open>n / 2\<close>.\<close>

definition f_half :: "int \<Rightarrow> float64" where
  "f_half n = f_pack (n < 0) (f_magnitude (nat \<bar>n\<bar>) 1073)"

section \<open>Packing and unpacking\<close>

lemma unat_f_pack: "m < 2 ^ 63 \<Longrightarrow> unat (f_pack neg m) = (if neg then 2 ^ 63 + m else m)"
  by (simp add: f_pack_def unat_of_nat)

lemma f_pack_fields:
  assumes "m < 2 ^ 63"
  shows "f_neg (f_pack neg m) \<longleftrightarrow> neg"
    and "f_exp (f_pack neg m) = m div 2 ^ 52"
    and "f_frac (f_pack neg m) = m mod 2 ^ 52"
proof -
  have e: "m div 2 ^ 52 < 2048" using assms by (simp add: less_mult_imp_div_less)
  have "(2 :: nat) ^ 63 + m = m + 2048 * 2 ^ 52" by simp
  then have m: "(2 ^ 63 + m) mod 2 ^ 52 = m mod 2 ^ 52" "(2 ^ 63 + m) div 2 ^ 52 = 2048 + m div 2 ^ 52"
    by (simp_all only: mod_mult_self1 div_mult_self1) simp_all
  show "f_neg (f_pack neg m) \<longleftrightarrow> neg" using assms by (auto simp: f_neg_def unat_f_pack)
  show "f_exp (f_pack neg m) = m div 2 ^ 52"
    using e by (cases neg) (simp_all only: f_exp_def unat_f_pack [OF assms] m if_True if_False mod_add_self1 mod_less)
  show "f_frac (f_pack neg m) = m mod 2 ^ 52"
    by (cases neg) (simp_all only: f_frac_def unat_f_pack [OF assms] m if_True if_False)
qed

lemma f_magnitude_le: "f_magnitude p E \<le> 2047 * 2 ^ 52"
  by (simp add: f_magnitude_def Let_def)

lemma f_mant_lt: "f_mant x < 2 ^ 53"
proof -
  have "f_frac x < 2 ^ 52" by (simp add: f_frac_def)
  then show ?thesis by (simp add: f_mant_def)
qed

lemma blen_eqI:
  assumes "2 ^ n \<le> p" and "p < 2 ^ Suc n"
  shows "blen p = Suc n"
proof -
  have "0 < p" using assms(1) by (metis less_le_trans zero_less_numeral zero_less_power)
  with blen_bounds [of p] have b: "2 ^ (blen p - 1) \<le> p" "p < 2 ^ blen p" "0 < blen p" by simp_all
  from assms(1) b(2) have "(2 :: nat) ^ n < 2 ^ blen p" by (rule le_less_trans)
  moreover from b(1) assms(2) have "(2 :: nat) ^ (blen p - 1) < 2 ^ Suc n" by (rule le_less_trans)
  ultimately have "n < blen p" "blen p - 1 < Suc n" by (simp_all del: power_Suc)
  then show ?thesis by simp
qed

lemma blen_mult_power: "0 < p \<Longrightarrow> blen (p * 2 ^ k) = blen p + k"
proof -
  assume "0 < p"
  with blen_bounds [of p] obtain b where b: "blen p = Suc b" "2 ^ b \<le> p" "p < 2 ^ Suc b"
    by (cases "blen p") auto
  have "2 ^ (b + k) \<le> p * 2 ^ k" "p * 2 ^ k < 2 ^ Suc (b + k)"
    using b(2,3) by (simp_all add: power_add)
  then show ?thesis using blen_eqI [of "b + k" "p * 2 ^ k"] b(1) by simp
qed

lemma rne_exact: "rne (m * 2 ^ k) k = m"
  by (simp add: rne_def)

text \<open>A number with a significand of 53 bits is packed without rounding.\<close>

lemma f_magnitude_exact:
  assumes "p * 2 ^ E = m * 2 ^ e" and "2 ^ 52 \<le> m" and "m < 2 ^ 53" and "e < 2046"
  shows "f_magnitude p E = e * 2 ^ 52 + m"
proof -
  have bm: "blen m = 53" using blen_eqI [of 52 m] assms(2,3) by simp
  have "0 < m" using assms(2) by simp
  then have "0 < p * 2 ^ E" using assms(1) by simp
  then have p: "0 < p" by simp
  from arg_cong [OF assms(1), of blen] have len: "blen p + E = 53 + e"
    by (simp add: blen_mult_power p \<open>0 < m\<close> bm)
  have "e * 2 ^ 52 + m \<le> 2045 * 2 ^ 52 + m" using assms(4) by simp
  also have "\<dots> \<le> 2047 * 2 ^ 52" using assms(3) by simp
  finally have small: "e * 2 ^ 52 + m \<le> 2047 * 2 ^ 52" .
  show ?thesis
  proof (cases "blen p \<le> 53")
    case True
    then have l: "min E (53 - blen p) = E - e" and e: "e \<le> E" using len by auto
    have "p * 2 ^ (E - e) * 2 ^ e = m * 2 ^ e"
      using assms(1) e by (simp add: mult.assoc flip: power_add)
    then have "p * 2 ^ (E - e) = m" by simp
    with p small e show ?thesis by (simp add: f_magnitude_def Let_def l bm rne_def)
  next
    case False
    then have l: "min E (53 - blen p) = 0" and k: "blen p - 53 = e - E" and e: "E \<le> e" using len by auto
    have "p * 2 ^ E = m * 2 ^ (e - E) * 2 ^ E"
      using assms(1) e by (simp add: mult.assoc flip: power_add)
    then have "p = m * 2 ^ (e - E)" by simp
    then have "rne p (e - E) = m" by (simp add: rne_exact)
    with p small e show ?thesis by (simp add: f_magnitude_def Let_def l k)
  qed
qed

section \<open>Halves are added exactly\<close>

text \<open>The significand and position of a number of halves below \<open>2^53\<close>.\<close>

lemma half_normal:
  assumes "n \<noteq> 0" and "\<bar>n\<bar> < 2 ^ 53"
  obtains m e where "2 ^ 52 \<le> m" "m < (2 :: nat) ^ 53" "e < 2046" "nat \<bar>n\<bar> * 2 ^ 1073 = m * 2 ^ e"
proof -
  define p where "p = nat \<bar>n\<bar>"
  have p: "0 < p" "p < 2 ^ 53" using assms by (auto simp: p_def nat_less_iff)
  from blen_bounds [OF p(1)] obtain b where b: "blen p = Suc b" "2 ^ b \<le> p" "p < 2 ^ Suc b"
    by (cases "blen p") auto
  have "(2 :: nat) ^ b < 2 ^ 53" using b(2) p(2) by (rule le_less_trans)
  then have b53: "b < 53" by (rule power_less_imp_less_exp [rotated]) simp
  show thesis
  proof (rule that)
    have "2 ^ b * 2 ^ (52 - b) \<le> p * 2 ^ (52 - b)" using b(2) by simp
    then show "2 ^ 52 \<le> p * 2 ^ (52 - b)" using b53 by (simp flip: power_add)
    have "p * 2 ^ (52 - b) < 2 ^ Suc b * 2 ^ (52 - b)" using b(3) by (intro mult_strict_right_mono) simp_all
    also have "\<dots> = 2 ^ 53" using b53 unfolding power_add [symmetric] by simp
    finally show "p * 2 ^ (52 - b) < 2 ^ 53" .
    have "(52 - b) + (1073 - (52 - b)) = 1073" by simp
    then show "nat \<bar>n\<bar> * 2 ^ 1073 = p * 2 ^ (52 - b) * 2 ^ (1073 - (52 - b))"
      by (simp only: p_def mult.assoc flip: power_add)
  qed simp
qed

lemma f_half_bits:
  assumes "j + e = 1073" and "2 ^ 52 \<le> nat \<bar>n\<bar> * 2 ^ j" and "nat \<bar>n\<bar> * 2 ^ j < 2 ^ 53"
  shows "f_half n = f_pack (n < 0) (e * 2 ^ 52 + nat \<bar>n\<bar> * 2 ^ j)"
proof -
  have "nat \<bar>n\<bar> * 2 ^ 1073 = nat \<bar>n\<bar> * 2 ^ j * 2 ^ e"
    by (simp only: assms(1) [symmetric] power_add mult.assoc)
  then have "f_magnitude (nat \<bar>n\<bar>) 1073 = e * 2 ^ 52 + nat \<bar>n\<bar> * 2 ^ j"
    using assms(2,3) by (rule f_magnitude_exact) (use assms(1) in simp)
  then show ?thesis by (simp only: f_half_def)
qed

lemma f_half_fields:
  assumes "n \<noteq> 0" and "\<bar>n\<bar> < 2 ^ 53"
  shows "f_neg (f_half n) \<longleftrightarrow> n < 0"
    and "f_mant (f_half n) * 2 ^ f_pos (f_half n) = nat \<bar>n\<bar> * 2 ^ 1073"
    and "f_finite (f_half n)"
proof -
  from half_normal [OF assms] obtain m e where m: "2 ^ 52 \<le> m" "m < (2 :: nat) ^ 53"
    and e: "e < 2046" and eq: "nat \<bar>n\<bar> * 2 ^ 1073 = m * 2 ^ e" .
  have bits: "f_half n = f_pack (n < 0) (e * 2 ^ 52 + m)"
    by (simp only: f_half_def f_magnitude_exact [OF eq m e])
  have "e * 2 ^ 52 \<le> 2045 * 2 ^ 52" using e by simp
  with m(2) have lt: "e * 2 ^ 52 + m < 2 ^ 63" by simp
  obtain f where f: "m = 2 ^ 52 + f" "f < 2 ^ 52" using m le_Suc_ex [OF m(1)] by auto
  have "(e * 2 ^ 52 + m) div 2 ^ 52 = e + 1" "(e * 2 ^ 52 + m) mod 2 ^ 52 = f"
    using f by simp_all
  then have fields: "f_exp (f_half n) = e + 1" "f_frac (f_half n) = f"
    by (simp_all only: bits f_pack_fields [OF lt])
  show "f_neg (f_half n) \<longleftrightarrow> n < 0" by (simp only: bits f_pack_fields [OF lt])
  show "f_finite (f_half n)" using e by (simp add: f_finite_def fields(1))
  show "f_mant (f_half n) * 2 ^ f_pos (f_half n) = nat \<bar>n\<bar> * 2 ^ 1073"
    unfolding eq by (simp add: f_mant_def f_pos_def fields f(1))
qed

lemma f_half_0 [simp]: "f_half 0 = 0"
  by (simp add: f_half_def f_magnitude_def f_pack_def Let_def)

lemma f_zero_fields [simp]: "\<not> f_neg 0" "f_mant 0 = 0" "f_pos 0 = 0" "f_finite 0"
  by (simp_all add: f_neg_def f_mant_def f_pos_def f_finite_def f_exp_def f_frac_def)

lemma f_half_finite: "\<bar>n\<bar> < 2 ^ 53 \<Longrightarrow> f_finite (f_half n)"
  by (cases "n = 0") (simp_all add: f_half_fields)

lemma f_half_units:
  assumes "\<bar>n\<bar> < 2 ^ 53" and "E \<le> f_pos (f_half n)"
  shows "f_units (f_half n) E * 2 ^ E = n * 2 ^ 1073"
proof (cases "n = 0")
  case False
  have "int (f_mant (f_half n) * 2 ^ (f_pos (f_half n) - E)) * 2 ^ E
      = int (f_mant (f_half n) * 2 ^ f_pos (f_half n))"
    using assms(2) by (simp add: mult.assoc flip: power_add)
  also have "\<dots> = \<bar>n\<bar> * 2 ^ 1073" by (simp only: f_half_fields(2) [OF False assms(1)]) simp
  finally show ?thesis using f_half_fields(1) [OF False assms(1)] by (auto simp: f_units_def)
qed (simp add: f_units_def)

lemma f_finite_not: "f_finite x \<Longrightarrow> \<not> f_nan x \<and> \<not> f_inf x"
  by (simp add: f_finite_def f_nan_def f_inf_def)

lemma f_add_finite:
  assumes "f_finite x" and "f_finite y"
  shows "f_add nan x y =
    (let E = min (f_pos x) (f_pos y); s = f_units x E + f_units y E
     in if s = 0 then f_pack (f_neg x \<and> f_neg y) 0 else f_pack (s < 0) (f_magnitude (nat \<bar>s\<bar>) E))"
  using f_finite_not [OF assms(1)] f_finite_not [OF assms(2)] by (simp add: f_add_def)

text \<open>Rounding an exact number of halves gives that number of halves, at every position.\<close>

lemma f_magnitude_half:
  assumes "s * 2 ^ E = n * 2 ^ 1073" and "n \<noteq> 0" and "\<bar>n\<bar> < 2 ^ 53"
  shows "f_magnitude (nat \<bar>s\<bar>) E = f_magnitude (nat \<bar>n\<bar>) 1073"
proof -
  from half_normal [OF assms(2,3)] obtain m e where me: "2 ^ 52 \<le> m" "m < (2 :: nat) ^ 53" "e < 2046"
    "nat \<bar>n\<bar> * 2 ^ 1073 = m * 2 ^ e" .
  have "nat \<bar>s * 2 ^ E\<bar> = nat \<bar>n * 2 ^ 1073\<bar>" by (simp only: assms(1))
  then have "nat \<bar>s\<bar> * 2 ^ E = nat \<bar>n\<bar> * 2 ^ 1073" by (simp add: abs_mult nat_mult_distrib nat_power_eq)
  with me(4) have "nat \<bar>s\<bar> * 2 ^ E = m * 2 ^ e" by simp
  from f_magnitude_exact [OF this me(1-3)] f_magnitude_exact [OF me(4,1-3)] show ?thesis by simp
qed

lemma f_add_half:
  assumes "\<bar>a\<bar> < 2 ^ 53" and "\<bar>b\<bar> < 2 ^ 53" and "\<bar>a + b\<bar> < 2 ^ 53"
  shows "f_add nan (f_half a) (f_half b) = f_half (a + b)"
proof -
  define E s where "E = min (f_pos (f_half a)) (f_pos (f_half b))"
    and "s = f_units (f_half a) E + f_units (f_half b) E"
  have add: "f_add nan (f_half a) (f_half b)
      = (if s = 0 then f_pack (f_neg (f_half a) \<and> f_neg (f_half b)) 0 else f_pack (s < 0) (f_magnitude (nat \<bar>s\<bar>) E))"
    by (simp add: f_add_finite [OF f_half_finite [OF assms(1)] f_half_finite [OF assms(2)]] Let_def E_def s_def)
  have s: "s * 2 ^ E = (a + b) * 2 ^ 1073"
    using f_half_units [OF assms(1), of E] f_half_units [OF assms(2), of E]
    by (simp add: s_def E_def distrib_right)
  show ?thesis
  proof (cases "a + b = 0")
    case True
    then have "s = 0" using s by simp
    moreover have "\<not> (f_neg (f_half a) \<and> f_neg (f_half b))"
      using True assms f_half_fields(1) [of a] f_half_fields(1) [of b] by (cases "a = 0"; cases "b = 0") auto
    ultimately show ?thesis using True by (simp add: add f_pack_def)
  next
    case False
    have "s \<noteq> 0" using s False by auto
    moreover have "s < 0 \<longleftrightarrow> a + b < 0"
    proof -
      have scale: "x * 2 ^ k < 0 \<longleftrightarrow> x < 0" for x :: int and k :: nat by (simp add: mult_less_0_iff)
      show ?thesis using scale [of s E] scale [of "a + b" 1073] by (simp only: s)
    qed
    ultimately show ?thesis using f_magnitude_half [OF s False assms(3)]
      by (simp add: add) (simp add: f_half_def)
  qed
qed

section \<open>Small additions stay finite\<close>

lemma rne_lt_half:
  assumes "2 * p < (2 * M - 1) * 2 ^ k"
  shows "rne p k < M"
proof -
  define q r where "q = p div 2 ^ k" and "r = p mod 2 ^ k"
  have p: "p = q * 2 ^ k + r" unfolding q_def r_def by (rule div_mult_mod_eq [symmetric])
  have "(2 * q) * 2 ^ k \<le> 2 * p" using p by simp
  then have "(2 * q) * 2 ^ k < (2 * M - 1) * 2 ^ k" using assms by (rule le_less_trans)
  then have "2 * q < 2 * M - 1" by simp
  then have q: "q < M" by simp
  have "q + 1 < M" if "2 ^ k \<le> 2 * r"
  proof -
    have "(2 * q + 1) * 2 ^ k \<le> 2 * p" using that p by (simp add: algebra_simps)
    then have "(2 * q + 1) * 2 ^ k < (2 * M - 1) * 2 ^ k" using assms by (rule le_less_trans)
    then have "2 * q + 1 < 2 * M - 1" by (simp only: mult_less_cancel2)
    then show ?thesis by simp
  qed
  with q show ?thesis by (auto simp: rne_def Let_def simp flip: q_def r_def)
qed

text \<open>What lies below the largest finite number by less than half a unit is not rounded up.\<close>

lemma f_magnitude_finite:
  assumes "p * 2 ^ E * 2 < (2 * 2 ^ 53 - 1) * 2 ^ 2045"
  shows "f_magnitude p E < 2047 * 2 ^ 52"
proof (cases "p = 0")
  case False
  define l where "l = min E (53 - blen p)"
  define p' E' k where "p' = p * 2 ^ l" and "E' = E - l" and "k = blen p' - 53"
  have p': "0 < p'" and scale: "p' * 2 ^ E' = p * 2 ^ E"
    using False by (simp_all add: p'_def E'_def l_def mult.assoc flip: power_add)
  from blen_bounds [OF p'] have lo: "2 ^ (blen p' - 1) \<le> p'" and hi: "p' < 2 ^ blen p'" by simp_all
  have "2 ^ (blen p' - 1 + E') \<le> p' * 2 ^ E'" using lo by (simp add: power_add)
  also have "\<dots> < 2 ^ 2098" using assms by (simp add: scale)
  finally have "blen p' - 1 + E' < 2098" by (rule power_less_imp_less_exp [rotated]) simp
  moreover have "blen p' = blen p + l" using False by (simp add: p'_def blen_mult_power)
  ultimately have top: "E' + k \<le> 2045" by (auto simp: k_def E'_def l_def min_def split: if_splits)
  have "(E' + k) * 2 ^ 52 + rne p' k < 2047 * 2 ^ 52"
  proof (cases "E' + k = 2045")
    case True
    have "2 * p' * 2 ^ E' = p * 2 ^ E * 2" using scale by simp
    also note assms
    also have "(2 * 2 ^ 53 - 1) * 2 ^ 2045 = (2 * 2 ^ 53 - 1) * 2 ^ k * (2 :: nat) ^ E'"
      unfolding True [symmetric] power_add by simp
    finally have "2 * p' < (2 * 2 ^ 53 - 1) * 2 ^ k" by (simp only: mult_less_cancel2)
    then have "rne p' k < 2 ^ 53" by (rule rne_lt_half)
    with True show ?thesis by simp
  next
    case False
    have "p' < 2 ^ 53 * 2 ^ k"
      unfolding power_add [symmetric] by (rule less_le_trans [OF hi], rule power_increasing) (simp_all add: k_def)
    then have "rne p' k \<le> 2 ^ 53" by (intro rne_le) simp
    moreover have "(E' + k) * 2 ^ 52 \<le> 2044 * 2 ^ 52" using False top by simp
    ultimately show ?thesis by simp
  qed
  with False show ?thesis by (simp add: f_magnitude_def Let_def flip: l_def p'_def E'_def k_def)
qed (simp add: f_magnitude_def Let_def)

lemma abs_f_units:
  "E \<le> f_pos x \<Longrightarrow> nat \<bar>f_units x E\<bar> * 2 ^ E = f_mant x * 2 ^ f_pos x"
  by (simp add: f_units_def abs_mult nat_mult_distrib nat_power_eq mult.assoc flip: power_add)

lemma f_finite_pack: "m < 2047 * 2 ^ 52 \<Longrightarrow> f_finite (f_pack neg m)"
  using f_pack_fields(2) [of m neg] by (simp add: f_finite_def less_mult_imp_div_less)

text \<open>Adding a number below \<open>2^79\<close> to a finite number never overflows.\<close>

lemma f_add_small_finite:
  assumes "f_finite x" and "f_finite y" and "f_pos y \<le> 1100"
  shows "f_finite (f_add nan x y)"
proof -
  define E s where "E = min (f_pos x) (f_pos y)" and "s = f_units x E + f_units y E"
  have E: "E \<le> f_pos x" "E \<le> f_pos y" by (simp_all add: E_def)
  have "f_exp x \<le> 2046" using assms(1) by (simp add: f_finite_def f_exp_def)
  then have pos: "f_pos x \<le> 2045" by (simp add: f_pos_def)
  have "nat \<bar>s\<bar> \<le> nat \<bar>f_units x E\<bar> + nat \<bar>f_units y E\<bar>" by (simp add: s_def)
  then have "nat \<bar>s\<bar> * 2 ^ E \<le> f_mant x * 2 ^ f_pos x + f_mant y * 2 ^ f_pos y"
    unfolding abs_f_units [OF E(1), symmetric] abs_f_units [OF E(2), symmetric] distrib_right [symmetric]
    by (rule mult_right_mono) simp
  also have "\<dots> \<le> (2 ^ 53 - 1) * 2 ^ 2045 + 2 ^ 53 * 2 ^ 1100"
    using f_mant_lt [of x] f_mant_lt [of y] pos assms(3)
    by (intro add_mono mult_mono power_increasing) simp_all
  finally have "nat \<bar>s\<bar> * 2 ^ E * 2 < (2 * 2 ^ 53 - 1) * 2 ^ 2045" by simp
  then have "f_finite (f_pack (s < 0) (f_magnitude (nat \<bar>s\<bar>) E))"
    by (intro f_finite_pack f_magnitude_finite)
  then show ?thesis
    by (simp add: f_add_finite [OF assms(1,2)] Let_def f_finite_pack flip: E_def s_def)
qed

end
