(* ===== verification/Legacy_Score.thy ===== *)
theory Legacy_Score
  imports Binary64 Reward_Store
begin

text \<open>
  The score records of the build with the tag \<open>legacy_penalty\<close>: the event rules of
  \<open>_quarantine/stake/validator.go\<close>, and \<open>score.go\<close>, \<open>penalty.go\<close> and \<open>root.go\<close> of
  \<open>internal/state/validators\<close>. Scores are binary64 patterns. The tag does not build as the
  repository stands, since \<open>penalty.go\<close> names types that only the quarantined file declares; the
  files are modelled with those declarations.
\<close>

section \<open>validator.go\<close>

type_synonym legacy_event = string

definition ev_ProposalSuccess :: legacy_event where "ev_ProposalSuccess = ''proposal_success''"
definition ev_ProposalMiss :: legacy_event where "ev_ProposalMiss = ''proposal_miss''"
definition ev_BackupRefusal :: legacy_event where "ev_BackupRefusal = ''backup_refusal''"
definition ev_EpochStability :: legacy_event where "ev_EpochStability = ''epoch_stability_bonus''"

lemmas ev_defs = ev_ProposalSuccess_def ev_ProposalMiss_def ev_BackupRefusal_def ev_EpochStability_def

record LegacyValidator =
  lv_Address :: string
  lv_PubKey :: bytes
  lv_StakeMas :: u64
  lv_Score :: float64
  lv_ConsecutiveMisses :: u32
  lv_TotalMisses :: u64
  lv_Jailed :: bool

record PenaltyConfig =
  SuccessReward :: float64
  SecondMissPenalty :: float64
  ThirdMissPenalty :: float64
  FourthMissPenalty :: float64
  BackupRefusalPenalty :: float64
  EpochStabilityBonus :: float64

text \<open>The binary64 numbers \<open>10\<close>, \<open>-0.5\<close>, \<open>-2\<close>, \<open>-100\<close>, \<open>-10\<close> and \<open>0.001\<close>.\<close>

definition DefaultPenaltyConfig :: PenaltyConfig where
  "DefaultPenaltyConfig =
     \<lparr>SuccessReward = 0x4024000000000000, SecondMissPenalty = 0xBFE0000000000000,
      ThirdMissPenalty = 0xC000000000000000, FourthMissPenalty = 0xC059000000000000,
      BackupRefusalPenalty = 0xC024000000000000, EpochStabilityBonus = 0x3F50624DD2F1A9FC\<rparr>"

definition Validator_ApplyEvent ::
  "(float64 \<Rightarrow> float64 \<Rightarrow> float64) \<Rightarrow> legacy_event \<Rightarrow> PenaltyConfig \<Rightarrow> LegacyValidator \<Rightarrow> LegacyValidator" where
  "Validator_ApplyEvent nan event cfg v =
     (if event = ev_ProposalSuccess then
        v\<lparr>lv_ConsecutiveMisses := 0, lv_Score := f_add nan (lv_Score v) (SuccessReward cfg)\<rparr>
      else if event = ev_ProposalMiss then
        (let misses = lv_ConsecutiveMisses v + 1;
             v = v\<lparr>lv_ConsecutiveMisses := misses, lv_TotalMisses := lv_TotalMisses v + 1\<rparr>
         in if misses = 1 then v
            else if misses = 2 then v\<lparr>lv_Score := f_add nan (lv_Score v) (SecondMissPenalty cfg)\<rparr>
            else if misses = 3 then v\<lparr>lv_Score := f_add nan (lv_Score v) (ThirdMissPenalty cfg)\<rparr>
            else if misses = 4 then v\<lparr>lv_Score := f_add nan (lv_Score v) (FourthMissPenalty cfg)\<rparr>
            else v\<lparr>lv_ConsecutiveMisses := 4\<rparr>)
      else if event = ev_BackupRefusal then
        v\<lparr>lv_Score := f_add nan (lv_Score v) (BackupRefusalPenalty cfg)\<rparr>
      else if event = ev_EpochStability then
        v\<lparr>lv_Score := f_add nan (lv_Score v) (EpochStabilityBonus cfg)\<rparr>
      else v)"

section \<open>score.go and penalty.go\<close>

record LegacyScoreRecord =
  ls_Address :: string
  ls_StakeClass :: StakeClass
  ls_ConsensusScore :: i64
  ls_Participation :: i64
  ls_PoolNode :: bool
  ls_LastUpdatedHeight :: u64
  ls_LastRewardedEpoch :: u64
  ls_Score :: float64
  ls_ConsecutiveMisses :: u32
  ls_TotalMisses :: u64
  ls_Jailed :: bool

definition ScoreRecord_Clone :: "LegacyScoreRecord \<Rightarrow> LegacyScoreRecord" where
  "ScoreRecord_Clone r =
     \<lparr>ls_Address = ls_Address r, ls_StakeClass = ls_StakeClass r, ls_ConsensusScore = ls_ConsensusScore r,
      ls_Participation = ls_Participation r, ls_PoolNode = ls_PoolNode r,
      ls_LastUpdatedHeight = ls_LastUpdatedHeight r, ls_LastRewardedEpoch = ls_LastRewardedEpoch r,
      ls_Score = ls_Score r, ls_ConsecutiveMisses = ls_ConsecutiveMisses r,
      ls_TotalMisses = ls_TotalMisses r, ls_Jailed = ls_Jailed r\<rparr>"

definition ResetForEpoch :: "u64 \<Rightarrow> u64 \<Rightarrow> LegacyScoreRecord \<Rightarrow> LegacyScoreRecord" where
  "ResetForEpoch epoch height r =
     r\<lparr>ls_Participation := 0, ls_LastRewardedEpoch := epoch, ls_LastUpdatedHeight := height\<rparr>"

definition ScoreRecord_ApplyEvent ::
  "(float64 \<Rightarrow> float64 \<Rightarrow> float64) \<Rightarrow> legacy_event \<Rightarrow> PenaltyConfig \<Rightarrow> LegacyScoreRecord \<Rightarrow> LegacyScoreRecord" where
  "ScoreRecord_ApplyEvent nan event cfg r =
     (let validator = \<lparr>lv_Address = ls_Address r, lv_PubKey = [], lv_StakeMas = 0, lv_Score = ls_Score r,
            lv_ConsecutiveMisses = ls_ConsecutiveMisses r, lv_TotalMisses = ls_TotalMisses r,
            lv_Jailed = ls_Jailed r\<rparr>;
          validator = Validator_ApplyEvent nan event cfg validator
      in r\<lparr>ls_Score := lv_Score validator, ls_ConsecutiveMisses := lv_ConsecutiveMisses validator,
           ls_TotalMisses := lv_TotalMisses validator, ls_Jailed := lv_Jailed validator\<rparr>)"

section \<open>root.go\<close>

definition le_bytes :: "nat \<Rightarrow> nat \<Rightarrow> bytes" where
  "le_bytes k n = rev (be_bytes k n)"

definition writeUint64 :: "u64 \<Rightarrow> bytes \<Rightarrow> bytes" where
  "writeUint64 v buf = buf @ le_bytes 8 (unat v)"

definition writeUint32 :: "u32 \<Rightarrow> bytes \<Rightarrow> bytes" where
  "writeUint32 v buf = buf @ le_bytes 4 (unat v)"

definition writeInt64 :: "i64 \<Rightarrow> bytes \<Rightarrow> bytes" where
  "writeInt64 v buf = writeUint64 v buf"

definition writeBool :: "bool \<Rightarrow> bytes \<Rightarrow> bytes" where
  "writeBool b buf = buf @ [if b then 1 else 0]"

fun class_code :: "StakeClass \<Rightarrow> u64" where
  "class_code StakeClassG1 = 0"
| "class_code StakeClassG2 = 1"
| "class_code StakeClassG3 = 2"
| "class_code StakeClassG4 = 3"
| "class_code StakeClassG5 = 4"

definition encodeScoreRecord :: "LegacyScoreRecord \<Rightarrow> bytes" where
  "encodeScoreRecord rec =
     (let addr = to_lower (trim_space (ls_Address rec));
          buf = bytes_of addr @ [0];
          buf = writeUint64 (class_code (ls_StakeClass rec)) buf;
          buf = writeInt64 (ls_ConsensusScore rec) buf;
          buf = writeInt64 (ls_Participation rec) buf;
          buf = writeBool (ls_PoolNode rec) buf;
          buf = writeUint64 (ls_LastUpdatedHeight rec) buf;
          buf = writeUint64 (ls_LastRewardedEpoch rec) buf;
          buf = buf @ le_bytes 8 (unat (ls_Score rec));
          buf = writeUint32 (ls_ConsecutiveMisses rec) buf;
          buf = writeUint64 (ls_TotalMisses rec) buf
      in writeBool (ls_Jailed rec) buf)"

definition legacy_leaves :: "LegacyScoreRecord list \<Rightarrow> bytes list" where
  "legacy_leaves records =
     (let copies = sort_key (\<lambda>r. to_lower (ls_Address r)) (map ScoreRecord_Clone records)
      in map encodeScoreRecord copies)"

definition legacy_ComputeValidatorsRoot :: "(bytes \<Rightarrow> bytes) \<Rightarrow> LegacyScoreRecord list \<Rightarrow> bytes" where
  "legacy_ComputeValidatorsRoot b3 records =
     (if records = [] then Blake3RootFromRaw b3 [] else Blake3RootFromRaw b3 (legacy_leaves records))"

definition legacy_ComputeNextValidatorsRoot :: "(bytes \<Rightarrow> bytes) \<Rightarrow> LegacyScoreRecord list \<Rightarrow> bytes" where
  "legacy_ComputeNextValidatorsRoot b3 records = legacy_ComputeValidatorsRoot b3 records"

section \<open>Runs of events\<close>

lemma ScoreRecord_Clone_id [simp]: "ScoreRecord_Clone r = r"
  by (simp add: ScoreRecord_Clone_def)

definition run_penalty ::
  "(float64 \<Rightarrow> float64 \<Rightarrow> float64) \<Rightarrow> legacy_event list \<Rightarrow> LegacyScoreRecord \<Rightarrow> LegacyScoreRecord" where
  "run_penalty nan evs r = fold (\<lambda>e. ScoreRecord_ApplyEvent nan e DefaultPenaltyConfig) evs r"

lemma run_penalty_simps [simp]:
  "run_penalty nan [] r = r"
  "run_penalty nan (e # evs) r = run_penalty nan evs (ScoreRecord_ApplyEvent nan e DefaultPenaltyConfig r)"
  by (simp_all add: run_penalty_def)

text \<open>
  The rules over whole numbers: a score in halves and the number of misses in a row, counted up to
  four.
\<close>

definition miss_halves :: "nat \<Rightarrow> int" where
  "miss_halves c = (if c = 1 then - 1 else if c = 2 then - 4 else if c = 3 then - 200 else 0)"

definition penalty_rule :: "legacy_event \<Rightarrow> int \<times> nat \<Rightarrow> int \<times> nat" where
  "penalty_rule e s = (case s of (n, c) \<Rightarrow>
     if e = ev_ProposalSuccess then (n + 20, 0)
     else if e = ev_ProposalMiss then (n + miss_halves c, min 4 (c + 1))
     else if e = ev_BackupRefusal then (n - 20, c)
     else (n, c))"

definition penalty_spec :: "legacy_event list \<Rightarrow> int \<times> nat \<Rightarrow> int \<times> nat" where
  "penalty_spec evs s = fold penalty_rule evs s"

lemma penalty_spec_simps [simp]:
  "penalty_spec [] s = s"
  "penalty_spec (e # evs) s = penalty_spec evs (penalty_rule e s)"
  by (simp_all add: penalty_spec_def)

lemma default_halves:
  "SuccessReward DefaultPenaltyConfig = f_half 20"
  "SecondMissPenalty DefaultPenaltyConfig = f_half (- 1)"
  "ThirdMissPenalty DefaultPenaltyConfig = f_half (- 4)"
  "FourthMissPenalty DefaultPenaltyConfig = f_half (- 200)"
  "BackupRefusalPenalty DefaultPenaltyConfig = f_half (- 20)"
  by (simp_all add: DefaultPenaltyConfig_def f_half_bits [where j = 48 and e = 1025]
      f_half_bits [where j = 52 and e = 1021] f_half_bits [where j = 50 and e = 1023]
      f_half_bits [where j = 45 and e = 1028] f_pack_def)

lemma ev_distinct [simp]:
  "ev_ProposalMiss \<noteq> ev_ProposalSuccess" "ev_BackupRefusal \<noteq> ev_ProposalSuccess"
  "ev_BackupRefusal \<noteq> ev_ProposalMiss" "ev_EpochStability \<noteq> ev_ProposalSuccess"
  "ev_EpochStability \<noteq> ev_ProposalMiss" "ev_EpochStability \<noteq> ev_BackupRefusal"
  by (simp_all add: ev_defs)

lemmas apply_event_defs = ScoreRecord_ApplyEvent_def Validator_ApplyEvent_def Let_def

text \<open>What a single event does to the counters and to the score.\<close>

lemma penalty_misses:
  assumes "unat (ls_ConsecutiveMisses r) \<le> 4"
  shows "unat (ls_ConsecutiveMisses (ScoreRecord_ApplyEvent nan e cfg r))
    = snd (penalty_rule e (n, unat (ls_ConsecutiveMisses r)))"
proof -
  define c where "c = unat (ls_ConsecutiveMisses r)"
  then have misses: "ls_ConsecutiveMisses r = of_nat c" by simp
  have "c \<in> {0, 1, 2, 3, 4}" using assms by (auto simp: c_def)
  then show ?thesis
    unfolding c_def [symmetric] by (auto simp: apply_event_defs penalty_rule_def misses)
qed

lemma penalty_score:
  assumes "unat (ls_ConsecutiveMisses r) \<le> 4" and "ls_Score r = f_half n" and "\<bar>n\<bar> + 200 < 2 ^ 53"
    and "e \<noteq> ev_EpochStability"
  shows "ls_Score (ScoreRecord_ApplyEvent nan e DefaultPenaltyConfig r)
    = f_half (fst (penalty_rule e (n, unat (ls_ConsecutiveMisses r))))"
proof -
  define c where "c = unat (ls_ConsecutiveMisses r)"
  then have misses: "ls_ConsecutiveMisses r = of_nat c" by simp
  have add: "f_add nan (f_half n) (f_half d) = f_half (n + d)" if "\<bar>d\<bar> \<le> 200" for d
    using that assms(3) by (intro f_add_half) auto
  have "c \<in> {0, 1, 2, 3, 4}" using assms by (auto simp: c_def)
  then show ?thesis
    unfolding c_def [symmetric]
    by (auto simp: apply_event_defs penalty_rule_def misses default_halves assms(2,4) add miss_halves_def)
qed

lemma penalty_rule_bound: "\<bar>fst (penalty_rule e (n, c))\<bar> \<le> \<bar>n\<bar> + 200"
  by (auto simp: penalty_rule_def miss_halves_def)

lemma penalty_frame:
  "ls_TotalMisses (ScoreRecord_ApplyEvent nan e cfg r) = ls_TotalMisses r + (if e = ev_ProposalMiss then 1 else 0)"
  "ls_Jailed (ScoreRecord_ApplyEvent nan e cfg r) = ls_Jailed r"
  "ls_Address (ScoreRecord_ApplyEvent nan e cfg r) = ls_Address r"
  by (auto simp: apply_event_defs)

lemma run_penalty_exact:
  assumes "ls_Score r = f_half n" and "unat (ls_ConsecutiveMisses r) \<le> 4"
    and "ev_EpochStability \<notin> set evs" and "\<bar>n\<bar> + 200 * int (length evs) < 2 ^ 53"
  shows "(ls_Score (run_penalty nan evs r), unat (ls_ConsecutiveMisses (run_penalty nan evs r)))
    = map_prod f_half id (penalty_spec evs (n, unat (ls_ConsecutiveMisses r)))"
  using assms
proof (induction evs arbitrary: r n)
  case (Cons e evs)
  let ?r = "ScoreRecord_ApplyEvent nan e DefaultPenaltyConfig r"
  let ?s = "penalty_rule e (n, unat (ls_ConsecutiveMisses r))"
  have bound: "\<bar>n\<bar> + 200 < 2 ^ 53" and e: "e \<noteq> ev_EpochStability" using Cons.prems by auto
  have misses: "unat (ls_ConsecutiveMisses ?r) = snd ?s" using penalty_misses Cons.prems(2) .
  have "(ls_Score (run_penalty nan evs ?r), unat (ls_ConsecutiveMisses (run_penalty nan evs ?r)))
      = map_prod f_half id (penalty_spec evs (fst ?s, unat (ls_ConsecutiveMisses ?r)))"
  proof (rule Cons.IH)
    show "ls_Score ?r = f_half (fst ?s)" using Cons.prems(2,1) bound e by (rule penalty_score)
    show "unat (ls_ConsecutiveMisses ?r) \<le> 4"
      unfolding misses using Cons.prems(2) by (auto simp: penalty_rule_def)
    show "\<bar>fst ?s\<bar> + 200 * int (length evs) < 2 ^ 53"
      using penalty_rule_bound [of e n "unat (ls_ConsecutiveMisses r)"] Cons.prems(4) by simp
  qed (use Cons.prems(3) in simp)
  then show ?case by (simp add: misses id_def)
qed simp

text \<open>
  Property C34. The score of a legacy record is kept without rounding: in a run of events without the
  stability bonus, starting from a score of \<open>n\<close> halves and at most four misses in a row, the
  floating-point score and the 32-bit counter are at every moment those of the rules over whole
  numbers (success +10, second miss -0.5, third -2, fourth -100, refusal -10), as long as the
  events could not have moved the score by \<open>2^52\<close>.
\<close>

theorem penalty_exact:
  assumes "ls_Score r = f_half n" and "unat (ls_ConsecutiveMisses r) \<le> 4"
    and "ev_EpochStability \<notin> set evs" and "\<bar>n\<bar> + 200 * int (length evs) < 2 ^ 53"
  shows "(ls_Score (run_penalty nan evs r), unat (ls_ConsecutiveMisses (run_penalty nan evs r)))
    = map_prod f_half id (penalty_spec evs (n, unat (ls_ConsecutiveMisses r)))"
  using assms by (rule run_penalty_exact)

text \<open>A fresh record, as the tests build it.\<close>

definition fresh_record :: "string \<Rightarrow> LegacyScoreRecord" where
  "fresh_record addr =
     \<lparr>ls_Address = addr, ls_StakeClass = StakeClassG1, ls_ConsensusScore = 0, ls_Participation = 0,
      ls_PoolNode = False, ls_LastUpdatedHeight = 0, ls_LastRewardedEpoch = 0, ls_Score = 0,
      ls_ConsecutiveMisses = 0, ls_TotalMisses = 0, ls_Jailed = False\<rparr>"

theorem penalty_exact_witness:
  "(ls_Score (run_penalty (\<lambda>_ y. y) [ev_ProposalSuccess, ev_ProposalMiss, ev_ProposalMiss] (fresh_record ''val1'')),
    unat (ls_ConsecutiveMisses (run_penalty (\<lambda>_ y. y) [ev_ProposalSuccess, ev_ProposalMiss, ev_ProposalMiss] (fresh_record ''val1''))))
   = (f_half 19, 2)"
  using penalty_exact [of "fresh_record ''val1''" 0 "[ev_ProposalSuccess, ev_ProposalMiss, ev_ProposalMiss]" "\<lambda>_ y. y"]
  by (simp add: fresh_record_def penalty_rule_def miss_halves_def)

text \<open>
  Fact. No event makes a legacy record unusable: with the default configuration a finite
  score stays finite whatever the events and however long the run, the counter of misses in a row
  stays at most four, misses are counted modulo \<open>2^64\<close>, and neither the jail flag nor the
  address ever changes.
\<close>

theorem penalty_invariant:
  assumes "f_finite (ls_Score r)" and "unat (ls_ConsecutiveMisses r) \<le> 4"
  shows "f_finite (ls_Score (run_penalty nan evs r))
    \<and> unat (ls_ConsecutiveMisses (run_penalty nan evs r)) \<le> 4
    \<and> ls_TotalMisses (run_penalty nan evs r) = ls_TotalMisses r + of_nat (count_list evs ev_ProposalMiss)
    \<and> ls_Jailed (run_penalty nan evs r) = ls_Jailed r
    \<and> ls_Address (run_penalty nan evs r) = ls_Address r"
  using assms
proof (induction evs arbitrary: r)
  case (Cons e evs)
  have small: "f_finite (SuccessReward DefaultPenaltyConfig)" "f_pos (SuccessReward DefaultPenaltyConfig) \<le> 1100"
    "f_finite (SecondMissPenalty DefaultPenaltyConfig)" "f_pos (SecondMissPenalty DefaultPenaltyConfig) \<le> 1100"
    "f_finite (ThirdMissPenalty DefaultPenaltyConfig)" "f_pos (ThirdMissPenalty DefaultPenaltyConfig) \<le> 1100"
    "f_finite (FourthMissPenalty DefaultPenaltyConfig)" "f_pos (FourthMissPenalty DefaultPenaltyConfig) \<le> 1100"
    "f_finite (BackupRefusalPenalty DefaultPenaltyConfig)" "f_pos (BackupRefusalPenalty DefaultPenaltyConfig) \<le> 1100"
    "f_finite (EpochStabilityBonus DefaultPenaltyConfig)" "f_pos (EpochStabilityBonus DefaultPenaltyConfig) \<le> 1100"
    by (simp_all add: DefaultPenaltyConfig_def f_finite_def f_pos_def f_exp_def)
  let ?r = "ScoreRecord_ApplyEvent nan e DefaultPenaltyConfig r"
  have "f_finite (ls_Score ?r)"
    using Cons.prems(1) f_add_small_finite [OF _ small(1,2)] f_add_small_finite [OF _ small(3,4)]
      f_add_small_finite [OF _ small(5,6)] f_add_small_finite [OF _ small(7,8)]
      f_add_small_finite [OF _ small(9,10)] f_add_small_finite [OF _ small(11,12)]
    by (simp add: apply_event_defs)
  moreover have "unat (ls_ConsecutiveMisses ?r) \<le> 4"
    using penalty_misses [OF Cons.prems(2), of nan e DefaultPenaltyConfig 0] Cons.prems(2)
    by (auto simp: penalty_rule_def)
  ultimately have "f_finite (ls_Score (run_penalty nan evs ?r))
    \<and> unat (ls_ConsecutiveMisses (run_penalty nan evs ?r)) \<le> 4
    \<and> ls_TotalMisses (run_penalty nan evs ?r) = ls_TotalMisses ?r + of_nat (count_list evs ev_ProposalMiss)
    \<and> ls_Jailed (run_penalty nan evs ?r) = ls_Jailed ?r \<and> ls_Address (run_penalty nan evs ?r) = ls_Address ?r"
    by (rule Cons.IH)
  then show ?case by (simp add: penalty_frame)
qed simp

theorem penalty_invariant_witness:
  "f_finite (ls_Score (run_penalty (\<lambda>_ y. y) (replicate 1000 ev_EpochStability) (fresh_record ''val1'')))"
  using penalty_invariant [of "fresh_record ''val1''" "\<lambda>_ y. y" "replicate 1000 ev_EpochStability"]
  by (simp add: fresh_record_def)

section \<open>The root\<close>

lemma length_le_bytes [simp]: "length (le_bytes k n) = k"
  by (simp add: le_bytes_def)

lemma le_bytes_u64 [simp]: "le_bytes 8 (unat (a :: u64)) = le_bytes 8 (unat b) \<longleftrightarrow> a = b"
  using be_bytes_inject [of "unat a" 8 "unat b"] by (simp add: le_bytes_def u64_eq_iff)

lemma le_bytes_u32 [simp]: "le_bytes 4 (unat (a :: u32)) = le_bytes 4 (unat b) \<longleftrightarrow> a = b"
  using be_bytes_inject [of "unat a" 4 "unat b"] unsigned_less [of a] unsigned_less [of b]
  by (simp add: le_bytes_def word_unat_eq_iff)

lemma class_code_inject [simp]: "class_code a = class_code b \<longleftrightarrow> a = b"
  by (cases a; cases b) simp_all

text \<open>The part behind the address has 62 bytes.\<close>

definition score_tail :: "LegacyScoreRecord \<Rightarrow> bytes" where
  "score_tail r =
     le_bytes 8 (unat (class_code (ls_StakeClass r))) @ le_bytes 8 (unat (ls_ConsensusScore r))
     @ le_bytes 8 (unat (ls_Participation r)) @ [if ls_PoolNode r then 1 else 0]
     @ le_bytes 8 (unat (ls_LastUpdatedHeight r)) @ le_bytes 8 (unat (ls_LastRewardedEpoch r))
     @ le_bytes 8 (unat (ls_Score r)) @ le_bytes 4 (unat (ls_ConsecutiveMisses r))
     @ le_bytes 8 (unat (ls_TotalMisses r)) @ [if ls_Jailed r then 1 else 0]"

lemma encodeScoreRecord_parts:
  "encodeScoreRecord r = bytes_of (normalize (ls_Address r)) @ [0] @ score_tail r"
  by (simp add: encodeScoreRecord_def score_tail_def writeUint64_def writeUint32_def writeInt64_def
      writeBool_def normalize_def Let_def)

lemma length_score_tail [simp]: "length (score_tail r) = 62"
  by (simp add: score_tail_def)

text \<open>What the root can tell apart of a record: everything but case and blanks of the address.\<close>

definition normal_record :: "LegacyScoreRecord \<Rightarrow> LegacyScoreRecord" where
  "normal_record r = r\<lparr>ls_Address := normalize (ls_Address r)\<rparr>"

lemma score_tail_inject:
  assumes "score_tail r = score_tail q" and "normalize (ls_Address r) = normalize (ls_Address q)"
  shows "normal_record r = normal_record q"
proof -
  from assms(1) have
    "class_code (ls_StakeClass r) = class_code (ls_StakeClass q)" "ls_ConsensusScore r = ls_ConsensusScore q"
    "ls_Participation r = ls_Participation q" "ls_PoolNode r = ls_PoolNode q"
    "ls_LastUpdatedHeight r = ls_LastUpdatedHeight q" "ls_LastRewardedEpoch r = ls_LastRewardedEpoch q"
    "ls_Score r = ls_Score q" "ls_ConsecutiveMisses r = ls_ConsecutiveMisses q"
    "ls_TotalMisses r = ls_TotalMisses q" "ls_Jailed r = ls_Jailed q"
    by (simp_all add: score_tail_def split: if_splits)
  with assms(2) show ?thesis by (simp add: normal_record_def)
qed

lemma encodeScoreRecord_inject:
  "encodeScoreRecord r = encodeScoreRecord q \<longleftrightarrow> normal_record r = normal_record q"
proof
  assume "encodeScoreRecord r = encodeScoreRecord q"
  then have eq: "(bytes_of (normalize (ls_Address r)) @ [0]) @ score_tail r
      = (bytes_of (normalize (ls_Address q)) @ [0]) @ score_tail q"
    by (simp add: encodeScoreRecord_parts)
  then have "length (bytes_of (normalize (ls_Address r)) @ [0]) = length (bytes_of (normalize (ls_Address q)) @ [0])"
    by (metis add_right_imp_eq length_append length_score_tail)
  with eq have "normalize (ls_Address r) = normalize (ls_Address q)" "score_tail r = score_tail q"
    by simp_all
  then show "normal_record r = normal_record q" by (intro score_tail_inject)
next
  assume "normal_record r = normal_record q"
  then have "normalize (ls_Address r) = normalize (ls_Address q)" "score_tail r = score_tail q"
    by (cases r; cases q; simp add: normal_record_def score_tail_def)+
  then show "encodeScoreRecord r = encodeScoreRecord q" by (simp add: encodeScoreRecord_parts)
qed

text \<open>
  Fact. The root does not depend on the order of the records, as long as their addresses differ
  in more than case.
\<close>

theorem legacy_root_order:
  assumes "distinct (map (\<lambda>r. to_lower (ls_Address r)) records)" and "mset records' = mset records"
  shows "legacy_ComputeValidatorsRoot b3 records' = legacy_ComputeValidatorsRoot b3 records"
proof -
  have "inj_on (\<lambda>r. to_lower (ls_Address r)) (set records')"
    using assms by (metis distinct_map set_mset_mset)
  then have "sort_key (\<lambda>r. to_lower (ls_Address r)) records' = sort_key (\<lambda>r. to_lower (ls_Address r)) records"
    by (rule sort_key_cong_mset [OF assms(2)])
  then have "legacy_leaves records' = legacy_leaves records" by (simp add: legacy_leaves_def map_idI)
  moreover have "records' = [] \<longleftrightarrow> records = []" using assms(2) by auto
  ultimately show ?thesis by (simp add: legacy_ComputeValidatorsRoot_def)
qed

theorem legacy_root_order_witness:
  "legacy_ComputeValidatorsRoot toy_hash [fresh_record ''VAL1'', fresh_record ''val2'']
   = legacy_ComputeValidatorsRoot toy_hash [fresh_record ''val2'', fresh_record ''VAL1'']"
  by (rule legacy_root_order) (simp_all add: fresh_record_def to_lower_def lower_char_def)

text \<open>
  Fact. The legacy validators root binds the score records: two lists of the same length
  with the same root hold the same records, every field included, up to their order and to case
  and surrounding blanks of the addresses, provided the hash is injective on the strings hashed.
\<close>

theorem legacy_root_binding:
  assumes "\<And>x. length (b3 x) = 32" and "length records = length records'"
    and "inj_on b3 (merkle_inputs b3 (legacy_leaves records) \<union> merkle_inputs b3 (legacy_leaves records'))"
    and "legacy_ComputeValidatorsRoot b3 records = legacy_ComputeValidatorsRoot b3 records'"
  shows "image_mset normal_record (mset records) = image_mset normal_record (mset records')"
proof (cases "records = []")
  case False
  have len: "length (legacy_leaves rs) = length rs" for rs by (simp add: legacy_leaves_def)
  have "records' \<noteq> []" using False assms(2) by auto
  with False assms(4) have "Blake3RootFromRaw b3 (legacy_leaves records) = Blake3RootFromRaw b3 (legacy_leaves records')"
    by (simp add: legacy_ComputeValidatorsRoot_def)
  with Blake3Root_distinct [OF assms(1) _ _ assms(3)] assms(2) have "legacy_leaves records = legacy_leaves records'"
    by (auto simp: len)
  then have "map encodeScoreRecord (sort_key (\<lambda>r. to_lower (ls_Address r)) records)
      = map encodeScoreRecord (sort_key (\<lambda>r. to_lower (ls_Address r)) records')"
    by (simp add: legacy_leaves_def map_idI)
  then have "map normal_record (sort_key (\<lambda>r. to_lower (ls_Address r)) records)
      = map normal_record (sort_key (\<lambda>r. to_lower (ls_Address r)) records')"
    by (rule map_eq_weaken) (simp add: encodeScoreRecord_inject)
  from arg_cong [OF this, of mset] show ?thesis by simp
qed (use assms(2) in simp)

theorem legacy_root_binding_witness:
  "image_mset normal_record {#fresh_record ''VAL1''#} = image_mset normal_record {#fresh_record ''val1 ''#}"
proof -
  have norm: "normalize ''VAL1'' = normalize ''val1 ''" by code_simp
  then have "encodeScoreRecord (fresh_record ''VAL1'') = encodeScoreRecord (fresh_record ''val1 '')"
    by (simp add: encodeScoreRecord_inject normal_record_def fresh_record_def)
  then have same: "legacy_leaves [fresh_record ''VAL1''] = legacy_leaves [fresh_record ''val1 '']"
    by (simp add: legacy_leaves_def)
  have "inj_on toy_hash (merkle_inputs toy_hash (legacy_leaves [fresh_record ''val1 '']))"
    by (simp add: legacy_leaves_def merkle_inputs_def)
  with legacy_root_binding [of toy_hash "[fresh_record ''VAL1'']" "[fresh_record ''val1 '']"] same
  show ?thesis by (simp add: legacy_ComputeValidatorsRoot_def)
qed

end
