(* ===== verification/Legacy_State.thy ===== *)
theory Legacy_State
  imports Legacy_Score
begin

text \<open>
  \<open>reward.go\<close>, \<open>validator_events.go\<close> and \<open>validators_root.go\<close> of \<open>internal/state\<close>, all
  behind the tag \<open>legacy_penalty\<close>: a second set of score records, payouts and summaries, kept in
  the three maps of the state database that \<open>state.go\<close> declares and \<open>NewDB\<close> allocates. The lock
  is taken by every operation.
\<close>

section \<open>reward.go\<close>

record ValidatorScoreRecord =
  vsr_Address :: string
  vsr_StakeClass :: string
  vsr_ConsensusScore :: float64
  vsr_Participation :: float64
  vsr_PoolNode :: bool
  vsr_ConsecutiveMisses :: u32
  vsr_LastUpdatedHeight :: u64
  vsr_LastRewardedEpoch :: u64

record ValidatorPayoutRecord =
  pr_Address :: string
  pr_Amount :: u64
  pr_Epoch :: u64
  pr_Height :: u64
  pr_TimeUTC :: i64

record state_EpochRewardSummary =
  ers_Epoch :: u64
  ers_Height :: u64
  ers_TotalEmission :: u64
  ers_ValidatorShare :: u64
  ers_FoundationShare :: u64
  ers_ExchangeShare :: u64

type_synonym LegacyDB = "(ValidatorScoreRecord, ValidatorPayoutRecord, state_EpochRewardSummary) DB_of"

definition UpsertValidatorScore :: "ValidatorScoreRecord \<Rightarrow> LegacyDB \<Rightarrow> LegacyDB" where
  "UpsertValidatorScore rec db =
     db\<lparr>validatorScores := AList.update (to_lower (vsr_Address rec)) rec (validatorScores db)\<rparr>"

definition GetValidatorScore :: "string \<Rightarrow> LegacyDB \<Rightarrow> ValidatorScoreRecord option" where
  "GetValidatorScore address db = map_of (validatorScores db) (to_lower address)"

definition db_ListValidatorScores :: "LegacyDB \<Rightarrow> ValidatorScoreRecord list" where
  "db_ListValidatorScores db =
     (let out = map snd (validatorScores db)
      in sort_key (\<lambda>r. to_lower (vsr_Address r)) out)"

definition RecordValidatorPayout :: "u64 \<Rightarrow> ValidatorPayoutRecord \<Rightarrow> LegacyDB \<Rightarrow> LegacyDB" where
  "RecordValidatorPayout epoch payout db =
     (let bucket = (case map_of (epochPayouts db) epoch of None \<Rightarrow> [] | Some b \<Rightarrow> b);
          bucket = AList.update (to_lower (pr_Address payout)) payout bucket
      in db\<lparr>epochPayouts := AList.update epoch bucket (epochPayouts db)\<rparr>)"

definition EpochPayouts :: "u64 \<Rightarrow> LegacyDB \<Rightarrow> ValidatorPayoutRecord list" where
  "EpochPayouts epoch db =
     (case map_of (epochPayouts db) epoch of
        None \<Rightarrow> []
      | Some bucket \<Rightarrow> sort_key (\<lambda>r. to_lower (pr_Address r)) (map snd bucket))"

definition SetEpochRewardSummary :: "state_EpochRewardSummary \<Rightarrow> LegacyDB \<Rightarrow> LegacyDB" where
  "SetEpochRewardSummary summary db =
     db\<lparr>epochSummaries := AList.update (ers_Epoch summary) summary (epochSummaries db)\<rparr>"

definition GetEpochRewardSummary :: "u64 \<Rightarrow> LegacyDB \<Rightarrow> state_EpochRewardSummary option" where
  "GetEpochRewardSummary epoch db = map_of (epochSummaries db) epoch"

section \<open>validator\_events.go\<close>

datatype ScoreEvent =
    ScoreEventProposalSuccess
  | ScoreEventProposalMiss
  | ScoreEventBackupRefusal
  | ScoreEventEpochStability
  | ScoreEventOther int

definition zeroScoreRecord :: ValidatorScoreRecord where
  "zeroScoreRecord =
     \<lparr>vsr_Address = [], vsr_StakeClass = [], vsr_ConsensusScore = 0, vsr_Participation = 0, vsr_PoolNode = False,
      vsr_ConsecutiveMisses = 0, vsr_LastUpdatedHeight = 0, vsr_LastRewardedEpoch = 0\<rparr>"

definition ensureDefaults :: "string \<Rightarrow> string \<Rightarrow> ValidatorScoreRecord \<Rightarrow> ValidatorScoreRecord" where
  "ensureDefaults address class rec =
     (let rec = (if vsr_Address rec = [] then rec\<lparr>vsr_Address := address\<rparr> else rec)
      in if vsr_StakeClass rec = [] then rec\<lparr>vsr_StakeClass := class\<rparr> else rec)"

text \<open>The constants are the binary64 numbers \<open>10\<close>, \<open>0.5\<close>, \<open>2\<close>, \<open>100\<close> and \<open>0.001\<close>.\<close>

definition state_ApplyEvent ::
  "(float64 \<Rightarrow> float64 \<Rightarrow> float64) \<Rightarrow> ScoreEvent \<Rightarrow> u64 \<Rightarrow> ValidatorScoreRecord \<Rightarrow> ValidatorScoreRecord" where
  "state_ApplyEvent nan event height rec =
     (let score = vsr_ConsensusScore rec;
          rec = (case event of
            ScoreEventProposalSuccess \<Rightarrow>
              rec\<lparr>vsr_ConsensusScore := f_add nan score 0x4024000000000000, vsr_ConsecutiveMisses := 0\<rparr>
          | ScoreEventProposalMiss \<Rightarrow>
              (let misses = vsr_ConsecutiveMisses rec + 1;
                   rec = rec\<lparr>vsr_ConsecutiveMisses := misses\<rparr>
               in if misses = 1 then rec
                  else if misses = 2 then rec\<lparr>vsr_ConsensusScore := f_sub nan score 0x3FE0000000000000\<rparr>
                  else if misses = 3 then rec\<lparr>vsr_ConsensusScore := f_sub nan score 0x4000000000000000\<rparr>
                  else rec\<lparr>vsr_ConsensusScore := f_sub nan score 0x4059000000000000\<rparr>)
          | ScoreEventBackupRefusal \<Rightarrow> rec\<lparr>vsr_ConsensusScore := f_sub nan score 0x4024000000000000\<rparr>
          | ScoreEventEpochStability \<Rightarrow> rec\<lparr>vsr_ConsensusScore := f_add nan score 0x3F50624DD2F1A9FC\<rparr>
          | ScoreEventOther n \<Rightarrow> rec)
      in rec\<lparr>vsr_LastUpdatedHeight := height\<rparr>)"

definition Weight :: "u64 \<Rightarrow> (string, u64) gomap \<Rightarrow> u64 \<Rightarrow> ValidatorScoreRecord \<Rightarrow> u64" where
  "Weight oob base poolMultiplier rec =
     (let weight = (case map_of base (to_lower (vsr_StakeClass rec)) of None \<Rightarrow> 0 | Some w \<Rightarrow> w);
          weight = (if f_positive (vsr_ConsensusScore rec)
                    then weight + f_round_u64 oob (vsr_ConsensusScore rec) else weight);
          weight = (if f_positive (vsr_Participation rec)
                    then weight + f_round_u64 oob (vsr_Participation rec) else weight)
      in if vsr_PoolNode rec \<and> 1 < poolMultiplier then weight * poolMultiplier else weight)"

definition ApplyValidatorEvent ::
  "(float64 \<Rightarrow> float64 \<Rightarrow> float64) \<Rightarrow> string \<Rightarrow> string \<Rightarrow> ScoreEvent \<Rightarrow> u64 \<Rightarrow> LegacyDB \<Rightarrow> LegacyDB" where
  "ApplyValidatorEvent nan address class event height db =
     (let key = to_lower address;
          rec = (case map_of (validatorScores db) key of None \<Rightarrow> zeroScoreRecord | Some r \<Rightarrow> r);
          rec = ensureDefaults address class rec;
          rec = state_ApplyEvent nan event height rec
      in db\<lparr>validatorScores := AList.update key rec (validatorScores db)\<rparr>)"

section \<open>validators\_root.go\<close>

definition state_record_bytes :: "ValidatorScoreRecord \<Rightarrow> bytes" where
  "state_record_bytes rec =
     bytes_of (to_lower (vsr_Address rec)) @ bytes_of (to_lower (vsr_StakeClass rec))
     @ be_bytes 8 (unat (vsr_ConsensusScore rec)) @ be_bytes 8 (unat (vsr_Participation rec))
     @ (if vsr_PoolNode rec then [1] else [0])
     @ be_bytes 4 (unat (vsr_ConsecutiveMisses rec))
     @ be_bytes 8 (unat (vsr_LastUpdatedHeight rec)) @ be_bytes 8 (unat (vsr_LastRewardedEpoch rec))"

definition state_ComputeValidatorsRoot :: "(bytes \<Rightarrow> bytes) \<Rightarrow> ValidatorScoreRecord list \<Rightarrow> bytes" where
  "state_ComputeValidatorsRoot sha records =
     (let clone = sort_key (\<lambda>r. to_lower (vsr_Address r)) records
      in sha (concat (map state_record_bytes clone)))"

definition state_ComputeNextValidatorsRoot :: "(bytes \<Rightarrow> bytes) \<Rightarrow> ValidatorScoreRecord list \<Rightarrow> bytes" where
  "state_ComputeNextValidatorsRoot sha records = state_ComputeValidatorsRoot sha records"

section \<open>Maps keyed by an attribute of the value\<close>

definition keyed_by :: "('v \<Rightarrow> 'k) \<Rightarrow> ('k, 'v) gomap \<Rightarrow> bool" where
  "keyed_by f m \<longleftrightarrow> gm_wf m \<and> (\<forall>(k, v) \<in> set m. k = f v)"

lemma keyed_by_Nil [simp]: "keyed_by f []"
  by (simp add: keyed_by_def)

lemma keyed_by_iff: "keyed_by f m \<longleftrightarrow> gm_wf m \<and> (\<forall>k v. map_of m k = Some v \<longrightarrow> k = f v)"
  by (auto simp: keyed_by_def dest: map_of_SomeD)

lemma keyed_by_update: "keyed_by f m \<Longrightarrow> keyed_by f (AList.update (f v) v m)"
  by (simp add: keyed_by_iff gomap_simps)

lemma keyed_by_values:
  assumes "keyed_by f m"
  shows "map f (map snd m) = map fst m"
    and "map_of m k = Some v \<longleftrightarrow> v \<in> set (map snd m) \<and> f v = k"
proof -
  show "map f (map snd m) = map fst m" using assms by (auto simp: keyed_by_def)
  show "map_of m k = Some v \<longleftrightarrow> v \<in> set (map snd m) \<and> f v = k"
    using assms by (force simp: keyed_by_def dest: map_of_SomeD intro: map_of_is_SomeI)
qed

text \<open>The sorted values have strictly increasing keys and do not depend on the order of the map.\<close>

lemma keyed_by_sorted:
  assumes "keyed_by f m"
  shows "sorted_wrt (<) (map f (sort_key f (map snd m)))"
proof -
  have "mset (map f (sort_key f (map snd m))) = mset (map fst m)"
    by (simp add: multiset.map_comp flip: keyed_by_values(1) [OF assms])
  then have "distinct (map f (sort_key f (map snd m)))"
    using assms by (metis keyed_by_def mset_eq_imp_distinct_iff)
  moreover have "sorted (map f (sort_key f (map snd m)))" by simp
  ultimately show ?thesis by (simp add: strict_sorted_iff)
qed

lemma keyed_by_sort_cong:
  assumes "keyed_by f m" and "keyed_by f m'" and "map_of m = map_of m'"
  shows "sort_key f (map snd m) = sort_key f (map snd m')"
proof (rule sort_key_cong_mset)
  have "mset m = mset m'" using assms by (intro gm_mset_eqI) (simp_all add: keyed_by_def)
  then show "mset (map snd m) = mset (map snd m')" by simp
  show "inj_on f (set (map snd m))"
    using assms(1) keyed_by_values(1) [OF assms(1)] by (metis distinct_map keyed_by_def)
qed

section \<open>The store\<close>

inductive legacy_step :: "(float64 \<Rightarrow> float64 \<Rightarrow> float64) \<Rightarrow> LegacyDB \<Rightarrow> LegacyDB \<Rightarrow> bool" for nan where
  upsert: "legacy_step nan db (UpsertValidatorScore rec db)"
| event: "legacy_step nan db (ApplyValidatorEvent nan address class ev height db)"
| payout: "legacy_step nan db (RecordValidatorPayout epoch p db)"
| summary: "legacy_step nan db (SetEpochRewardSummary s db)"

text \<open>Every record is filed under the lower-case spelling of its own address.\<close>

definition legacy_ok :: "LegacyDB \<Rightarrow> bool" where
  "legacy_ok db \<longleftrightarrow>
     keyed_by (\<lambda>r. to_lower (vsr_Address r)) (validatorScores db)
     \<and> (\<forall>epoch b. map_of (epochPayouts db) epoch = Some b \<longrightarrow> keyed_by (\<lambda>r. to_lower (pr_Address r)) b)
     \<and> keyed_by ers_Epoch (epochSummaries db)"

lemma state_ApplyEvent_frame [simp]:
  "vsr_Address (state_ApplyEvent nan ev h r) = vsr_Address r"
  "vsr_StakeClass (state_ApplyEvent nan ev h r) = vsr_StakeClass r"
  by (simp_all add: state_ApplyEvent_def Let_def split: ScoreEvent.splits)

lemma event_key:
  assumes "legacy_ok db"
  shows "to_lower (vsr_Address (ensureDefaults address cls
      (case map_of (validatorScores db) (to_lower address) of None \<Rightarrow> zeroScoreRecord | Some r \<Rightarrow> r))) = to_lower address"
  using assms
  by (auto simp: legacy_ok_def keyed_by_iff ensureDefaults_def zeroScoreRecord_def Let_def split: option.splits)

lemma legacy_ok_step: "legacy_step nan db db' \<Longrightarrow> legacy_ok db \<Longrightarrow> legacy_ok db'"
proof (induction rule: legacy_step.cases)
  case (upsert db rec)
  then show ?case
    using keyed_by_update [of "\<lambda>r. to_lower (vsr_Address r)" "validatorScores db" rec]
    by (simp add: legacy_ok_def UpsertValidatorScore_def)
next
  case (event db address cls ev height)
  let ?r = "state_ApplyEvent nan ev height (ensureDefaults address cls
    (case map_of (validatorScores db) (to_lower address) of None \<Rightarrow> zeroScoreRecord | Some r \<Rightarrow> r))"
  have "to_lower (vsr_Address ?r) = to_lower address" using event event_key by simp
  then show ?case
    using event keyed_by_update [of "\<lambda>r. to_lower (vsr_Address r)" "validatorScores db" ?r]
    by (simp add: legacy_ok_def ApplyValidatorEvent_def Let_def)
next
  case (payout db epoch p)
  then show ?case
    using keyed_by_update [of "\<lambda>r. to_lower (pr_Address r)" _ p]
    by (auto simp: legacy_ok_def RecordValidatorPayout_def gomap_simps Let_def split: option.splits)
next
  case (summary db s)
  then show ?case
    using keyed_by_update [of ers_Epoch "epochSummaries db" s]
    by (simp add: legacy_ok_def SetEpochRewardSummary_def)
qed

interpretation legacy_sys: invariant_system "\<lambda>db. db = (NewDB :: LegacyDB)" "legacy_step nan" "\<lambda>db. True" legacy_ok for nan
proof unfold_locales
  show "legacy_ok db" if "db = NewDB" for db using that by (simp add: NewDB_def legacy_ok_def)
qed (simp_all add: legacy_ok_step)

text \<open>
  Fact. After any sequence of upserts, events, payouts and summaries on a new database, the listing
  of the scores has strictly increasing lower-case addresses and holds exactly the records that a lookup
  by any spelling of an address finds; the payouts of every epoch are listed in the same strict order;
  and a summary is found under its own epoch.
\<close>

theorem legacy_store_invariant:
  assumes "(legacy_step nan)\<^sup>*\<^sup>* NewDB db"
  shows "sorted_wrt (<) (map (\<lambda>r. to_lower (vsr_Address r)) (db_ListValidatorScores db))
    \<and> (GetValidatorScore addr db = Some rec \<longleftrightarrow>
        rec \<in> set (db_ListValidatorScores db) \<and> to_lower (vsr_Address rec) = to_lower addr)
    \<and> sorted_wrt (<) (map (\<lambda>r. to_lower (pr_Address r)) (EpochPayouts epoch db))
    \<and> (GetEpochRewardSummary epoch db = Some s \<longrightarrow> ers_Epoch s = epoch)"
proof -
  have ok: "legacy_ok db"
    using legacy_sys.reachable_inv assms by (auto simp: legacy_sys.reachable_def)
  then have scores: "keyed_by (\<lambda>r. to_lower (vsr_Address r)) (validatorScores db)"
    and payouts: "map_of (epochPayouts db) epoch = Some b \<Longrightarrow> keyed_by (\<lambda>r. to_lower (pr_Address r)) b"
    and summaries: "keyed_by ers_Epoch (epochSummaries db)" for b
    by (simp_all add: legacy_ok_def)
  show ?thesis
  proof (intro conjI)
    show "sorted_wrt (<) (map (\<lambda>r. to_lower (vsr_Address r)) (db_ListValidatorScores db))"
      using keyed_by_sorted [OF scores] by (simp add: db_ListValidatorScores_def)
    show "GetValidatorScore addr db = Some rec \<longleftrightarrow>
        rec \<in> set (db_ListValidatorScores db) \<and> to_lower (vsr_Address rec) = to_lower addr"
      using keyed_by_values(2) [OF scores] by (simp add: db_ListValidatorScores_def GetValidatorScore_def)
    show "sorted_wrt (<) (map (\<lambda>r. to_lower (pr_Address r)) (EpochPayouts epoch db))"
      using keyed_by_sorted [OF payouts] by (simp add: EpochPayouts_def split: option.splits)
    show "GetEpochRewardSummary epoch db = Some s \<longrightarrow> ers_Epoch s = epoch"
      using summaries by (simp add: GetEpochRewardSummary_def keyed_by_iff)
  qed
qed

theorem legacy_store_invariant_witness:
  "let db = ApplyValidatorEvent (\<lambda>_ y. y) ''VAL1'' ''G1'' ScoreEventProposalMiss 7 NewDB
   in GetValidatorScore ''val1'' db \<noteq> None \<and> the (GetValidatorScore ''val1'' db) \<in> set (db_ListValidatorScores db)"
proof -
  define db where "db = ApplyValidatorEvent (\<lambda>_ y. y) ''VAL1'' ''G1'' ScoreEventProposalMiss 7 NewDB"
  have run: "(legacy_step (\<lambda>_ y. y))\<^sup>*\<^sup>* NewDB db"
    unfolding db_def by (intro r_into_rtranclp legacy_step.event)
  have "to_lower ''val1'' = to_lower ''VAL1''" by code_simp
  then have "\<exists>r. GetValidatorScore ''val1'' db = Some r"
    by (simp add: db_def GetValidatorScore_def ApplyValidatorEvent_def NewDB_def Let_def)
  then obtain r where r: "GetValidatorScore ''val1'' db = Some r" ..
  with legacy_store_invariant [OF run, of "''val1''" r] show ?thesis by (simp add: Let_def flip: db_def)
qed

section \<open>Two sets of rules\<close>

text \<open>The event of \<open>validator.go\<close> with the meaning of an event of this package.\<close>

fun event_name :: "ScoreEvent \<Rightarrow> legacy_event" where
  "event_name ScoreEventProposalSuccess = ev_ProposalSuccess"
| "event_name ScoreEventProposalMiss = ev_ProposalMiss"
| "event_name ScoreEventBackupRefusal = ev_BackupRefusal"
| "event_name ScoreEventEpochStability = ev_EpochStability"
| "event_name (ScoreEventOther n) = []"

definition run_state :: "(float64 \<Rightarrow> float64 \<Rightarrow> float64) \<Rightarrow> ScoreEvent list \<Rightarrow> u64 \<Rightarrow> ValidatorScoreRecord \<Rightarrow> ValidatorScoreRecord" where
  "run_state nan evs h r = fold (\<lambda>e. state_ApplyEvent nan e h) evs r"

text \<open>No miss follows four misses in a row, the first \<open>c\<close> of which came before the run.\<close>

fun short_runs :: "nat \<Rightarrow> ScoreEvent list \<Rightarrow> bool" where
  "short_runs c [] = True"
| "short_runs c (ScoreEventProposalSuccess # evs) = short_runs 0 evs"
| "short_runs c (ScoreEventProposalMiss # evs) = (c < 4 \<and> short_runs (c + 1) evs)"
| "short_runs c (_ # evs) = short_runs c evs"

lemma rules_step:
  assumes "vsr_ConsensusScore r = ls_Score q" and "vsr_ConsecutiveMisses r = ls_ConsecutiveMisses q"
    and "e = ScoreEventProposalMiss \<longrightarrow> unat (ls_ConsecutiveMisses q) < 4"
  shows "vsr_ConsensusScore (state_ApplyEvent nan e h r)
      = ls_Score (ScoreRecord_ApplyEvent nan (event_name e) DefaultPenaltyConfig q)
    \<and> vsr_ConsecutiveMisses (state_ApplyEvent nan e h r)
      = ls_ConsecutiveMisses (ScoreRecord_ApplyEvent nan (event_name e) DefaultPenaltyConfig q)"
proof (cases e)
  case ScoreEventProposalMiss
  define c where "c = unat (ls_ConsecutiveMisses q)"
  then have misses: "ls_ConsecutiveMisses q = of_nat c" by simp
  have "c \<in> {0, 1, 2, 3}" using assms(3) ScoreEventProposalMiss by (auto simp: c_def)
  then show ?thesis
    using ScoreEventProposalMiss
    by (auto simp: state_ApplyEvent_def apply_event_defs assms(1,2) misses DefaultPenaltyConfig_def f_sub_def f_minus_def)
qed (simp_all add: state_ApplyEvent_def apply_event_defs assms(1,2) DefaultPenaltyConfig_def f_sub_def f_minus_def
    ev_defs)

lemma run_rules_agree:
  assumes "vsr_ConsensusScore r = ls_Score q" and "vsr_ConsecutiveMisses r = ls_ConsecutiveMisses q"
    and "short_runs (unat (ls_ConsecutiveMisses q)) evs" and "unat (ls_ConsecutiveMisses q) \<le> 4"
  shows "vsr_ConsensusScore (run_state nan evs h r) = ls_Score (run_penalty nan (map event_name evs) q)
    \<and> vsr_ConsecutiveMisses (run_state nan evs h r) = ls_ConsecutiveMisses (run_penalty nan (map event_name evs) q)"
  using assms
proof (induction evs arbitrary: r q)
  case (Cons e evs)
  let ?q = "ScoreRecord_ApplyEvent nan (event_name e) DefaultPenaltyConfig q"
  have guard: "e = ScoreEventProposalMiss \<longrightarrow> unat (ls_ConsecutiveMisses q) < 4" using Cons.prems(3) by auto
  have count: "unat (ls_ConsecutiveMisses ?q) = snd (penalty_rule (event_name e) (0, unat (ls_ConsecutiveMisses q)))"
    using Cons.prems(4) by (rule penalty_misses)
  have "short_runs (unat (ls_ConsecutiveMisses ?q)) evs"
    unfolding count using Cons.prems(3,4) guard by (cases e) (auto simp: penalty_rule_def ev_defs)
  moreover have "unat (ls_ConsecutiveMisses ?q) \<le> 4" using Cons.prems(4) by (auto simp: count penalty_rule_def)
  ultimately show ?case
    using Cons.IH [of "state_ApplyEvent nan e h r" ?q] rules_step [OF Cons.prems(1,2) guard, of nan h]
    by (simp add: run_state_def)
qed (simp add: run_state_def)

text \<open>
  Property C35. The two implementations of the penalty rules, over \<open>ScoreRecord\<close> with the default
  configuration and over \<open>ValidatorScoreRecord\<close>, compute the same score bit for bit and the same
  counter on every run of events in which no validator misses five times in a row.
\<close>

theorem rules_agree:
  assumes "vsr_ConsensusScore r = ls_Score q" and "vsr_ConsecutiveMisses r = ls_ConsecutiveMisses q"
    and "short_runs (unat (ls_ConsecutiveMisses q)) evs" and "unat (ls_ConsecutiveMisses q) \<le> 4"
  shows "vsr_ConsensusScore (run_state nan evs h r) = ls_Score (run_penalty nan (map event_name evs) q)
    \<and> vsr_ConsecutiveMisses (run_state nan evs h r) = ls_ConsecutiveMisses (run_penalty nan (map event_name evs) q)"
  using assms by (rule run_rules_agree)

theorem rules_agree_witness:
  "vsr_ConsensusScore (run_state (\<lambda>_ y. y) (replicate 4 ScoreEventProposalMiss) 9 zeroScoreRecord)
   = ls_Score (run_penalty (\<lambda>_ y. y) (replicate 4 ev_ProposalMiss) (fresh_record ''v''))"
  using rules_agree [of zeroScoreRecord "fresh_record ''v''" "replicate 4 ScoreEventProposalMiss" "\<lambda>_ y. y" 9]
  by (simp add: zeroScoreRecord_def fresh_record_def numeral_eq_Suc)

text \<open>
  Fact. From the fifth miss in a row the two rules part: \<open>validator.go\<close> charges nothing more,
  \<open>validator_events.go\<close> another hundred points for every further miss.
\<close>

theorem rules_diverge:
  "ls_Score (run_penalty nan (replicate 5 ev_ProposalMiss) (fresh_record a)) = f_half (- 205)
   \<and> vsr_ConsensusScore (run_state nan (replicate 5 ScoreEventProposalMiss) h zeroScoreRecord) = f_half (- 405)"
proof
  let ?r = "run_state nan (replicate 4 ScoreEventProposalMiss) h zeroScoreRecord"
  let ?q = "\<lambda>k. run_penalty nan (replicate k ev_ProposalMiss) (fresh_record a)"
  have exact: "(ls_Score (?q k), unat (ls_ConsecutiveMisses (?q k)))
      = map_prod f_half id (penalty_spec (replicate k ev_ProposalMiss) (0, 0))" if "k \<le> 5" for k
    using run_penalty_exact [of "fresh_record a" 0 "replicate k ev_ProposalMiss" nan] that
    by (simp add: fresh_record_def)
  show "ls_Score (?q 5) = f_half (- 205)"
    using exact [of 5] by (simp add: penalty_rule_def miss_halves_def numeral_eq_Suc)
  have q4: "ls_Score (?q 4) = f_half (- 205)" "unat (ls_ConsecutiveMisses (?q 4)) = 4"
    using exact [of 4] by (simp_all add: penalty_rule_def miss_halves_def numeral_eq_Suc)
  have "vsr_ConsensusScore ?r = ls_Score (?q 4) \<and> vsr_ConsecutiveMisses ?r = ls_ConsecutiveMisses (?q 4)"
    using run_rules_agree [of zeroScoreRecord "fresh_record a" "replicate 4 ScoreEventProposalMiss" nan h]
    by (simp add: zeroScoreRecord_def fresh_record_def numeral_eq_Suc)
  moreover have "ls_ConsecutiveMisses (?q 4) = 4" using q4(2) by (simp add: word_unat_eq_iff)
  ultimately have r: "vsr_ConsensusScore ?r = f_half (- 205)" "vsr_ConsecutiveMisses ?r = 4" using q4(1) by simp_all
  have "replicate 5 ScoreEventProposalMiss = replicate 4 ScoreEventProposalMiss @ [ScoreEventProposalMiss]"
    by (simp add: numeral_eq_Suc)
  then have "run_state nan (replicate 5 ScoreEventProposalMiss) h zeroScoreRecord
      = state_ApplyEvent nan ScoreEventProposalMiss h ?r"
    by (simp only: run_state_def fold_append) simp
  moreover have "f_minus 0x4059000000000000 = f_half (- 200)"
    using default_halves(4) by (simp add: f_minus_def DefaultPenaltyConfig_def)
  ultimately show "vsr_ConsensusScore (run_state nan (replicate 5 ScoreEventProposalMiss) h zeroScoreRecord) = f_half (- 405)"
    using f_add_half [of "- 205" "- 200" nan] by (simp add: state_ApplyEvent_def r f_sub_def)
qed

section \<open>The hash of the records\<close>

text \<open>
  Fact. The root of this package does not separate the address from the stake class: moving
  characters from the end of one to the start of the other leaves the root unchanged, for every hash.
\<close>

theorem state_root_ambiguous:
  "state_ComputeValidatorsRoot sha [r\<lparr>vsr_Address := a @ b, vsr_StakeClass := c\<rparr>]
   = state_ComputeValidatorsRoot sha [r\<lparr>vsr_Address := a, vsr_StakeClass := b @ c\<rparr>]"
  by (simp add: state_ComputeValidatorsRoot_def state_record_bytes_def to_lower_def)

definition fold_case :: "ValidatorScoreRecord \<Rightarrow> ValidatorScoreRecord" where
  "fold_case r = r\<lparr>vsr_Address := to_lower (vsr_Address r), vsr_StakeClass := to_lower (vsr_StakeClass r)\<rparr>"

definition state_root_input :: "ValidatorScoreRecord list \<Rightarrow> bytes" where
  "state_root_input records = concat (map state_record_bytes (sort_key (\<lambda>r. to_lower (vsr_Address r)) records))"

lemma be_bytes_u64 [simp]: "be_bytes 8 (unat (a :: u64)) = be_bytes 8 (unat b) \<longleftrightarrow> a = b"
  using be_bytes_inject [of "unat a" 8 "unat b"] by (simp add: u64_eq_iff)

lemma be_bytes_u32 [simp]: "be_bytes 4 (unat (a :: u32)) = be_bytes 4 (unat b) \<longleftrightarrow> a = b"
  using be_bytes_inject [of "unat a" 4 "unat b"] unsigned_less [of a] unsigned_less [of b]
  by (simp add: word_unat_eq_iff)

lemma length_to_lower [simp]: "length (to_lower s) = length s"
  by (simp add: to_lower_def)

lemma length_state_record_bytes:
  "length (state_record_bytes r) = length (vsr_Address r) + length (vsr_StakeClass r) + 37"
  by (simp add: state_record_bytes_def)

lemma state_record_bytes_inject:
  assumes "state_record_bytes r = state_record_bytes q" and "length (vsr_Address r) = length (vsr_Address q)"
    and "length (vsr_StakeClass r) = length (vsr_StakeClass q)"
  shows "fold_case r = fold_case q"
  using assms by (cases r; cases q) (simp add: fold_case_def state_record_bytes_def split: if_splits)

lemma concat_chunks_inject:
  assumes "concat xs = concat ys" and "\<forall>x \<in> set xs \<union> set ys. length x = L" and "0 < L"
  shows "xs = ys"
proof -
  have len: "length (concat zs) = L * length zs" if "\<forall>x \<in> set zs. length x = L" for zs :: "'a list list"
    using that by (induction zs) simp_all
  have "length xs = length ys" using len [of xs] len [of ys] assms by simp
  moreover have "\<forall>(x, y) \<in> set (zip xs ys). length x = length y"
  proof clarify
    fix x y
    assume "(x, y) \<in> set (zip xs ys)"
    then have "x \<in> set xs" "y \<in> set ys" by (rule set_zip_leftD, rule set_zip_rightD)
    with assms(2) show "length x = length y" by simp
  qed
  ultimately show ?thesis using concat_eq_concat_iff assms(1) by blast
qed

text \<open>
  Fact. Where all addresses have one length and all stake classes another, the root does bind the
  records, of any number, up to their order and case.
\<close>

theorem state_root_binding:
  assumes "\<forall>r \<in> set records \<union> set records'. length (vsr_Address r) = n \<and> length (vsr_StakeClass r) = m"
    and "inj_on sha {state_root_input records, state_root_input records'}"
    and "state_ComputeValidatorsRoot sha records = state_ComputeValidatorsRoot sha records'"
  shows "image_mset fold_case (mset records) = image_mset fold_case (mset records')"
proof -
  let ?s = "sort_key (\<lambda>r. to_lower (vsr_Address r))"
  have "sha (state_root_input records) = sha (state_root_input records')"
    using assms(3) by (simp add: state_ComputeValidatorsRoot_def state_root_input_def)
  then have "state_root_input records = state_root_input records'" by (rule inj_onD [OF assms(2)]) simp_all
  then have "map state_record_bytes (?s records) = map state_record_bytes (?s records')"
    unfolding state_root_input_def
    by (rule concat_chunks_inject [where L = "n + m + 37"]) (use assms(1) in \<open>auto simp: length_state_record_bytes\<close>)
  then have "map fold_case (?s records) = map fold_case (?s records')"
    by (rule map_eq_weaken) (use assms(1) in \<open>auto intro!: state_record_bytes_inject\<close>)
  from arg_cong [OF this, of mset] show ?thesis by simp
qed

theorem state_root_binding_witness:
  "image_mset fold_case {#zeroScoreRecord\<lparr>vsr_Address := ''V1''\<rparr>#} = image_mset fold_case {#zeroScoreRecord\<lparr>vsr_Address := ''v1''\<rparr>#}"
proof -
  let ?r = "\<lambda>a. zeroScoreRecord\<lparr>vsr_Address := a\<rparr>"
  have "to_lower ''V1'' = to_lower ''v1''" by code_simp
  then have "state_root_input [?r ''V1''] = state_root_input [?r ''v1'']"
    by (simp add: state_root_input_def state_record_bytes_def)
  then show ?thesis
    using state_root_binding [of "[?r ''V1'']" "[?r ''v1'']" 2 0 toy_hash]
    by (simp add: state_ComputeValidatorsRoot_def state_root_input_def zeroScoreRecord_def)
qed

section \<open>Weights\<close>

text \<open>Rounding a scaled half: both sides of \<open>math.Round\<close>, with and without a fractional part.\<close>

lemma fround_half:
  assumes "m * 2 ^ k = N * 2 ^ 1073"
  shows "fround (Fin m (int k - 1074)) = Some ((N + 1) div 2)"
proof (cases "k < 1074")
  case True
  define j where "j = 1074 - k"
  have "k + j = 1074" using True by (simp add: j_def)
  then have "N * 2 ^ j * 2 ^ k = N * 2 ^ 1074" by (simp only: mult.assoc power_add [symmetric] add.commute)
  also have "\<dots> = 2 * (N * 2 ^ 1073)" by simp
  also have "\<dots> = 2 * m * 2 ^ k" by (simp only: assms [symmetric] mult.assoc)
  finally have "2 * m = N * 2 ^ j" by simp
  moreover have "(N * 2 ^ j + 2 ^ j) div 2 ^ (j + 1) = (N + 1) div 2"
    using div_mult2_eq [of "(N + 1) * 2 ^ j" "2 ^ j" 2] by (simp add: algebra_simps)
  moreover have "nat (1074 - int k) = j" "int k - 1074 < 0" using True by (simp_all add: j_def)
  ultimately show ?thesis by simp
next
  case False
  then obtain i where k: "k = 1073 + (1 + i)" using le_Suc_ex [of 1074 k] by auto
  have "m * 2 ^ (1 + i) * 2 ^ 1073 = N * 2 ^ 1073"
    unfolding assms [symmetric] k by (simp only: mult.assoc power_add [symmetric] add.commute)
  then have "N = 2 * (m * 2 ^ i)" by simp
  with k show ?thesis by (simp add: nat_diff_distrib')
qed

lemma f_round_half:
  assumes "0 < n" and "n < 2 ^ 53"
  shows "f_positive (f_half n)" and "f_round_u64 oob (f_half n) = of_int ((n + 1) div 2)"
proof -
  have n: "n \<noteq> 0" "\<bar>n\<bar> < 2 ^ 53" using assms by simp_all
  note fin = f_finite_not [OF f_half_fields(3) [OF n]] and mant = f_half_fields(2) [OF n]
  have "f_mant (f_half n) \<noteq> 0" using mant assms(1) by (cases "f_mant (f_half n) = 0") simp_all
  then show "f_positive (f_half n)" using fin f_half_fields(1) [OF n] assms(1) by (simp add: f_positive_def)
  define q where "q = (nat \<bar>n\<bar> + 1) div 2"
  have q: "int q = (n + 1) div 2" using assms(1) by (simp add: q_def zdiv_int)
  have "(n + 1) div 2 < 2 ^ 53" using assms by simp
  then have "q < 2 ^ 64" unfolding q [symmetric] by simp
  then show "f_round_u64 oob (f_half n) = of_int ((n + 1) div 2)"
    using fin fround_half [OF mant, folded q_def] by (simp add: f_round_u64_def to_u64_def del: fround.simps flip: q)
qed

lemma f_half_not_positive: "n \<le> 0 \<Longrightarrow> \<bar>n\<bar> < 2 ^ 53 \<Longrightarrow> \<not> f_positive (f_half n)"
  by (cases "n = 0") (simp_all add: f_positive_def f_half_fields(1))

text \<open>
  Fact. The weight of a record whose scores are whole halves below \<open>2^53\<close>: the base of its class
  plus each positive score rounded half up, times the pool factor where it applies; a negative
  score never lowers the weight.
\<close>

theorem Weight_halves:
  assumes "vsr_ConsensusScore r = f_half a" "vsr_Participation r = f_half b" and "\<bar>a\<bar> < 2 ^ 53" "\<bar>b\<bar> < 2 ^ 53"
  shows "Weight oob base pool r =
    ((case map_of base (to_lower (vsr_StakeClass r)) of None \<Rightarrow> 0 | Some w \<Rightarrow> w)
       + of_int ((max 0 a + 1) div 2) + of_int ((max 0 b + 1) div 2))
    * (if vsr_PoolNode r \<and> 1 < pool then pool else 1)"
proof -
  have score: "(if f_positive (f_half n) then w + f_round_u64 oob (f_half n) else w)
      = w + of_int ((max 0 n + 1) div 2)" if "\<bar>n\<bar> < 2 ^ 53" for n and w :: u64
    using f_round_half(1) [of n] f_round_half(2) [of n oob] f_half_not_positive [of n] that by (cases "0 < n") (auto simp: max_def)
  show ?thesis unfolding Weight_def assms(1,2) Let_def score [OF assms(3)] score [OF assms(4)] by simp
qed

theorem Weight_halves_witness:
  "Weight 0 [(''g1'', 100)] 2 (zeroScoreRecord\<lparr>vsr_StakeClass := ''G1'', vsr_ConsensusScore := f_half (- 5),
     vsr_Participation := f_half 5, vsr_PoolNode := True\<rparr>) = 206"
proof -
  have "to_lower ''G1'' = ''g1''" by code_simp
  then show ?thesis
    using Weight_halves [of "zeroScoreRecord\<lparr>vsr_StakeClass := ''G1'', vsr_ConsensusScore := f_half (- 5),
      vsr_Participation := f_half 5, vsr_PoolNode := True\<rparr>" "- 5" 5 0 "[(''g1'', 100)]" 2] by simp
qed

end
