(* ===== verification/Legacy_Apply.thy ===== *)
theory Legacy_Apply
  imports Legacy_Score
begin

text \<open>
  \<open>internal/rewards/apply.go\<close>, behind the tag \<open>legacy_penalty\<close>: \<open>Apply\<close> computes the rewards of
  an epoch and writes them through the interface \<open>RewardState\<close>. The interface is a record of its
  four operations over an arbitrary state; what its documentation calls the storage contract is the
  locale \<open>reward_state\<close>, and the adapter of \<open>internal/state/rewards\<close> with the records of this
  build is an instance of it.
\<close>

section \<open>apply.go\<close>

record 's RewardState =
  rs_ListValidatorScores :: "'s \<Rightarrow> LegacyScoreRecord list result"
  rs_PutValidatorScore :: "LegacyScoreRecord \<Rightarrow> 's \<Rightarrow> unit result \<times> 's"
  rs_PersistValidatorPayout :: "u64 \<Rightarrow> ValidatorPayout \<Rightarrow> 's \<Rightarrow> unit result \<times> 's"
  rs_PersistEpochSummary :: "EpochRewardSummary \<Rightarrow> 's \<Rightarrow> unit result \<times> 's"

definition validator_input :: "LegacyScoreRecord \<Rightarrow> ValidatorScore" where
  "validator_input rec =
     \<lparr>vs_Address = ls_Address rec, vs_StakeClass = ls_StakeClass rec, vs_ConsensusScore = ls_ConsensusScore rec,
      vs_Participation = ls_Participation rec, vs_PoolNode = ls_PoolNode rec\<rparr>"

fun persist_payouts :: "'s RewardState \<Rightarrow> u64 \<Rightarrow> ValidatorPayout list \<Rightarrow> 's \<Rightarrow> unit result \<times> 's" where
  "persist_payouts st epoch [] s = (Inr (), s)"
| "persist_payouts st epoch (payout # ps) s =
     (case rs_PersistValidatorPayout st epoch payout s of
        (Inl e, s) \<Rightarrow> (Inl (''persist payout for '' @ vp_Address payout @ '': '' @ e), s)
      | (Inr _, s) \<Rightarrow> persist_payouts st epoch ps s)"

fun update_scores :: "'s RewardState \<Rightarrow> u64 \<Rightarrow> u64 \<Rightarrow> LegacyScoreRecord list \<Rightarrow> 's \<Rightarrow> unit result \<times> 's" where
  "update_scores st epoch height [] s = (Inr (), s)"
| "update_scores st epoch height (rec # recs) s =
     (let updated = ResetForEpoch epoch height (ScoreRecord_Clone rec)
      in case rs_PutValidatorScore st updated s of
        (Inl e, s) \<Rightarrow> (Inl (''update validator score '' @ ls_Address rec @ '': '' @ e), s)
      | (Inr _, s) \<Rightarrow> update_scores st epoch height recs s)"

definition Apply ::
  "u64 \<Rightarrow> RewardEngine option \<Rightarrow> u64 \<Rightarrow> 's RewardState option \<Rightarrow> 's
   \<Rightarrow> (RewardBucket \<times> ValidatorPayout list \<times> EpochRewardSummary) result \<times> 's" where
  "Apply oob eng height state s =
     (case eng of
        None \<Rightarrow> (Inl ''reward engine not initialized'', s)
      | Some eng \<Rightarrow>
      (case state of
        None \<Rightarrow> (Inl ''reward state not provided'', s)
      | Some st \<Rightarrow>
      (case rs_ListValidatorScores st s of
        Inl e \<Rightarrow> (Inl (''list validator scores: '' @ e), s)
      | Inr scores \<Rightarrow>
        (let validatorInputs = map validator_input scores;
             (bucket, payouts, summary) = Compute oob eng height validatorInputs
         in case rs_PersistEpochSummary st summary s of
              (Inl e, s) \<Rightarrow> (Inl (''persist epoch summary: '' @ e), s)
            | (Inr _, s) \<Rightarrow>
            (case persist_payouts st (es_Epoch summary) payouts s of
              (Inl e, s) \<Rightarrow> (Inl e, s)
            | (Inr _, s) \<Rightarrow>
            (case update_scores st (es_Epoch summary) height scores s of
              (Inl e, s) \<Rightarrow> (Inl e, s)
            | (Inr _, s) \<Rightarrow> (Inr (bucket, payouts, summary), s)))))))"

section \<open>adapter.go with the records of this build\<close>

text \<open>
  \<open>json.Marshal\<close> of a record: it refuses a score that is not finite, and writes a finite one as
  the text \<open>fmt\<close> that \<open>strconv\<close> gives it.
\<close>

definition dec_int :: "int \<Rightarrow> string" where
  "dec_int n = (if n < 0 then ''-'' @ dec_nat (nat (- n)) else dec_nat (nat n))"

definition json_bool :: "bool \<Rightarrow> string" where
  "json_bool b = (if b then ''true'' else ''false'')"

definition legacy_score_json :: "(float64 \<Rightarrow> string) \<Rightarrow> LegacyScoreRecord \<Rightarrow> bytes result" where
  "legacy_score_json fmt r =
     (if \<not> f_finite (ls_Score r) then Inl ''json: unsupported value''
      else Inr (bytes_of
        (''{'' @ json_key ''Address'' @ json_string (ls_Address r)
         @ '','' @ json_key ''StakeClass'' @ dec_nat (unat (class_code (ls_StakeClass r)))
         @ '','' @ json_key ''ConsensusScore'' @ dec_int (sint (ls_ConsensusScore r))
         @ '','' @ json_key ''Participation'' @ dec_int (sint (ls_Participation r))
         @ '','' @ json_key ''PoolNode'' @ json_bool (ls_PoolNode r)
         @ '','' @ json_key ''LastUpdatedHeight'' @ dec_nat (unat (ls_LastUpdatedHeight r))
         @ '','' @ json_key ''LastRewardedEpoch'' @ dec_nat (unat (ls_LastRewardedEpoch r))
         @ '','' @ json_key ''Score'' @ fmt (ls_Score r)
         @ '','' @ json_key ''ConsecutiveMisses'' @ dec_nat (unat (ls_ConsecutiveMisses r))
         @ '','' @ json_key ''TotalMisses'' @ dec_nat (unat (ls_TotalMisses r))
         @ '','' @ json_key ''Jailed'' @ json_bool (ls_Jailed r) @ ''}'')))"

definition legacy_PutValidatorScore ::
  "(float64 \<Rightarrow> string) \<Rightarrow> LegacyScoreRecord \<Rightarrow> Adapter \<Rightarrow> unit result \<times> Adapter" where
  "legacy_PutValidatorScore fmt rec a =
     (if ls_Address rec = [] then (Inl ''validator score requires address'', a)
      else case legacy_score_json fmt rec of
        Inl e \<Rightarrow> (Inl (''encode validator score '' @ ls_Address rec @ '': '' @ e), a)
      | Inr payload \<Rightarrow> (case ValidatorScoreKey (ls_Address rec) of
          Inl e \<Rightarrow> (Inl e, a)
        | Inr key \<Rightarrow> (Inr (), a\<lparr>ad_db := SetKey key payload (ad_db a)\<rparr>)))"

definition adapter_state ::
  "(bytes \<Rightarrow> LegacyScoreRecord option) \<Rightarrow> (float64 \<Rightarrow> string) \<Rightarrow> Adapter RewardState" where
  "adapter_state unm fmt =
     \<lparr>rs_ListValidatorScores = ListValidatorScores unm, rs_PutValidatorScore = legacy_PutValidatorScore fmt,
      rs_PersistValidatorPayout = PersistValidatorPayout, rs_PersistEpochSummary = PersistEpochSummary\<rparr>"

section \<open>The storage contract\<close>

text \<open>
  A score, a payout or a summary is kept under a key of its own; a write is refused without any
  effect or replaces the value under its key; and a summary is never refused and moves the
  treasury, which nothing else touches.
\<close>

locale reward_state =
  fixes st :: "'s RewardState" and view :: "'s \<Rightarrow> 'k \<Rightarrow> 'v option"
    and skey :: "LegacyScoreRecord \<Rightarrow> 'k" and sval :: "LegacyScoreRecord \<Rightarrow> 'v"
    and pkey :: "u64 \<Rightarrow> ValidatorPayout \<Rightarrow> 'k" and pval :: "ValidatorPayout \<Rightarrow> 'v"
    and ekey :: "u64 \<Rightarrow> 'k" and eval :: "EpochRewardSummary \<Rightarrow> 'v"
    and sok :: "LegacyScoreRecord \<Rightarrow> bool" and pok :: "ValidatorPayout \<Rightarrow> bool"
    and treasury :: "'s \<Rightarrow> 't" and pay_in :: "EpochRewardSummary \<Rightarrow> 't \<Rightarrow> 't"
  assumes put_ok: "sok r \<Longrightarrow> \<exists>s'. rs_PutValidatorScore st r s = (Inr (), s')
      \<and> view s' = (view s)(skey r \<mapsto> sval r) \<and> treasury s' = treasury s"
    and put_bad: "\<not> sok r \<Longrightarrow> \<exists>e. rs_PutValidatorScore st r s = (Inl e, s)"
    and payout_ok: "pok p \<Longrightarrow> \<exists>s'. rs_PersistValidatorPayout st n p s = (Inr (), s')
      \<and> view s' = (view s)(pkey n p \<mapsto> pval p) \<and> treasury s' = treasury s"
    and payout_bad: "\<not> pok p \<Longrightarrow> \<exists>e. rs_PersistValidatorPayout st n p s = (Inl e, s)"
    and summary_ok: "\<exists>s'. rs_PersistEpochSummary st x s = (Inr (), s')
      \<and> view s' = (view s)(ekey (es_Epoch x) \<mapsto> eval x) \<and> treasury s' = pay_in x (treasury s)"
    and skey_pkey: "skey r \<noteq> pkey n p" and skey_ekey: "skey r \<noteq> ekey n" and pkey_ekey: "pkey n p \<noteq> ekey m"
    and reset_key: "skey (ResetForEpoch n h r) = skey r" and reset_ok: "sok (ResetForEpoch n h r) = sok r"
begin

text \<open>The writes of a list of keyed values, the last one under a key counting.\<close>

definition writes :: "('k \<times> 'v) list \<Rightarrow> ('k \<Rightarrow> 'v option) \<Rightarrow> 'k \<Rightarrow> 'v option" where
  "writes kvs m = fold (\<lambda>(k, v) m. m(k \<mapsto> v)) kvs m"

lemma writes_simps [simp]: "writes [] m = m" "writes ((k, v) # kvs) m = writes kvs (m(k \<mapsto> v))"
  by (simp_all add: writes_def)

lemma writes_other: "k \<notin> fst ` set kvs \<Longrightarrow> writes kvs m k = m k"
  by (induction kvs arbitrary: m) auto

lemma writes_distinct: "distinct (map fst kvs) \<Longrightarrow> (k, v) \<in> set kvs \<Longrightarrow> writes kvs m k = Some v"
proof (induction kvs arbitrary: m)
  case (Cons kv kvs)
  then show ?case
    using writes_other [of k kvs] by (cases kv) force
qed simp

lemma payouts_written:
  assumes "\<forall>p \<in> set ps. pok p"
  shows "\<exists>s'. persist_payouts st n ps s = (Inr (), s') \<and> treasury s' = treasury s
    \<and> view s' = writes (map (\<lambda>p. (pkey n p, pval p)) ps) (view s)"
  using assms
proof (induction ps arbitrary: s)
  case (Cons p ps)
  with payout_ok [of p n s] obtain s1 where s1: "rs_PersistValidatorPayout st n p s = (Inr (), s1)"
    "view s1 = (view s)(pkey n p \<mapsto> pval p)" "treasury s1 = treasury s" by auto
  from Cons.IH [of s1] Cons.prems s1 show ?case by (auto simp: fun_upd_def)
qed simp

lemma scores_written:
  assumes "\<forall>r \<in> set recs. sok r"
  shows "\<exists>s'. update_scores st n h recs s = (Inr (), s') \<and> treasury s' = treasury s
    \<and> view s' = writes (map (\<lambda>r. (skey r, sval (ResetForEpoch n h r))) recs) (view s)"
  using assms
proof (induction recs arbitrary: s)
  case (Cons r recs)
  with put_ok [of "ResetForEpoch n h r" s] obtain s1 where s1: "rs_PutValidatorScore st (ResetForEpoch n h r) s = (Inr (), s1)"
    "view s1 = (view s)(skey r \<mapsto> sval (ResetForEpoch n h r))" "treasury s1 = treasury s"
    by (auto simp: reset_key reset_ok)
  from Cons.IH [of s1] Cons.prems s1 show ?case by (auto simp: fun_upd_def)
qed simp

text \<open>Whatever the outcome, neither loop touches the summary or the treasury.\<close>

lemma payouts_frame: "view (snd (persist_payouts st n ps s)) (ekey m) = view s (ekey m)
    \<and> treasury (snd (persist_payouts st n ps s)) = treasury s"
proof (induction ps arbitrary: s)
  case (Cons p ps)
  show ?case
  proof (cases "pok p")
    case True
    with payout_ok [of p n s] Cons pkey_ekey [of n p m] show ?thesis by auto
  next
    case False
    with payout_bad [of p n s] show ?thesis by auto
  qed
qed simp

lemma scores_frame: "view (snd (update_scores st n h recs s)) (ekey m) = view s (ekey m)
    \<and> treasury (snd (update_scores st n h recs s)) = treasury s"
proof (induction recs arbitrary: s)
  case (Cons r recs)
  show ?case
  proof (cases "sok r")
    case True
    with put_ok [of "ResetForEpoch n h r" s] Cons skey_ekey [of r m] show ?thesis
      by (auto simp: reset_key reset_ok)
  next
    case False
    with put_bad [of "ResetForEpoch n h r" s] show ?thesis by (auto simp: reset_ok)
  qed
qed simp

lemma scores_refused:
  assumes "r \<in> set recs" and "\<not> sok r"
  shows "\<exists>e. fst (update_scores st n h recs s) = Inl e"
  using assms
proof (induction recs arbitrary: s)
  case (Cons q recs)
  show ?case
  proof (cases "sok q")
    case True
    with put_ok [of "ResetForEpoch n h q" s] Cons show ?thesis by (auto simp: reset_ok)
  next
    case False
    with put_bad [of "ResetForEpoch n h q" s] show ?thesis by (auto simp: reset_ok)
  qed
qed simp

lemma Apply_listed:
  assumes "rs_ListValidatorScores st s = Inr scores"
    and "Compute oob eng height (map validator_input scores) = (bucket, payouts, summary)"
  obtains s1 where "view s1 = (view s)(ekey (es_Epoch summary) \<mapsto> eval summary)"
    and "treasury s1 = pay_in summary (treasury s)"
    and "Apply oob (Some eng) height (Some st) s =
      (case persist_payouts st (es_Epoch summary) payouts s1 of
        (Inl e, s) \<Rightarrow> (Inl e, s)
      | (Inr _, s) \<Rightarrow> (case update_scores st (es_Epoch summary) height scores s of
          (Inl e, s) \<Rightarrow> (Inl e, s)
        | (Inr _, s) \<Rightarrow> (Inr (bucket, payouts, summary), s)))"
  using summary_ok [of summary s] assms by (auto simp: Apply_def intro: that)

text \<open>An accepted epoch is written completely.\<close>

lemma Apply_written:
  assumes "rs_ListValidatorScores st s = Inr scores"
    and "Compute oob eng height (map validator_input scores) = (bucket, payouts, summary)"
    and "\<forall>p \<in> set payouts. pok p" and "\<forall>r \<in> set scores. sok r"
    and "distinct (map (pkey (es_Epoch summary)) payouts)" and "distinct (map skey scores)"
  shows "\<exists>s'. Apply oob (Some eng) height (Some st) s = (Inr (bucket, payouts, summary), s')
    \<and> view s' (ekey (es_Epoch summary)) = Some (eval summary)
    \<and> (\<forall>p \<in> set payouts. view s' (pkey (es_Epoch summary) p) = Some (pval p))
    \<and> (\<forall>r \<in> set scores. view s' (skey r) = Some (sval (ResetForEpoch (es_Epoch summary) height r)))
    \<and> treasury s' = pay_in summary (treasury s)"
proof -
  let ?n = "es_Epoch summary"
  from Apply_listed [OF assms(1,2)] obtain s1 where s1: "view s1 = (view s)(ekey ?n \<mapsto> eval summary)"
    "treasury s1 = pay_in summary (treasury s)"
    and run: "Apply oob (Some eng) height (Some st) s =
      (case persist_payouts st ?n payouts s1 of
        (Inl e, s) \<Rightarrow> (Inl e, s)
      | (Inr _, s) \<Rightarrow> (case update_scores st ?n height scores s of
          (Inl e, s) \<Rightarrow> (Inl e, s)
        | (Inr _, s) \<Rightarrow> (Inr (bucket, payouts, summary), s)))" .
  let ?ps = "map (\<lambda>p. (pkey ?n p, pval p)) payouts"
    and ?rs = "map (\<lambda>r. (skey r, sval (ResetForEpoch ?n height r))) scores"
  from payouts_written [OF assms(3)] obtain s2 where s2: "persist_payouts st ?n payouts s1 = (Inr (), s2)"
    "treasury s2 = treasury s1" "view s2 = writes ?ps (view s1)" by blast
  from scores_written [OF assms(4)] obtain s3 where s3: "update_scores st ?n height scores s2 = (Inr (), s3)"
    "treasury s3 = treasury s2" "view s3 = writes ?rs (view s2)" by blast
  have score: "view s3 (skey r) = Some (sval (ResetForEpoch ?n height r))" if "r \<in> set scores" for r
    unfolding s3(3) using that assms(6) by (intro writes_distinct) (auto simp: comp_def)
  have payout: "view s3 (pkey ?n p) = Some (pval p)" if "p \<in> set payouts" for p
  proof -
    have "view s3 (pkey ?n p) = view s2 (pkey ?n p)"
      unfolding s3(3) by (rule writes_other) (auto simp: skey_pkey [symmetric])
    also have "\<dots> = Some (pval p)"
      unfolding s2(3) using that assms(5) by (intro writes_distinct) (auto simp: comp_def)
    finally show ?thesis .
  qed
  have "view s3 (ekey ?n) = Some (eval summary)"
    using scores_frame [of ?n height scores s2 ?n] payouts_frame [of ?n payouts s1 ?n] s1(1) s2(1) s3(1) by simp
  with score payout run s1(2) s2(1,2) s3(1,2) show ?thesis by auto
qed

text \<open>Whatever happens after the listing, the summary is stored and the treasury is paid.\<close>

lemma Apply_always:
  assumes "rs_ListValidatorScores st s = Inr scores"
    and "Compute oob eng height (map validator_input scores) = (bucket, payouts, summary)"
  shows "treasury (snd (Apply oob (Some eng) height (Some st) s)) = pay_in summary (treasury s)"
    and "view (snd (Apply oob (Some eng) height (Some st) s)) (ekey (es_Epoch summary)) = Some (eval summary)"
    and "r \<in> set scores \<Longrightarrow> \<not> sok r \<Longrightarrow> \<exists>e. fst (Apply oob (Some eng) height (Some st) s) = Inl e"
proof -
  let ?n = "es_Epoch summary"
  from Apply_listed [OF assms] obtain s1 where s1: "view s1 = (view s)(ekey ?n \<mapsto> eval summary)"
    "treasury s1 = pay_in summary (treasury s)"
    and run: "Apply oob (Some eng) height (Some st) s =
      (case persist_payouts st ?n payouts s1 of
        (Inl e, s) \<Rightarrow> (Inl e, s)
      | (Inr _, s) \<Rightarrow> (case update_scores st ?n height scores s of
          (Inl e, s) \<Rightarrow> (Inl e, s)
        | (Inr _, s) \<Rightarrow> (Inr (bucket, payouts, summary), s)))" .
  obtain u s2 where s2: "persist_payouts st ?n payouts s1 = (u, s2)" by fastforce
  obtain w s3 where s3: "update_scores st ?n height scores s2 = (w, s3)" by fastforce
  note frame = payouts_frame [of ?n payouts s1 ?n, unfolded s2] scores_frame [of ?n height scores s2 ?n, unfolded s3]
  show "treasury (snd (Apply oob (Some eng) height (Some st) s)) = pay_in summary (treasury s)"
    using frame s1 by (simp add: run s2 s3 split: sum.splits)
  show "view (snd (Apply oob (Some eng) height (Some st) s)) (ekey ?n) = Some (eval summary)"
    using frame s1 by (simp add: run s2 s3 split: sum.splits)
  show "\<exists>e. fst (Apply oob (Some eng) height (Some st) s) = Inl e" if "r \<in> set scores" "\<not> sok r"
    using scores_refused [OF that, of ?n height s2] by (auto simp: run s2 s3 split: sum.splits)
qed

end

section \<open>The adapter keeps the contract\<close>

definition score_key :: "string \<Rightarrow> string" where
  "score_key addr = validatorScorePrefix @ ''/'' @ normalize addr @ ''/score''"

definition payout_key :: "u64 \<Rightarrow> string \<Rightarrow> string" where
  "payout_key epoch addr = validatorRewardPrefix @ ''/'' @ epochKey epoch @ ''/v/'' @ normalize addr"

definition add_account :: "string \<Rightarrow> u64 \<Rightarrow> (string, Account) gomap \<Rightarrow> (string, Account) gomap" where
  "add_account addr amount m = accts (AddBalance addr amount (NewDB\<lparr>accts := m\<rparr>))"

fun pay_treasury ::
  "EpochRewardSummary \<Rightarrow> (string, Account) gomap \<times> string \<times> string \<Rightarrow> (string, Account) gomap \<times> string \<times> string" where
  "pay_treasury x (m, f, e) =
     (let m = (if f \<noteq> [] then add_account f (es_FoundationShare x) m else m);
          m = (if e \<noteq> [] then add_account e (es_ExchangeShare x) m else m)
      in (m, f, e))"

lemma accts_AddBalance: "accts (AddBalance addr amount db) = add_account addr amount (accts db)"
  by (simp add: add_account_def AddBalance_def credit_def db_get_def put_account_def Let_def split: option.splits)

lemma accts_SetKey [simp]: "accts (SetKey k v db) = accts db"
  by (simp add: SetKey_def)

lemma length_epochKey: "length (epochKey n) = 22"
  by (simp add: epochKey_def)

lemma keys_distinct:
  "score_key a \<noteq> payout_key n b" "score_key a \<noteq> EpochSummaryKey n" "payout_key n b \<noteq> EpochSummaryKey m"
proof -
  show "payout_key n b \<noteq> EpochSummaryKey m"
    using length_epochKey [of n] length_epochKey [of m] by (simp add: payout_key_def EpochSummaryKey_def)
qed (simp_all add: score_key_def payout_key_def EpochSummaryKey_def validatorScorePrefix_def validatorRewardPrefix_def)

lemma score_key_inject: "score_key a = score_key b \<longleftrightarrow> normalize a = normalize b"
  by (simp add: score_key_def)

lemma payout_key_inject: "payout_key n a = payout_key n b \<longleftrightarrow> normalize a = normalize b"
  by (simp add: payout_key_def)

definition score_blob :: "(float64 \<Rightarrow> string) \<Rightarrow> LegacyScoreRecord \<Rightarrow> bytes" where
  "score_blob fmt r = (case legacy_score_json fmt r of Inl e \<Rightarrow> [] | Inr b \<Rightarrow> b)"

interpretation adapter: reward_state "adapter_state unm fmt" "\<lambda>a k. GetKey k (ad_db a)"
  "\<lambda>r. score_key (ls_Address r)" "score_blob fmt" "\<lambda>n p. payout_key n (vp_Address p)" "\<lambda>p. payout_json (vp_Amount p)"
  EpochSummaryKey summary_json "\<lambda>r. ls_Address r \<noteq> [] \<and> f_finite (ls_Score r)" "\<lambda>p. vp_Address p \<noteq> []"
  "\<lambda>a. (accts (ad_db a), ad_foundationAddr a, ad_exchangeAddr a)" pay_treasury for unm fmt
proof unfold_locales
  fix r :: LegacyScoreRecord and s
  assume ok: "ls_Address r \<noteq> [] \<and> f_finite (ls_Score r)"
  show "\<exists>s'. rs_PutValidatorScore (adapter_state unm fmt) r s = (Inr (), s')
      \<and> (\<lambda>k. GetKey k (ad_db s')) = (\<lambda>k. GetKey k (ad_db s))(score_key (ls_Address r) \<mapsto> score_blob fmt r)
      \<and> (accts (ad_db s'), ad_foundationAddr s', ad_exchangeAddr s') = (accts (ad_db s), ad_foundationAddr s, ad_exchangeAddr s)"
    using ok by (simp add: adapter_state_def legacy_PutValidatorScore_def ValidatorScoreKey_def score_key_def
        score_blob_def legacy_score_json_def kvs.lookup_put)
next
  fix r :: LegacyScoreRecord and s
  assume "\<not> (ls_Address r \<noteq> [] \<and> f_finite (ls_Score r))"
  then show "\<exists>e. rs_PutValidatorScore (adapter_state unm fmt) r s = (Inl e, s)"
    by (auto simp: adapter_state_def legacy_PutValidatorScore_def legacy_score_json_def)
next
  fix p :: ValidatorPayout and n s
  assume "vp_Address p \<noteq> []"
  then show "\<exists>s'. rs_PersistValidatorPayout (adapter_state unm fmt) n p s = (Inr (), s')
      \<and> (\<lambda>k. GetKey k (ad_db s')) = (\<lambda>k. GetKey k (ad_db s))(payout_key n (vp_Address p) \<mapsto> payout_json (vp_Amount p))
      \<and> (accts (ad_db s'), ad_foundationAddr s', ad_exchangeAddr s') = (accts (ad_db s), ad_foundationAddr s, ad_exchangeAddr s)"
    by (simp add: adapter_state_def PersistValidatorPayout_def ValidatorPayoutKey_def payout_key_def kvs.lookup_put)
next
  fix x s
  show "\<exists>s'. rs_PersistEpochSummary (adapter_state unm fmt) x s = (Inr (), s')
      \<and> (\<lambda>k. GetKey k (ad_db s')) = (\<lambda>k. GetKey k (ad_db s))(EpochSummaryKey (es_Epoch x) \<mapsto> summary_json x)
      \<and> (accts (ad_db s'), ad_foundationAddr s', ad_exchangeAddr s')
        = pay_treasury x (accts (ad_db s), ad_foundationAddr s, ad_exchangeAddr s)"
    by (simp add: adapter_state_def PersistEpochSummary_def accts_AddBalance kvs.lookup_put Let_def)
qed (auto simp: adapter_state_def PersistValidatorPayout_def ResetForEpoch_def keys_distinct)

section \<open>An epoch on the adapter\<close>

text \<open>Payouts go to addresses of the inputs, each input at most once.\<close>

lemma payout_loop_addresses:
  "payout_loop share W ws r = (ps, r') \<Longrightarrow> map vp_Address ps = map fst (filter (\<lambda>p. snd p \<noteq> 0) ws)"
proof (induction ws arbitrary: r ps)
  case (Cons aw ws)
  then show ?case by (cases aw) (auto simp: Let_def split: if_splits prod.splits)
qed simp

lemma remainder_loop_addresses: "map vp_Address (remainder_loop r ps) = map vp_Address ps"
  by (induction r ps rule: remainder_loop.induct) auto

lemma Compute_addresses:
  assumes "Compute oob eng height vs = (bucket, payouts, summary)"
  shows "\<exists>P. map vp_Address payouts = map fst (filter P (weights_of eng vs))"
proof -
  have "map vp_Address payouts = map fst (filter (\<lambda>p. snd p \<noteq> 0) (weights_of eng vs)) \<or> payouts = []"
    using assms by (auto simp: Compute_def Let_def remainder_loop_addresses payout_loop_addresses split: prod.splits if_splits)
  then show ?thesis by (auto intro: exI [of _ "\<lambda>_. False"])
qed

lemma Compute_distinct:
  assumes "Compute oob eng height (map validator_input scores) = (bucket, payouts, summary)"
    and "distinct (map (\<lambda>r. f (ls_Address r)) scores)"
  shows "distinct (map (\<lambda>p. f (vp_Address p)) payouts) \<and> set (map vp_Address payouts) \<subseteq> set (map ls_Address scores)"
proof -
  define ws where "ws = weights_of eng (map validator_input scores)"
  have ws: "map fst ws = map ls_Address scores" by (simp add: ws_def weight_of_def validator_input_def Let_def)
  from Compute_addresses [OF assms(1)] obtain P where p: "map vp_Address payouts = map fst (filter P ws)"
    unfolding ws_def ..
  have "map f (map fst ws) = map (\<lambda>r. f (ls_Address r)) scores" by (simp only: ws map_map comp_def)
  then have "distinct (map (f \<circ> fst) ws)" using assms(2) by simp
  then have "distinct (map (f \<circ> fst) (filter P ws))" by (rule distinct_map_filter)
  moreover have "map (\<lambda>p. f (vp_Address p)) payouts = map (f \<circ> fst) (filter P ws)"
    using arg_cong [OF p, of "map f"] by (simp add: comp_def)
  moreover have "set (map vp_Address payouts) \<subseteq> set (map ls_Address scores)"
    unfolding p ws [symmetric] by auto
  ultimately show ?thesis by simp
qed

definition balance_of :: "string \<Rightarrow> Adapter \<Rightarrow> u64" where
  "balance_of addr a = acc_balance (fst (GetAccount addr (ad_db a)))"

definition read_key :: "string result \<Rightarrow> Adapter \<Rightarrow> bytes option" where
  "read_key k a = (case k of Inl e \<Rightarrow> None | Inr key \<Rightarrow> GetKey key (ad_db a))"

definition stored_balance :: "string \<Rightarrow> (string, Account) gomap \<Rightarrow> u64" where
  "stored_balance addr m = (case map_of m addr of None \<Rightarrow> 0 | Some acc \<Rightarrow> acc_balance acc)"

lemma balance_of_stored: "balance_of addr a = stored_balance addr (accts (ad_db a))"
  by (simp add: balance_of_def stored_balance_def GetAccount_def db_get_def zeroAccount_def split: option.splits)

lemma stored_balance_add:
  "stored_balance addr (add_account b amount m) = stored_balance addr m + (if addr = b then amount else 0)"
  by (simp add: stored_balance_def add_account_def AddBalance_def credit_def db_get_def put_account_def zeroAccount_def
      gomap_simps split: option.splits)

definition treasury_share :: "Adapter \<Rightarrow> EpochRewardSummary \<Rightarrow> string \<Rightarrow> u64" where
  "treasury_share a x addr =
     (if addr \<noteq> [] \<and> addr = ad_foundationAddr a then es_FoundationShare x else 0)
     + (if addr \<noteq> [] \<and> addr = ad_exchangeAddr a then es_ExchangeShare x else 0)"

lemma treasury_balance:
  assumes "(accts (ad_db a'), ad_foundationAddr a', ad_exchangeAddr a')
    = pay_treasury x (accts (ad_db a), ad_foundationAddr a, ad_exchangeAddr a)"
  shows "balance_of addr a' = balance_of addr a + treasury_share a x addr"
  using assms by (auto simp: balance_of_stored treasury_share_def stored_balance_add Let_def)

text \<open>
  Property C32. An epoch is applied completely: if the store lists records with non-empty, pairwise
  different addresses (up to case and blanks) and finite scores, \<open>Apply\<close> on the adapter succeeds with
  what \<open>Compute\<close> returns; afterwards the summary and every payout are stored under their keys, every record
  is stored with its participation reset and the epoch and height noted, and the foundation and exchange accounts
  have received their shares once, every other balance being unchanged.
\<close>

theorem Apply_adapter:
  assumes "ListValidatorScores unm a = Inr scores"
    and "Compute oob eng height (map validator_input scores) = (bucket, payouts, summary)"
    and "\<forall>r \<in> set scores. ls_Address r \<noteq> [] \<and> f_finite (ls_Score r)"
    and "distinct (map (\<lambda>r. normalize (ls_Address r)) scores)"
  shows "\<exists>a'. Apply oob (Some eng) height (Some (adapter_state unm fmt)) a = (Inr (bucket, payouts, summary), a')
    \<and> GetKey (EpochSummaryKey (es_Epoch summary)) (ad_db a') = Some (summary_json summary)
    \<and> (\<forall>p \<in> set payouts.
         read_key (ValidatorPayoutKey (es_Epoch summary) (vp_Address p)) a' = Some (payout_json (vp_Amount p)))
    \<and> (\<forall>r \<in> set scores. \<exists>b. read_key (ValidatorScoreKey (ls_Address r)) a' = Some b
         \<and> legacy_score_json fmt (r\<lparr>ls_Participation := 0, ls_LastRewardedEpoch := es_Epoch summary,
             ls_LastUpdatedHeight := height\<rparr>) = Inr b)
    \<and> (\<forall>addr. balance_of addr a' = balance_of addr a + treasury_share a summary addr)"
proof -
  note addrs = Compute_distinct [OF assms(2,4)]
  have list: "rs_ListValidatorScores (adapter_state unm fmt) a = Inr scores"
    using assms(1) by (simp add: adapter_state_def)
  have "\<forall>p \<in> set payouts. vp_Address p \<noteq> []" using addrs assms(3) by fastforce
  moreover have "distinct (map (\<lambda>p. payout_key (es_Epoch summary) (vp_Address p)) payouts)"
    using addrs by (simp add: distinct_map inj_on_def payout_key_inject)
  moreover have "distinct (map (\<lambda>r. score_key (ls_Address r)) scores)"
    using assms(4) by (simp add: distinct_map inj_on_def score_key_inject)
  ultimately obtain a' where ok: "Apply oob (Some eng) height (Some (adapter_state unm fmt)) a = (Inr (bucket, payouts, summary), a')"
    and sum: "GetKey (EpochSummaryKey (es_Epoch summary)) (ad_db a') = Some (summary_json summary)"
    and pay: "\<forall>p \<in> set payouts. GetKey (payout_key (es_Epoch summary) (vp_Address p)) (ad_db a') = Some (payout_json (vp_Amount p))"
    and scr: "\<forall>r \<in> set scores. GetKey (score_key (ls_Address r)) (ad_db a')
      = Some (score_blob fmt (ResetForEpoch (es_Epoch summary) height r))"
    and tre: "(accts (ad_db a'), ad_foundationAddr a', ad_exchangeAddr a')
      = pay_treasury summary (accts (ad_db a), ad_foundationAddr a, ad_exchangeAddr a)"
    using adapter.Apply_written [OF list assms(2) _ assms(3)] by blast
  have "read_key (ValidatorPayoutKey (es_Epoch summary) (vp_Address p)) a' = Some (payout_json (vp_Amount p))"
    if "p \<in> set payouts" for p
    using pay \<open>\<forall>p \<in> set payouts. vp_Address p \<noteq> []\<close> that
    by (simp add: read_key_def ValidatorPayoutKey_def payout_key_def)
  moreover have "\<exists>b. read_key (ValidatorScoreKey (ls_Address r)) a' = Some b
      \<and> legacy_score_json fmt (r\<lparr>ls_Participation := 0, ls_LastRewardedEpoch := es_Epoch summary,
          ls_LastUpdatedHeight := height\<rparr>) = Inr b" if "r \<in> set scores" for r
    using scr assms(3) that
    by (simp add: read_key_def ValidatorScoreKey_def score_key_def score_blob_def legacy_score_json_def ResetForEpoch_def)
  ultimately show ?thesis using ok sum treasury_balance [OF tre] by blast
qed

text \<open>A store with one record, and a reader of its text.\<close>

definition one_score :: "string \<Rightarrow> Adapter" where
  "one_score addr = NewAdapter (SetKey (score_key addr) (bytes_of addr) NewDB) ''fnd'' ''exc''"

definition read_one :: "bytes \<Rightarrow> LegacyScoreRecord option" where
  "read_one b = Some (fresh_record (map (\<lambda>x. char_of (unat x)) b))"

lemma list_one: "ListValidatorScores read_one (one_score addr) = Inr [fresh_record addr]"
proof -
  have "has_prefix (score_key addr) (validatorScorePrefix @ ''/'')"
    by (simp add: score_key_def has_prefix_iff)
  then show ?thesis
    by (simp add: ListValidatorScores_def one_score_def NewAdapter_def RangePrefix_def SetKey_def NewDB_def
        collect_score_def read_one_def)
qed

lemma demo_foundation:
  "Compute 0 demo_engine 5 vs = (bucket, payouts, summary) \<Longrightarrow> es_FoundationShare summary = 100"
  by (auto simp: Compute_def demo_engine_def EmissionAt_def SplitMint_def split_defs Let_def split: prod.splits if_splits)

theorem Apply_adapter_witness:
  "\<exists>out a'. Apply 0 (Some demo_engine) 5 (Some (adapter_state read_one (\<lambda>x. ''0''))) (one_score ''val1'') = (Inr out, a')
     \<and> balance_of ''fnd'' a' = balance_of ''fnd'' (one_score ''val1'') + 100"
proof -
  obtain bucket payouts summary
    where c: "Compute 0 demo_engine 5 (map validator_input [fresh_record ''val1'']) = (bucket, payouts, summary)"
    by (cases "Compute 0 demo_engine 5 (map validator_input [fresh_record ''val1''])")
  have "treasury_share (one_score ''val1'') summary ''fnd'' = 100"
    by (simp add: treasury_share_def one_score_def NewAdapter_def demo_foundation [OF c])
  with Apply_adapter [OF list_one c, of "\<lambda>x. ''0''"] show ?thesis by (auto simp: fresh_record_def)
qed

text \<open>
  Property C33. A failed epoch is half applied: if the listing succeeds but some listed record has an
  empty address or a score that is not finite, \<open>Apply\<close> reports an error, and still the epoch summary
  is stored and the foundation and exchange accounts have been paid: nothing is rolled back.
\<close>

theorem Apply_fails_after_paying:
  assumes "ListValidatorScores unm a = Inr scores"
    and "Compute oob eng height (map validator_input scores) = (bucket, payouts, summary)"
    and "r \<in> set scores" and "ls_Address r = [] \<or> \<not> f_finite (ls_Score r)"
    and "Apply oob (Some eng) height (Some (adapter_state unm fmt)) a = (res, a')"
  shows "(\<exists>e. res = Inl e)
    \<and> GetKey (EpochSummaryKey (es_Epoch summary)) (ad_db a') = Some (summary_json summary)
    \<and> balance_of addr a' = balance_of addr a + treasury_share a summary addr"
proof -
  have list: "rs_ListValidatorScores (adapter_state unm fmt) a = Inr scores"
    using assms(1) by (simp add: adapter_state_def)
  note always = adapter.Apply_always [OF list assms(2), unfolded assms(5) fst_conv snd_conv]
  show ?thesis
    using always(3) [OF assms(3)] always(2) treasury_balance [OF always(1)] assms(4) by simp
qed

theorem Apply_fails_after_paying_witness:
  "case Apply 0 (Some demo_engine) 5 (Some (adapter_state read_one (\<lambda>x. ''0''))) (one_score []) of
     (res, a') \<Rightarrow> (\<exists>e. res = Inl e) \<and> balance_of ''fnd'' a' = balance_of ''fnd'' (one_score []) + 100"
proof -
  obtain bucket payouts summary
    where c: "Compute 0 demo_engine 5 (map validator_input [fresh_record []]) = (bucket, payouts, summary)"
    by (cases "Compute 0 demo_engine 5 (map validator_input [fresh_record []])")
  obtain res a' where r: "Apply 0 (Some demo_engine) 5 (Some (adapter_state read_one (\<lambda>x. ''0''))) (one_score []) = (res, a')"
    by fastforce
  have "treasury_share (one_score []) summary ''fnd'' = 100"
    by (simp add: treasury_share_def one_score_def NewAdapter_def demo_foundation [OF c])
  with Apply_fails_after_paying [OF list_one c _ _ r, of "fresh_record []" "''fnd''"] show ?thesis
    by (simp add: r fresh_record_def)
qed

end
