(* ===== verification/Spec2Isabelle.thy ===== *)
theory Spec2Isabelle
  imports Server Light_Standalone Signed_Proxy Sig_Util Legacy_State Legacy_Apply
begin

text \<open>
  A verification development of thomasd, the node of the Thomas chain: a single-node ledger with an
  HTTP interface, written in Go under \<open>src/\<close>. It models the node's own logic and proves what makes it
  correct. The development is a library of theories over one prelude; this theory holds the
  overview and the properties that span components.

  \<^bold>\<open>The program.\<close> \<open>cmd/thomasd/main.go\<close> builds the engine (\<open>internal/app/engine.go\<close>), the router
  (\<open>internal/rpc/router.go\<close>) and the middleware around it. The engine owns the account state
  (\<open>internal/state\<close>), the receipts and the rounds. \<open>POST /tx\<close> passes a chain of prechecks, changes
  the accounts and stores a receipt; \<open>POST /round/commit\<close> closes a round over the receipts since the
  last one, signs it, mints the block reward (\<open>internal/rewards\<close>) and appends an Eternity header with a
  commit bundle (\<open>internal/types\<close>), linked by hash to its predecessor. Requests to pay are kept by the
  router in memory and in a file. Light clients fetch headers and check them with
  \<open>internal/light\<close>; a separate build has an in-memory light router. Server-sent events are delivered by
  goroutines. State, ledger and keys are files.

  \<^bold>\<open>Conventions.\<close> Go integers are machine words with the wrap-around of the language, read as
  natural numbers (\<^const>\<open>unat\<close>) or signed (\<^const>\<open>sint\<close>) where the code does; strings and byte
  slices are lists; a Go map is an association list whose order stands for the unspecified iteration
  order. An error is the left summand of a sum, a panic is a value of its own (\<open>None\<close> for a dropped
  connection, \<open>SlicePanic\<close> for a commit). State is passed explicitly. Hash functions, signatures, CBOR,
  JSON codecs of files, BIP-39, HKDF and the clock are parameters. Where a property relies on them
  the hypothesis is stated (a hash without collisions on the values in question, a codec that reads
  back what it wrote, a signature that verifies), and a witness instantiates it with concrete functions.
  Handlers run one at a time except where the model says otherwise (theories \<open>Sse\<close>, \<open>R2P_Race\<close>,
  \<open>Gateway\<close>).

  \<^bold>\<open>The theories.\<close>
  \<^item> \<open>Prelude\<close>: types, association lists, sorting, words; the locales \<open>keyed_store\<close> (lookup after
    write and removal), \<open>transition_system\<close>, \<open>invariant_system\<close> (invariants of reachable states),
    and \<open>simulation\<close> (a detailed system whose steps are runs of an abstract one).
  \<^item> \<open>Go_Strings\<close>, \<open>Go_Path\<close>, \<open>Base64\<close>, \<open>Float64\<close>, \<open>Binary64\<close>, \<open>Cbor\<close>, \<open>Cbor_Decode\<close>: the standard library
    as the code uses it, with round trips; \<open>rfc8949\<close> and \<open>rfc8949_array\<close> are a concrete encoder and
    reader; \<open>Binary64\<close> is signed floating-point addition on bit patterns, exact on halves and finite
    where the code needs it.
  \<^item> \<open>Go_Mux\<close>: how \<open>http.ServeMux\<close> selects a handler, with its redirects to clean paths.
  \<^item> \<open>Merkle\<close> (\<open>internal/merkle\<close>): both trees; inclusion proofs are complete and binding; the
    repeated last node of odd levels is shown as a fact.
  \<^item> \<open>State\<close> (\<open>internal/state\<close>): accounts, transfers, the key/value store, the state root. Transfers
    conserve balances, refine an abstract ledger, and use each nonce once.
  \<^item> \<open>Types\<close> (\<open>internal/codec\<close>, \<open>internal/types\<close>): headers, bundles, receipts and proofs; state proofs
    are sound and complete.
  \<^item> \<open>Stake\<close> (\<open>internal/stake\<close>, \<open>internal/consensus\<close>, \<open>internal/state/validators\<close>): binary search,
    batched operations as a refinement of a map, the validators root binds the set, score rules.
  \<^item> \<open>Rewards\<close>, \<open>Reward_Store\<close> (\<open>internal/rewards\<close>, \<open>internal/app/state_reward.go\<close>,
    \<open>internal/state/rewards\<close>): emission, payouts that add up exactly, supply counters, their storage.
  \<^item> \<open>Tx\<close> (\<open>internal/tx\<close>): transfers, lenient decoding and the transfer hash.
  \<^item> \<open>Light\<close> (\<open>internal/app/header_builder.go\<close>, \<open>internal/light\<close>): building, signing and checking
    headers.
  \<^item> \<open>Sse\<close>: the event hub of the engine as interleaved subscription, removal and delivery steps.
  \<^item> \<open>Engine\<close>, \<open>Engine_Inv\<close>, \<open>Engine_Ledger\<close> (\<open>internal/app\<close>): all operations of the engine as
    functions on the record \<open>Engine\<close>; the step relation \<open>engine_step\<close> and the invariant of every
    state reached from a start without a ledger (rounds tile the receipts, headers form a hash chain,
    the feed is bounded); from a start on any files, what the supply accounts for and when commits
    make progress; the ledger file is read back.
  \<^item> \<open>Rpc_Base\<close>, \<open>R2P\<close>, \<open>R2P_Props\<close>, \<open>R2P_Race\<close> (\<open>router.go\<close>, \<open>r2p_persist.go\<close>, \<open>r2p_cursor.go\<close>):
    requests to pay; what an approval pays, the life cycle of a record, what overlapping handlers, failed
    saves and restarts do.
  \<^item> \<open>Tx_Pipeline\<close> (\<open>router.go\<close>): the prechecks as guards (locales \<open>guard\<close>, \<open>guard_pair\<close>) in front of
    the transfer handlers; only authorised transfers are applied, rejected ones change no account.
  \<^item> \<open>Router_Queries\<close> (\<open>router.go\<close>): the read handlers and the commit variants.
  \<^item> \<open>Eternity_Json\<close> (\<open>eternity_handlers.go\<close>, \<open>round_handlers.go\<close>): signed headers as JSON; what is
    served is the header that was signed and can be verified from the answer.
  \<^item> \<open>Light_Router\<close> (\<open>router_lightclient.go\<close>): the light build, its chain of headers and its nonces.
  \<^item> \<open>Light_Standalone\<close> (\<open>tmp_light_router_standalone.go\<close>): a cut-down copy of it, which answers readers alike.
  \<^item> \<open>Docs\<close> (\<open>server/docs_routes.go\<close>): the documentation routes; they read nothing outside their
    directories, and the merged document is what the part files say.
  \<^item> \<open>Gateway\<close> (\<open>cmd/thomasd/main.go\<close>): start guard, CORS, the rate limit with its binary64 refill, and
    the mux over the router and the documentation routes.
  \<^item> \<open>R2P_Client\<close> (\<open>pkg/r2pclient\<close>, \<open>cmd/r2p-list\<close>): both clients, alone and against the router.
  \<^item> \<open>Wallet\<close> (\<open>internal/crypto\<close>, the wallet handlers, \<open>binding_config.go\<close>): key file, mnemonics.
  \<^item> \<open>Diagnostics\<close> (\<open>router.go\<close>, \<open>router_diag.go\<close>): the endpoints that report on the process; the event
    stream is never served.
  \<^item> \<open>Node\<close>, \<open>Node_Props\<close> (\<open>router.go\<close>, \<open>main.go\<close>): the table of all routes behind the prechecks, the
    start on any files (\<open>node_init\<close>) and without a ledger (\<open>node_fresh\<close>), and the node as a transition
    system over arbitrary HTTP requests, simulated by the engine; which requests change accounts, no replay, well-formedness, the life cycle of requests to pay.
  \<^item> \<open>Server\<close> (\<open>main.go\<close>): the node behind the gateway, simulated by the node; under every sequence of
    requests to the listening port value is conserved, from a start on any files whose balances and
    open amounts fit, and the chain is consistent, from a start without a ledger.
  \<^item> \<open>Signed_Proxy\<close> (\<open>tools/signedmsg_proxy\<close>): the proxy alone and in front of a node.
  \<^item> \<open>Key_Tools\<close> (\<open>tools/ed25519sign\<close>, \<open>cmd/ed25519tool\<close>): the signing tools and the key files they read.
  \<^item> \<open>Sig_Util\<close> (\<open>sig_util.go\<close>, \<open>sig_once.go\<close>): what these helpers sign passes the node's prechecks.
  \<^item> \<open>Legacy_Score\<close>, \<open>Legacy_State\<close>, \<open>Legacy_Apply\<close>: the files behind the tag \<open>legacy_penalty\<close>
    (\<open>internal/state/validators\<close>, \<open>internal/state\<close>, \<open>internal/rewards/apply.go\<close>) with the quarantined
    \<open>stake/validator.go\<close>: floating-point scores under two sets of rules, where they agree and
    where they part; two validator roots; the score store as a transition system; and \<open>Apply\<close> over the
    locale \<open>reward_state\<close>, which the adapter of \<open>internal/state/rewards\<close> instantiates.

  \<^bold>\<open>Across components\<close> (this theory): a transfer accepted over HTTP is covered by the next round,
  and what a header built by the engine means to the light client's check.

  \<^bold>\<open>Starts.\<close> What the node reads at the start is not checked by the program: balances, receipts, the
  commit position and requests to pay are taken as the files have them. Properties of the running
  node hold from any such start, with what they need of the files as a hypothesis (amounts below
  \<open>2^63\<close>, a total below \<open>2^64\<close>, a commit position within the receipts); only the consistency of the
  whole chain is stated for starts without a ledger, since a ledger is believed as it is. What happens
  without the hypotheses is shown as facts (\<open>loaded_amount_wraps\<close>, \<open>CommitRound_behind\<close>,
  \<open>create_overwrites\<close>).

  \<^bold>\<open>Bounds.\<close> Loops are structural or have a measure; there is no fuel except where the code itself
  counts (the client's hundred pages) or where a caller's loop is modelled (\<open>drain\<close>, with as many
  calls as there are pages). Statements about 64-bit counters assume fewer than \<open>2^64\<close> receipts, headers
  or mas, which is written as a hypothesis; the wrap-around itself is shown where it is reachable.

  \<^bold>\<open>Findings\<close> are stated as facts beside the properties: wrapping sums in transfers and fees and
  in requests to pay read from a file, commits blocked by a ledger that claims too much, records
  overwritten by a repeated identifier, double
  payment by overlapping approvals, declines lost on restart, a crash of the event hub, supply
  and headers lost on restart, light proofs that are never served, aliases that never resolve,
  a proxy that checks another message than the one signed, key files the signing tool refuses, an epoch that fails after
  it has paid the treasury, penalty rules that disagree, and others named in the theories.

  \<^bold>\<open>Not modelled.\<close> What the Go runtime reports about the process (a parameter of \<open>Diagnostics\<close>) and the
  loop of the event stream, which is not reached; the package \<open>internal/health\<close>, which the repository does not contain (its
  handler is a parameter of \<open>Node\<close>). The tag \<open>legacy_penalty\<close> is modelled file by file, with the
  declarations its files refer to; as the repository stands it does not build, because
  \<open>internal/stake\<close> does not declare the penalty types. Further: the text of a floating-point
  number in JSON (a parameter); the generator
  \<open>txgen.go\<close>, which writes a constant, and generated protobuf code; flag parsing, listening and logging;
  JSON member order; a request-to-pay file with a null in the place of a record; the decoding of request bodies by \<open>encoding/json\<close>, a
  parameter of \<open>Node\<close> for each kind of body.
\<close>

section \<open>From the request to the round\<close>

text \<open>What an accepted transfer does to the engine.\<close>

lemma txPost_engine:
  assumes "is_tx rq" "applied (fst (txHandler c now rq rt))" "rq_Body rq = Some inp"
  shows "\<exists>e1 r. e1 = snd (eng_ApplyTransfer (c_env c) (featAlias c) (c_wr c) (tx_of inp) (rt_eng rt))
    \<and> r = make_receipt (c_env c) now (tx_of inp) True [] e1
    \<and> rt_eng (snd (txHandler c now rq rt)) = snd (StoreReceipt (c_env c) (c_wr c) now (tx_of inp) True [] e1)
    \<and> e_leaves (rt_eng (snd (txHandler c now rq rt))) = e_leaves (rt_eng rt) @ [receipt_json r]"
proof -
  obtain u e1 where a: "eng_ApplyTransfer (c_env c) (featAlias c) (c_wr c) (tx_of inp) (rt_eng rt) = (u, e1)" by fastforce
  have "\<exists>x. u = Inr x" using assms a by (cases u) (auto simp: tx_handler_defs)
  then have out: "rt_eng (snd (txHandler c now rq rt)) = snd (StoreReceipt (c_env c) (c_wr c) now (tx_of inp) True [] e1)"
    using assms a by (auto simp: tx_handler_defs)
  have "e_leaves e1 = e_leaves (rt_eng rt)"
    using eng_ApplyTransfer_eq [of "c_env c" "featAlias c" "c_wr c" "tx_of inp" "rt_eng rt"] a by auto
  then show ?thesis
    using out a StoreReceipt_eq [of "c_env c" "c_wr c" now "tx_of inp" True "[]" e1] by (auto simp: Let_def)
qed

lemma tx_engine_frame:
  assumes "e1 = snd (eng_ApplyTransfer env feat wr t e)" "e2 = snd (StoreReceipt env wr' now t' ok reason e1)"
  shows "e_pub e2 = e_pub e \<and> e_priv e2 = e_priv e \<and> e_lastCommittedHeight e2 = e_lastCommittedHeight e"
  using eng_ApplyTransfer_eq [of env feat wr t e] StoreReceipt_eq [of env wr' now t' ok reason e1] assms
  by (auto simp: Let_def)

text \<open>
  Property C4. An accepted transfer ends up in a round: in a node that started on files whose ledger
  claims no more committed receipts than it holds, as every start without a ledger does, and that
  has answered any requests, with a usable key pair, fewer than 2^64 - 2 receipts and a CBOR library
  that encodes every value, a transfer that \<open>POST /tx\<close> reports as applied and that is followed by \<open>POST /round/commit\<close> is covered
  by the round that this commit returns: the round ends at the height of the transfer's receipt,
  and its Merkle root is that of the receipts since the last round, of which this one is the last. A
  ledger that claims more is loaded too, and then commits return no round until the receipts exceed
  its claim (\<open>CommitRound_behind\<close>).
\<close>

theorem applied_transfer_committed:
  assumes "node_init n rt0" and "unat (e_lastCommittedHeight (rt_eng rt0)) \<le> length (e_leaves (rt_eng rt0))"
    and "(node_step n)\<^sup>*\<^sup>* rt0 rt" and "c = n_cfg n" and "length (e_leaves (rt_eng rt)) + 2 < 2 ^ 64"
    and "length (e_pub (rt_eng rt)) = 32" "length (e_priv (rt_eng rt)) = 64" and "\<forall>v. \<exists>b. env_cbor (c_env c) v = Inr b"
    and "is_tx rq" "applied (fst (tx_root c now rq rt))" and "rq_Method crq = ''POST''"
  shows "\<exists>inp r hdr rt2. rq_Body rq = Some inp \<and> rc_TxHash r = tx_Hash (env_sha (c_env c)) (tx_of inp) \<and> rc_Status r = ''applied''
    \<and> roundCommit c later crq (snd (tx_root c now rq rt)) = (Some (committed_reply hdr), rt2)
    \<and> unat (rh_FromHeight hdr) \<le> unat (rh_ToHeight hdr) \<and> unat (rh_ToHeight hdr) = length (e_leaves (rt_eng rt)) + 1
    \<and> rh_Root hdr = hex_encode (Root (env_sha (c_env c))
        (drop (unat (rh_FromHeight hdr) - 1) (e_leaves (rt_eng rt)) @ [receipt_json r]))"
proof -
  let ?rt1 = "snd (tx_root c now rq rt)"
  from tx_root_cases [OF assms(9), of c now rt] assms(10)
  have ok: "applied (fst (txHandler c now rq rt))" and eng: "rt_eng ?rt1 = rt_eng (snd (txHandler c now rq rt))" by blast+
  from txPost_ok [OF assms(9) ok] obtain inp where inp: "rq_Body rq = Some inp" by blast
  from txPost_engine [OF assms(9) ok inp] eng obtain e1 r
    where e1: "e1 = snd (eng_ApplyTransfer (c_env c) (featAlias c) (c_wr c) (tx_of inp) (rt_eng rt))"
      and r: "r = make_receipt (c_env c) now (tx_of inp) True [] e1"
      and e2: "rt_eng ?rt1 = snd (StoreReceipt (c_env c) (c_wr c) now (tx_of inp) True [] e1)"
      and leaves: "e_leaves (rt_eng ?rt1) = e_leaves (rt_eng rt) @ [receipt_json r]" by auto
  note frame = tx_engine_frame [OF e1 e2]
  have lc: "unat (e_lastCommittedHeight (rt_eng rt)) \<le> length (e_leaves (rt_eng rt))"
    using commit_position_runs [OF node_sim.run_sim [OF assms(3)] assms(2)] assms(5) by simp
  obtain hdr h cb e3 where commit: "CommitRound (c_env c) (c_wr c) later (rt_eng ?rt1) = (Committed hdr, e3)"
    and hdr: "committed_header (c_env c) (rt_eng ?rt1) hdr"
    by (rule CommitRound_header [of "rt_eng ?rt1" "c_env c" "c_wr c" later]) (use assms(5-8) frame leaves lc in auto)
  have to: "unat (rh_ToHeight hdr) = length (e_leaves (rt_eng rt)) + 1"
    and fr: "unat (rh_FromHeight hdr) = unat (e_lastCommittedHeight (rt_eng rt)) + 1"
    using hdr assms(5) lc leaves frame by (simp_all add: committed_header_def u64_of_nat_exact u64_add_exact)
  have "rh_Root hdr = hex_encode (Root (env_sha (c_env c))
      (drop (unat (rh_FromHeight hdr) - 1) (e_leaves (rt_eng rt)) @ [receipt_json r]))"
    using hdr leaves frame lc fr by (simp add: committed_header_def)
  moreover have "roundCommit c later crq ?rt1 = (Some (committed_reply hdr), ?rt1\<lparr>rt_eng := e3\<rparr>)"
    using commit assms(11) by (simp add: roundCommit_def)
  ultimately show ?thesis
    using inp to fr lc
    by (intro exI [of _ inp] exI [of _ r] exI [of _ hdr] exI [of _ "?rt1\<lparr>rt_eng := e3\<rparr>"] conjI) (simp_all add: r)
qed

definition commit_req :: "unit Request" where
  "commit_req = \<lparr>rq_Method = ''POST'', rq_Path = ''/round/commit'', rq_Header = (\<lambda>k. []), rq_Query = (\<lambda>k. []),
     rq_Remote = [], rq_Body = None\<rparr>"

lemma demo_start_applied: "applied (fst (tx_root demo_cfg 9 demo_post demo_start))"
  by code_simp

lemma demo_start_engine:
  "e_leaves (rt_eng demo_start) = []" "e_lastCommittedHeight (rt_eng demo_start) = 0"
  "length (e_pub (rt_eng demo_start)) = 32" "length (e_priv (rt_eng demo_start)) = 64"
proof -
  show "e_leaves (rt_eng demo_start) = []" "e_lastCommittedHeight (rt_eng demo_start) = 0"
    using fresh_start_eq [OF node_fresh_sim.init_sim [OF demo_start_ok(2)]] by simp_all
  obtain db d where "rt_eng demo_start = snd (loadLedger (c_env demo_cfg) ledgerPath
      ((blank_engine [] (choose_key (Some (replicate 32 1, replicate 64 2)) None))\<lparr>e_db := db, e_disk := d\<rparr>))"
    using NewEngine_load [of "[]" "c_env demo_cfg" "c_wr demo_cfg" "Some (replicate 32 1, replicate 64 2)" None]
    by (auto simp: demo_start_def node_start_def)
  then show "length (e_pub (rt_eng demo_start)) = 32" "length (e_priv (rt_eng demo_start)) = 64"
    by (simp_all add: loadLedger_def blank_engine_def choose_key_def Let_def split: option.split)
qed

theorem applied_transfer_committed_witness:
  "\<exists>hdr rt2. roundCommit demo_cfg 10 commit_req (snd (tx_root demo_cfg 9 demo_post demo_start)) = (Some (committed_reply hdr), rt2)
     \<and> unat (rh_ToHeight hdr) = 1"
proof -
  have "demo_cfg = n_cfg demo_nenv" "\<forall>v. \<exists>b. env_cbor (c_env demo_cfg) v = Inr b" "is_tx demo_post"
    "rq_Method commit_req = ''POST''"
    using demo_cbor by (simp_all add: demo_nenv_def demo_cfg_def is_tx_def demo_post_def commit_req_def)
  with applied_transfer_committed [OF demo_start_ok(1) _ rtranclp.rtrancl_refl, of demo_cfg demo_post 9 commit_req 10]
    demo_start_applied demo_start_engine show ?thesis by auto
qed

section \<open>From the round to the light client\<close>

text \<open>
  Property C30. What the node builds and what the light client checks: a header and bundle built by the
  engine pass \<open>light.Verify\<close> against a validators root exactly when that root is the header's
  \<^emph>\<open>state\<close> root and the bundle's quorum hash, the root of the stored validator scores, is zero or
  equal to it. In particular, when scores are stored the check fails unless the state root and the
  scores' root coincide.
\<close>

theorem built_header_light_check:
  assumes "buildEternityHeader env raw hdr e = (Inr (h, cb), e')"
  shows "Verify (env_b3 env) (env_cbor env) \<lparr>pf_Header = Some h, pf_CommitBundle = Some cb, pf_ValidatorsRoot = vroot\<rparr> = Inr ()
    \<longleftrightarrow> vroot = StateRoot (env_b3 env) (e_db e) \<and> cb_QuorumHash cb \<in> {zero32, vroot}"
proof -
  have "cb = commit_bundle env hdr e" "cb_Hash (env_b3 env) (env_cbor env) cb = Inr (eh_CommitRoot h)"
    "eh_StateRoot h = StateRoot (env_b3 env) (e_db e)" "eh_Round h = ucast (rh_Round hdr)"
    using assms by (auto simp: buildEternityHeader_def header_fields_def Let_def split: sum.splits if_splits)
  moreover from this(1) have "cb_Round cb = ucast (rh_Round hdr)" by (simp add: commit_bundle_def Let_def)
  ultimately show ?thesis by (auto simp: Verify_ok_iff)
qed

definition demo_round :: RoundHeader where
  "demo_round = \<lparr>rh_Round = 1, rh_FromHeight = 1, rh_ToHeight = 1, rh_TxCount = 1, rh_Root = [], rh_TimeUTC = 9, rh_SignatureHex = []\<rparr>"

lemma run0_kv: "kv (e_db run0) = []"
proof -
  obtain db d where kv: "kv db = []" and "map_of d ledgerPath = None" "run0 = snd (loadLedger demo_env ledgerPath
      ((blank_engine [] (replicate 32 1, replicate 64 2))\<lparr>e_db := db, e_disk := d\<rparr>))"
    using NewEngine_load [of "[]" demo_env "\<lambda>p. False" "Some (replicate 32 1, replicate 64 2)" None]
    by (auto simp: run0_def choose_key_def)
  then have "run0 = (blank_engine [] (replicate 32 1, replicate 64 2))\<lparr>e_db := db, e_disk := d\<rparr>"
    by (simp add: loadLedger_def ReadFile_def)
  then show ?thesis by (elim ssubst) (simp add: kv)
qed

theorem built_header_light_check_witness:
  "\<exists>h cb e'. buildEternityHeader demo_env [] demo_round run0 = (Inr (h, cb), e')
     \<and> Verify toy_hash rfc8949 \<lparr>pf_Header = Some h, pf_CommitBundle = Some cb,
         pf_ValidatorsRoot = StateRoot toy_hash (e_db run0)\<rparr> = Inr ()"
proof -
  obtain h cb e' where b: "buildEternityHeader demo_env [] demo_round run0 = (Inr (h, cb), e')"
    using buildEternityHeader_total [OF _ _ demo_cbor, of run0 "[]" demo_round] run0_facts by auto
  then have "cb = commit_bundle demo_env demo_round run0"
    by (auto simp: buildEternityHeader_def Let_def split: sum.splits if_splits)
  moreover have "loadAllValidatorScores u (e_db run0) = Inr []" for u :: "bytes \<Rightarrow> ScoreRecord option"
    by (simp add: loadAllValidatorScores_def ListValidatorScores_def NewAdapter_def RangePrefix_def run0_kv)
  ultimately have "cb_QuorumHash cb = zero32" by (simp add: commit_bundle_def eng_computeValidatorsRoot_def Let_def)
  moreover have "env_b3 demo_env = toy_hash" "env_cbor demo_env = rfc8949" by (simp_all add: demo_env_def)
  ultimately show ?thesis using built_header_light_check [OF b] b by auto
qed

end
